(* ===== verification/Snip_Prelude.thy ===== *)
theory Snip_Prelude
  imports Main "HOL-Library.Word" "HOL-Library.AList"
begin

text \<open>
  What every component of the development shares.

  \<^item> Rust's \<open>Result\<close> is the sum type, \<open>Inl\<close> for \<open>Err\<close> and \<open>Inr\<close> for \<open>Ok\<close>; the
    question-mark operator is \<open>bindR\<close>, \<open>map_err\<close> and \<open>ok_or\<close> keep their names, and
    \<open>collectR\<close> is \<open>collect::<Result<Vec<_>, _>>()\<close>: the first error, or all values.
  \<^item> An effectful (asynchronous) function takes the world and returns a result and the world
    after it; \<open>bindW\<close> is the question-mark operator on such calls.
  \<^item> Strings are lists of bytes, as \<open>String::len\<close> counts them. The functions of the standard
    library the sources use on them are here: \<open>{:#x}\<close> and decimal formatting, \<open>trim\<close>,
    \<open>trim_start_matches\<close>, \<open>u64::from_str_radix(_, 16)\<close>.

  The collection \<open>result_simps\<close> holds the inversion rules of the combinators; adding it to the
  simplifier turns "this call succeeded" into the success of each of its steps.
\<close>

named_theorems result_simps \<open>inversion of result-valued combinators\<close>

type_synonym u8 = "8 word"
type_synonym u16 = "16 word"
type_synonym u32 = "32 word"
type_synonym u64 = "64 word"
type_synonym u128 = "128 word"

lemma unat_u64_lt: "unat (w :: u64) < 18446744073709551616"
  using unsigned_less [of w, where 'a = nat] by simp

lemma unat_u128_lt: "unat (w :: u128) < 340282366920938463463374607431768211456"
  using unsigned_less [of w, where 'a = nat] by simp

lemma of_char_div_16: "(of_char c :: nat) div 16 < 16"
  by (rule less_mult_imp_div_less) simp

section \<open>Results\<close>

fun bindR :: "'e + 'a \<Rightarrow> ('a \<Rightarrow> 'e + 'b) \<Rightarrow> 'e + 'b" where
  "bindR (Inl e) f = Inl e"
| "bindR (Inr x) f = f x"

fun map_err :: "('e \<Rightarrow> 'd) \<Rightarrow> 'e + 'a \<Rightarrow> 'd + 'a" where
  "map_err f (Inl e) = Inl (f e)"
| "map_err f (Inr x) = Inr x"

fun map_ok :: "('a \<Rightarrow> 'b) \<Rightarrow> 'e + 'a \<Rightarrow> 'e + 'b" where
  "map_ok f (Inl e) = Inl e"
| "map_ok f (Inr x) = Inr (f x)"

fun ok_or :: "'e \<Rightarrow> 'a option \<Rightarrow> 'e + 'a" where
  "ok_or e None = Inl e"
| "ok_or e (Some x) = Inr x"

fun ok_opt :: "'e + 'a \<Rightarrow> 'a option" where
  "ok_opt (Inl e) = None"
| "ok_opt (Inr x) = Some x"

fun collectR :: "('e + 'a) list \<Rightarrow> 'e + 'a list" where
  "collectR [] = Inr []"
| "collectR (r # rs) = bindR r (\<lambda>x. bindR (collectR rs) (\<lambda>xs. Inr (x # xs)))"

definition is_ok :: "'e + 'a \<Rightarrow> bool" where
  "is_ok r = (case r of Inl _ \<Rightarrow> False | Inr _ \<Rightarrow> True)"

lemma bindR_Inr_iff [result_simps]:
  "bindR m f = Inr y \<longleftrightarrow> (\<exists>x. m = Inr x \<and> f x = Inr y)"
  by (cases m) auto

lemma bindR_Inl_iff [result_simps]:
  "bindR m f = Inl e \<longleftrightarrow> m = Inl e \<or> (\<exists>x. m = Inr x \<and> f x = Inl e)"
  by (cases m) auto

lemma map_err_Inr_iff [result_simps, simp]: "map_err f m = Inr y \<longleftrightarrow> m = Inr y"
  by (cases m) auto

lemma map_err_Inl_iff [result_simps]: "map_err f m = Inl d \<longleftrightarrow> (\<exists>e. m = Inl e \<and> d = f e)"
  by (cases m) auto

lemma map_ok_Inr_iff [result_simps]: "map_ok f m = Inr y \<longleftrightarrow> (\<exists>x. m = Inr x \<and> y = f x)"
  by (cases m) auto

lemma map_ok_Inl_iff [result_simps, simp]: "map_ok f m = Inl e \<longleftrightarrow> m = Inl e"
  by (cases m) auto

lemma ok_or_Inr_iff [result_simps, simp]: "ok_or e m = Inr y \<longleftrightarrow> m = Some y"
  by (cases m) auto

lemma ok_or_Inl_iff [result_simps, simp]: "ok_or e m = Inl d \<longleftrightarrow> m = None \<and> d = e"
  by (cases m) auto

lemma is_ok_iff [result_simps]: "is_ok r \<longleftrightarrow> (\<exists>x. r = Inr x)"
  by (cases r) (auto simp: is_ok_def)

lemma is_ok_simps [simp]: "is_ok (Inr x)" "\<not> is_ok (Inl e)"
  by (auto simp: is_ok_def)

lemma ok_opt_Some_iff [result_simps, simp]: "ok_opt r = Some x \<longleftrightarrow> r = Inr x"
  by (cases r) auto

lemma collectR_Inr_iff [result_simps]: "collectR rs = Inr xs \<longleftrightarrow> rs = map Inr xs"
proof (induction rs arbitrary: xs)
  case Nil
  then show ?case by auto
next
  case (Cons r rs)
  then show ?case by (cases xs) (auto simp: bindR_Inr_iff)
qed

lemma collectR_map_Inr: "collectR (map Inr xs) = Inr xs"
  by (simp add: collectR_Inr_iff)

lemma collectR_mapE:
  assumes "collectR (map f xs) = Inr ys"
  shows "length ys = length xs" and "i < length xs \<Longrightarrow> f (xs ! i) = Inr (ys ! i)"
proof -
  from assms have eq: "map f xs = map Inr ys" by (simp add: collectR_Inr_iff)
  from eq show len: "length ys = length xs" by (metis length_map)
  assume "i < length xs"
  with eq len show "f (xs ! i) = Inr (ys ! i)" by (metis nth_map)
qed

lemma collectR_first_error:
  "collectR rs = Inl e \<longleftrightarrow> (\<exists>xs ss. rs = map Inr xs @ Inl e # ss)"
proof (induction rs)
  case Nil
  then show ?case by simp
next
  case (Cons r rs)
  show ?case
  proof (cases r)
    case (Inl d)
    show ?thesis
    proof
      assume "collectR (r # rs) = Inl e"
      with Inl have "r # rs = map Inr [] @ Inl e # rs" by simp
      then show "\<exists>xs ss. r # rs = map Inr xs @ Inl e # ss" by blast
    next
      assume "\<exists>xs ss. r # rs = map Inr xs @ Inl e # ss"
      then obtain xs ss where "r # rs = map Inr xs @ Inl e # ss" by blast
      with Inl show "collectR (r # rs) = Inl e" by (cases xs) auto
    qed
  next
    case (Inr x)
    show ?thesis
    proof
      assume "collectR (r # rs) = Inl e"
      with Inr have "collectR rs = Inl e" by (auto simp: bindR_Inl_iff)
      then obtain xs ss where "rs = map Inr xs @ Inl e # ss" using Cons.IH by blast
      with Inr have "r # rs = map Inr (x # xs) @ Inl e # ss" by simp
      then show "\<exists>xs ss. r # rs = map Inr xs @ Inl e # ss" by blast
    next
      assume "\<exists>xs ss. r # rs = map Inr xs @ Inl e # ss"
      then obtain xs ss where eq: "r # rs = map Inr xs @ Inl e # ss" by blast
      with Inr obtain ys where "rs = map Inr ys @ Inl e # ss" by (cases xs) auto
      then have "collectR rs = Inl e" using Cons.IH by blast
      with Inr show "collectR (r # rs) = Inl e" by simp
    qed
  qed
qed

section \<open>Calls that change the world\<close>

definition returnW :: "'a \<Rightarrow> 'w \<Rightarrow> ('e + 'a) \<times> 'w" where
  "returnW x w = (Inr x, w)"

definition throwW :: "'e \<Rightarrow> 'w \<Rightarrow> ('e + 'a) \<times> 'w" where
  "throwW e w = (Inl e, w)"

definition liftW :: "'e + 'a \<Rightarrow> 'w \<Rightarrow> ('e + 'a) \<times> 'w" where
  "liftW r w = (r, w)"

definition bindW ::
  "('w \<Rightarrow> ('e + 'a) \<times> 'w) \<Rightarrow> ('a \<Rightarrow> 'w \<Rightarrow> ('e + 'b) \<times> 'w) \<Rightarrow> 'w \<Rightarrow> ('e + 'b) \<times> 'w" where
  "bindW m k w = (case m w of (Inl e, w') \<Rightarrow> (Inl e, w') | (Inr x, w') \<Rightarrow> k x w')"

definition map_errW :: "('e \<Rightarrow> 'd) \<Rightarrow> ('w \<Rightarrow> ('e + 'a) \<times> 'w) \<Rightarrow> 'w \<Rightarrow> ('d + 'a) \<times> 'w" where
  "map_errW f m w = (case m w of (r, w') \<Rightarrow> (map_err f r, w'))"

lemma returnW_eq [result_simps]: "returnW x w = (Inr y, w') \<longleftrightarrow> y = x \<and> w' = w"
  by (auto simp: returnW_def)

lemma throwW_not_ok [result_simps, simp]: "throwW e w \<noteq> (Inr y, w')"
  by (simp add: throwW_def)

lemma liftW_eq [result_simps]: "liftW r w = (s, w') \<longleftrightarrow> r = s \<and> w' = w"
  by (auto simp: liftW_def)

lemma bindW_Inr_iff [result_simps]:
  "bindW m k w = (Inr y, w') \<longleftrightarrow> (\<exists>x v. m w = (Inr x, v) \<and> k x v = (Inr y, w'))"
  by (auto simp: bindW_def split: prod.splits sum.splits)

lemma map_errW_Inr_iff [result_simps]: "map_errW f m w = (Inr y, w') \<longleftrightarrow> m w = (Inr y, w')"
  by (auto simp: map_errW_def split: prod.splits)

lemma bindW_Inr: "m w = (Inr x, v) \<Longrightarrow> bindW m k w = k x v"
  by (simp add: bindW_def)

lemma bindW_Inl: "m w = (Inl e, v) \<Longrightarrow> bindW m k w = (Inl e, v)"
  by (simp add: bindW_def)

lemma bindW_liftW_snd [simp]: "snd (bindW m (\<lambda>r. liftW (f r)) w) = snd (m w)"
  by (auto simp: bindW_def liftW_def split: sum.splits prod.splits)

lemma bindW_liftW_fst [simp]: "fst (bindW m (\<lambda>r. liftW (f r)) w) = bindR (fst (m w)) f"
  by (auto simp: bindW_def liftW_def split: sum.splits prod.splits)

lemma map_errW_simps [simp]:
  "fst (map_errW f m w) = map_err f (fst (m w))"
  "snd (map_errW f m w) = snd (m w)"
  by (auto simp: map_errW_def split: prod.splits)

section \<open>Formatting and parsing of machine integers\<close>

definition hex_digit :: "nat \<Rightarrow> char" where
  "hex_digit d = (if d < 10 then char_of (48 + d) else char_of (87 + d))"

fun hex_digits :: "nat \<Rightarrow> string" where
  "hex_digits n = (if n < 16 then [hex_digit n] else hex_digits (n div 16) @ [hex_digit (n mod 16)])"

declare hex_digits.simps [simp del]

definition fmt_hex :: "nat \<Rightarrow> string" where
  "fmt_hex n = ''0x'' @ hex_digits n"

fun fmt_dec :: "nat \<Rightarrow> string" where
  "fmt_dec n = (if n < 10 then [char_of (48 + n)] else fmt_dec (n div 10) @ [char_of (48 + n mod 10)])"

declare fmt_dec.simps [simp del]

definition hex_val :: "char \<Rightarrow> nat option" where
  "hex_val c = (let n = of_char c in
     if 48 \<le> n \<and> n \<le> 57 then Some (n - 48)
     else if 97 \<le> n \<and> n \<le> 102 then Some (n - 87)
     else if 65 \<le> n \<and> n \<le> 70 then Some (n - 55)
     else None)"

definition err_empty :: string where "err_empty = ''cannot parse integer from empty string''"
definition err_digit :: string where "err_digit = ''invalid digit found in string''"
definition err_overflow :: string where "err_overflow = ''number too large to fit in target type''"

fun radix16_loop :: "nat \<Rightarrow> string \<Rightarrow> string + nat" where
  "radix16_loop acc [] = Inr acc"
| "radix16_loop acc (c # cs) =
     (case hex_val c of
        None \<Rightarrow> Inl err_digit
      | Some d \<Rightarrow> if 2 ^ 64 \<le> acc * 16 + d then Inl err_overflow else radix16_loop (acc * 16 + d) cs)"

text \<open>\<open>u64::from_str_radix(s, 16)\<close>: an optional plus sign, at least one digit, no overflow.\<close>

definition u64_from_str_radix16 :: "string \<Rightarrow> string + u64" where
  "u64_from_str_radix16 s =
     (case s of
        [] \<Rightarrow> Inl err_empty
      | c # cs \<Rightarrow>
          map_ok word_of_nat (if c = CHR ''+'' \<and> cs \<noteq> [] then radix16_loop 0 cs else radix16_loop 0 s))"

text \<open>\<open>s.trim_start_matches("0x")\<close> drops the prefix as often as it occurs.\<close>

fun trim_start_0x :: "string \<Rightarrow> string" where
  "trim_start_0x (a # b # s) = (if a = CHR ''0'' \<and> b = CHR ''x'' then trim_start_0x s else a # b # s)"
| "trim_start_0x s = s"

text \<open>\<open>str::trim\<close>: the byte sequences of the code points with the Unicode property White_Space.\<close>

definition bytes :: "nat list \<Rightarrow> string" where
  "bytes ns = map char_of ns"

definition ws_seqs :: "string list" where
  "ws_seqs = map bytes
     ([[9], [10], [11], [12], [13], [32], [194, 133], [194, 160], [225, 154, 128]]
      @ map (\<lambda>b. [226, 128, b]) [128, 129, 130, 131, 132, 133, 134, 135, 136, 137, 138, 168, 169, 175]
      @ [[226, 129, 159], [227, 128, 128]])"

fun strip_one :: "string list \<Rightarrow> string \<Rightarrow> string option" where
  "strip_one [] s = None"
| "strip_one (p # ps) s =
     (if p \<noteq> [] \<and> take (length p) s = p then Some (drop (length p) s) else strip_one ps s)"

lemma strip_one_shorter: "strip_one ps s = Some t \<Longrightarrow> length t < length s"
proof (induction ps)
  case Nil
  then show ?case by simp
next
  case (Cons p ps)
  show ?case
  proof (cases "p \<noteq> [] \<and> take (length p) s = p")
    case True
    with Cons.prems have t: "t = drop (length p) s" by (simp split: if_splits)
    from True have "length p \<le> length s" by (metis length_take min.bounded_iff order_refl)
    with True t show ?thesis by (cases p) auto
  next
    case False
    with Cons show ?thesis by (auto split: if_splits)
  qed
qed

function strip_all :: "string list \<Rightarrow> string \<Rightarrow> string" where
  "strip_all ps s = (case strip_one ps s of None \<Rightarrow> s | Some t \<Rightarrow> strip_all ps t)"
  by pat_completeness auto
termination
  by (relation "measure (\<lambda>(ps, s). length s)") (auto dest: strip_one_shorter)

declare strip_all.simps [simp del]

definition trim :: "string \<Rightarrow> string" where
  "trim s = rev (strip_all (map rev ws_seqs) (rev (strip_all ws_seqs s)))"

lemma hex_val_hex_digit: "d < 16 \<Longrightarrow> hex_val (hex_digit d) = Some d"
  by (auto simp: hex_val_def hex_digit_def Let_def)

lemma hex_digits_nonempty [simp]: "hex_digits n \<noteq> []"
  by (subst hex_digits.simps) simp

lemma radix16_loop_append:
  "radix16_loop acc (xs @ ys) = bindR (radix16_loop acc xs) (\<lambda>a. radix16_loop a ys)"
  by (induction xs arbitrary: acc) (auto split: option.splits)

lemma radix16_loop_hex_digits: "n < 2 ^ 64 \<Longrightarrow> radix16_loop 0 (hex_digits n) = Inr n"
proof (induction n rule: hex_digits.induct)
  case (1 n)
  show ?case
  proof (cases "n < 16")
    case True
    then show ?thesis by (subst hex_digits.simps) (simp add: hex_val_hex_digit)
  next
    case False
    with 1 have "radix16_loop 0 (hex_digits (n div 16)) = Inr (n div 16)" by simp
    with False 1(2) show ?thesis
      by (subst hex_digits.simps) (simp add: radix16_loop_append hex_val_hex_digit)
  qed
qed

lemma hex_digits_hd: "\<exists>c cs d. hex_digits n = c # cs \<and> hex_val c = Some d"
proof (induction n rule: hex_digits.induct)
  case (1 n)
  show ?case
  proof (cases "n < 16")
    case True
    then show ?thesis by (subst hex_digits.simps) (simp add: hex_val_hex_digit)
  next
    case False
    with 1 obtain c cs d where "hex_digits (n div 16) = c # cs" "hex_val c = Some d" by blast
    with False show ?thesis by (subst hex_digits.simps) simp
  qed
qed

lemma set_hex_digits: "c \<in> set (hex_digits n) \<Longrightarrow> \<exists>d<16. c = hex_digit d"
proof (induction n rule: hex_digits.induct)
  case (1 n)
  have "c \<in> set (if n < 16 then [hex_digit n] else hex_digits (n div 16) @ [hex_digit (n mod 16)])"
    using "1.prems" by (subst (asm) hex_digits.simps)
  then consider "n < 16" "c = hex_digit n" | "\<not> n < 16" "c \<in> set (hex_digits (n div 16))"
    | "c = hex_digit (n mod 16)"
    by (auto split: if_splits)
  then show ?case
  proof cases
    case 1
    then show ?thesis by blast
  next
    case 2
    then show ?thesis using "1.IH" by blast
  next
    case 3
    moreover have "n mod 16 < 16" by simp
    ultimately show ?thesis by blast
  qed
qed

lemma hex_digit_not_x: "d < 16 \<Longrightarrow> hex_digit d \<noteq> CHR ''x''"
  using hex_val_hex_digit [of d] by (auto simp: hex_val_def Let_def)

lemma trim_start_0x_fmt_hex: "trim_start_0x (fmt_hex n) = hex_digits n"
proof -
  have "trim_start_0x (hex_digits n) = hex_digits n"
  proof (cases "hex_digits n" rule: trim_start_0x.cases)
    case (1 a b s)
    then have "b \<in> set (hex_digits n)" by simp
    then obtain d where "d < 16" "b = hex_digit d" using set_hex_digits by blast
    then have "b \<noteq> CHR ''x''" using hex_digit_not_x by simp
    with 1 show ?thesis by simp
  qed auto
  then show ?thesis by (simp add: fmt_hex_def)
qed

text \<open>Reading back what \<open>{:#x}\<close> printed gives the integer.\<close>

lemma parse_fmt_hex: "u64_from_str_radix16 (trim_start_0x (fmt_hex (unat w))) = Inr w"
proof -
  obtain c cs d where h: "hex_digits (unat w) = c # cs" "hex_val c = Some d"
    using hex_digits_hd by blast
  have "c \<noteq> CHR ''+''" using h(2) by (auto simp: hex_val_def Let_def)
  moreover have "unat w < 2 ^ 64" using unat_u64_lt [of w] by simp
  ultimately show ?thesis
    using h radix16_loop_hex_digits [of "unat w"]
    by (simp add: trim_start_0x_fmt_hex u64_from_str_radix16_def)
qed

lemma hex_digits_inj: "m < 2 ^ 64 \<Longrightarrow> n < 2 ^ 64 \<Longrightarrow> hex_digits m = hex_digits n \<Longrightarrow> m = n"
  by (metis radix16_loop_hex_digits sum.inject(2))

section \<open>Association lists as insertion-ordered maps\<close>

definition im_extend :: "('k \<times> 'v) list \<Rightarrow> ('k \<times> 'v) list \<Rightarrow> ('k \<times> 'v) list" where
  "im_extend m kvs = foldl (\<lambda>acc (k, v). AList.update k v acc) m kvs"

lemma im_extend_Nil [simp]: "im_extend m [] = m"
  by (simp add: im_extend_def)

lemma im_extend_Cons [simp]: "im_extend m ((k, v) # kvs) = im_extend (AList.update k v m) kvs"
  by (simp add: im_extend_def)

lemma map_of_im_extend: "map_of (im_extend m kvs) = map_of m ++ map_of (rev kvs)"
proof (induction kvs arbitrary: m)
  case Nil
  then show ?case by simp
next
  case (Cons kv kvs)
  obtain k v where kv: "kv = (k, v)" by (cases kv)
  show ?case
    by (simp add: kv Cons.IH update_conv') (simp add: fun_eq_iff map_add_def split: option.split)
qed

lemma distinct_im_extend: "distinct (map fst m) \<Longrightarrow> distinct (map fst (im_extend m kvs))"
proof (induction kvs arbitrary: m)
  case Nil
  then show ?case by simp
next
  case (Cons kv kvs)
  then show ?case by (cases kv) (simp add: distinct_update)
qed

lemma dom_im_extend: "fst ` set (im_extend m kvs) = fst ` set m \<union> fst ` set kvs"
proof (induction kvs arbitrary: m)
  case Nil
  then show ?case by simp
next
  case (Cons kv kvs)
  then show ?case by (cases kv) (auto simp: dom_update)
qed

end
