(* ===== verification/Json_Value.thy ===== *)
theory Json_Value
  imports Snip_Prelude
begin

text \<open>
  \<open>serde_json::Value\<close> as data: the tree the \<open>json!\<close> macro builds and the accessors read.
  Integers are the \<open>i64\<close>/\<open>u64\<close> numbers of the crate, any other number is kept as its text.
  An object is the list of its entries; \<open>jget\<close> is \<open>Value::get\<close> with a string key, which is
  \<open>None\<close> on anything that is not an object. Turning a value into text and back is code of the
  crate and a parameter (theory Externals).
\<close>

datatype json =
    JNull
  | JBool bool
  | JInt int
  | JFloat string
  | JStr string
  | JArr "json list"
  | JObj "(string \<times> json) list"

fun jget :: "string \<Rightarrow> json \<Rightarrow> json option" where
  "jget k (JObj kvs) = map_of kvs k"
| "jget k _ = None"

fun as_str :: "json \<Rightarrow> string option" where
  "as_str (JStr s) = Some s"
| "as_str _ = None"

fun as_u64 :: "json \<Rightarrow> u64 option" where
  "as_u64 (JInt i) = (if 0 \<le> i \<and> i < 2 ^ 64 then Some (word_of_int i) else None)"
| "as_u64 _ = None"

fun as_array :: "json \<Rightarrow> json list option" where
  "as_array (JArr vs) = Some vs"
| "as_array _ = None"

fun is_null :: "json \<Rightarrow> bool" where
  "is_null JNull = True"
| "is_null _ = False"

definition jget_str :: "string \<Rightarrow> json \<Rightarrow> string option" where
  "jget_str k v = Option.bind (jget k v) as_str"

definition ju64 :: "u64 \<Rightarrow> json" where
  "ju64 n = JInt (uint n)"

definition jstrs :: "string list \<Rightarrow> json" where
  "jstrs ss = JArr (map JStr ss)"

lemma as_u64_ju64 [simp]: "as_u64 (ju64 n) = Some n"
  using unsigned_less [of n, where 'a = int] by (simp add: ju64_def)

lemma as_str_Some_iff [simp]: "as_str v = Some s \<longleftrightarrow> v = JStr s"
  by (cases v) auto

lemma jget_str_Some_iff: "jget_str k v = Some s \<longleftrightarrow> jget k v = Some (JStr s)"
  by (auto simp: jget_str_def bind_eq_Some_conv)

lemma jstrs_inj [simp]: "jstrs xs = jstrs ys \<longleftrightarrow> xs = ys"
  by (auto simp: jstrs_def dest: map_injective [OF _ injI])

end
