(* ===== verification/Externals.thy ===== *)
theory Externals
  imports Json_Value
begin

text \<open>
  Everything the modelled code calls and that is not under \<open>src/\<close>, as parameters.

  \<^item> \<open>'f ext\<close> is a record of the third-party functions the code calls: the field elements of
    \<open>starknet_types_core\<close> (type \<open>'f\<close>), the hashes and the signature scheme of
    \<open>starknet_crypto\<close>, \<open>serde_json\<close>'s text conversions and the \<open>base64\<close> engine. The code
    only applies them; what a property needs of them is a named hypothesis, documented behaviour
    of the crate (\<open>felt_arith_laws\<close>, \<open>felt_bytes_laws\<close>, \<open>base64_laws\<close>), with an instance that
    satisfies it at the end of the theory.
  \<^item> \<open>sys\<close> is the outside: what an HTTP endpoint answers to the k-th interaction of a run and
    how long it takes. The answers are arbitrary functions of the index and the request, so a
    property that holds for every \<open>sys\<close> holds for every behaviour of the node.
  \<^item> \<open>world\<close> is what a run changes: the monotonic clock (milliseconds), the number of
    interactions so far and the list of the effects in the order they were caused. An HTTP
    exchange takes at least one tick of the clock; a sleep takes at least the time asked for.
\<close>

section \<open>Third-party functions\<close>

record 'f ext =
  x_from_hex :: "string \<Rightarrow> string + 'f"
  x_to_hex :: "'f \<Rightarrow> string"
  x_from_bytes_be_slice :: "string \<Rightarrow> 'f"
  x_from_bytes_be :: "string \<Rightarrow> 'f"
  x_to_bytes_be :: "'f \<Rightarrow> string"
  x_from_u64 :: "u64 \<Rightarrow> 'f"
  x_from_u128 :: "u128 \<Rightarrow> 'f"
  x_add :: "'f \<Rightarrow> 'f \<Rightarrow> 'f"
  x_mul :: "'f \<Rightarrow> 'f \<Rightarrow> 'f"
  x_pow_felt :: "'f \<Rightarrow> 'f \<Rightarrow> 'f"
  x_zero :: 'f
  x_one :: 'f
  x_two :: 'f
  x_three :: 'f
  x_poseidon_hash_many :: "'f list \<Rightarrow> 'f"
  x_pedersen_hash :: "'f \<Rightarrow> 'f \<Rightarrow> 'f"
  x_rfc6979_generate_k :: "'f \<Rightarrow> 'f \<Rightarrow> 'f"
  x_ecdsa_sign :: "'f \<Rightarrow> 'f \<Rightarrow> 'f \<Rightarrow> string + 'f \<times> 'f"
  x_json_text :: "json \<Rightarrow> string"
  x_json_pretty :: "json \<Rightarrow> string"
  x_json_parse :: "string \<Rightarrow> string + json"
  x_vec_string :: "json \<Rightarrow> string + string list"
  x_vec_string_parse :: "string \<Rightarrow> string + string list"
  x_b64_encode :: "string \<Rightarrow> string"
  x_b64_decode :: "string \<Rightarrow> string + string"

text \<open>The modulus of the Stark field, \<open>2^251 + 17 * 2^192 + 1\<close>.\<close>

definition felt_prime :: nat where
  "felt_prime = 2 ^ 251 + 17 * 2 ^ 192 + 1"

text \<open>The big-endian value of a byte string.\<close>

definition be_nat :: "string \<Rightarrow> nat" where
  "be_nat s = foldl (\<lambda>a c. a * 256 + of_char c) 0 s"

definition felt_arith_laws :: "('f, 'z) ext_scheme \<Rightarrow> ('f \<Rightarrow> nat) \<Rightarrow> bool" where
  "felt_arith_laws X val \<longleftrightarrow>
     val (x_two X) = 2 \<and>
     (\<forall>n. val (x_from_u64 X n) = unat n) \<and>
     (\<forall>n. val (x_from_u128 X n) = unat n) \<and>
     (\<forall>a b. val (x_add X a b) = (val a + val b) mod felt_prime) \<and>
     (\<forall>a b. val (x_mul X a b) = (val a * val b) mod felt_prime) \<and>
     (\<forall>a b. val (x_pow_felt X a b) = (val a ^ val b) mod felt_prime)"

definition felt_bytes_laws :: "('f, 'z) ext_scheme \<Rightarrow> ('f \<Rightarrow> nat) \<Rightarrow> bool" where
  "felt_bytes_laws X val \<longleftrightarrow>
     (\<forall>s. val (x_from_bytes_be_slice X s) = be_nat s mod felt_prime) \<and>
     (\<forall>s. length s = 32 \<longrightarrow> val (x_from_bytes_be X s) = be_nat s mod felt_prime) \<and>
     (\<forall>a. length (x_to_bytes_be X a) = 32 \<and> be_nat (x_to_bytes_be X a) = val a)"

definition base64_laws :: "('f, 'z) ext_scheme \<Rightarrow> bool" where
  "base64_laws X \<longleftrightarrow>
     (\<forall>s. x_b64_decode X (x_b64_encode X s) = Inr s) \<and>
     (\<forall>s. trim (x_b64_encode X s) = x_b64_encode X s)"

definition hex_laws :: "('f, 'z) ext_scheme \<Rightarrow> bool" where
  "hex_laws X \<longleftrightarrow> (\<forall>a. x_from_hex X (x_to_hex X a) = Inr a) \<and> x_from_hex X ''0x0'' = Inr (x_zero X)"

lemma be_nat_Nil [simp]: "be_nat [] = 0"
  by (simp add: be_nat_def)

lemma be_nat_snoc: "be_nat (s @ [c]) = be_nat s * 256 + of_char c"
  by (simp add: be_nat_def)

lemma be_nat_append: "be_nat (s @ t) = be_nat s * 256 ^ length t + be_nat t"
proof (induction t rule: rev_induct)
  case Nil
  then show ?case by simp
next
  case (snoc c t)
  have "be_nat (s @ t @ [c]) = be_nat ((s @ t) @ [c])" by simp
  also have "\<dots> = be_nat (s @ t) * 256 + of_char c" by (rule be_nat_snoc)
  finally show ?case by (simp add: snoc.IH be_nat_snoc algebra_simps)
qed

lemma be_nat_lt: "be_nat s < 256 ^ length s"
proof (induction s rule: rev_induct)
  case Nil
  then show ?case by simp
next
  case (snoc c s)
  have c: "of_char c < (256 :: nat)" by simp
  have "be_nat s * 256 + of_char c < Suc (be_nat s) * 256" using c by simp
  also have "\<dots> \<le> 256 ^ length s * 256" using snoc by (intro mult_le_mono1) simp
  finally show ?case by (simp add: be_nat_snoc)
qed

text \<open>The \<open>k\<close> low bytes of an integer, big-endian: \<open>to_be_bytes\<close> of a k-byte integer.\<close>

fun be_bytes :: "nat \<Rightarrow> nat \<Rightarrow> string" where
  "be_bytes 0 n = []"
| "be_bytes (Suc k) n = be_bytes k (n div 256) @ [char_of n]"

lemma length_be_bytes [simp]: "length (be_bytes k n) = k"
  by (induction k arbitrary: n) auto

lemma be_nat_be_bytes: "be_nat (be_bytes k n) = n mod 256 ^ k"
proof (induction k arbitrary: n)
  case 0
  then show ?case by simp
next
  case (Suc k)
  then show ?case by (simp add: be_nat_snoc mod_mult2_eq)
qed

lemma be_bytes_be_nat: "be_bytes (length s) (be_nat s) = s"
proof (induction s rule: rev_induct)
  case Nil
  then show ?case by simp
next
  case (snoc c s)
  have "char_of (be_nat s * 256 + of_char c) = char_of ((be_nat s * 256 + of_char c) mod 256)"
    by (simp only: char_of_mod_256)
  also have "\<dots> = c" by simp
  finally show ?case using snoc by (simp add: be_nat_snoc)
qed

lemma be_nat_zeros [simp]: "be_nat (replicate n (char_of (0 :: nat)) @ s) = be_nat s"
proof (induction n)
  case 0
  then show ?case by simp
next
  case (Suc n)
  then show ?case by (simp add: be_nat_def)
qed

section \<open>The outside and the world\<close>

datatype effect =
    EHttp string json
  | ESleep nat
  | EExec string "string list"
  | EWrite string string
  | ERemoveDir string
  | ESse string string
  | EKill string

record sys =
  sys_http :: "nat \<Rightarrow> string \<Rightarrow> json \<Rightarrow> string + json"
  sys_lat :: "nat \<Rightarrow> nat"

record world =
  clk :: nat
  tick :: nat
  effs :: "effect list"

text \<open>POST a JSON body and decode the JSON answer; the error is the transport's message.\<close>

definition do_http ::
  "'y sys_scheme \<Rightarrow> string \<Rightarrow> json \<Rightarrow> 'z world_scheme \<Rightarrow> (string + json) \<times> 'z world_scheme" where
  "do_http S url body w =
     (sys_http S (tick w) url body,
      w\<lparr>clk := clk w + Suc (sys_lat S (tick w)), tick := Suc (tick w),
        effs := effs w @ [EHttp url body]\<rparr>)"

definition do_sleep :: "'y sys_scheme \<Rightarrow> nat \<Rightarrow> 'z world_scheme \<Rightarrow> 'z world_scheme" where
  "do_sleep S secs w =
     w\<lparr>clk := clk w + secs * 1000 + sys_lat S (tick w), tick := Suc (tick w),
       effs := effs w @ [ESleep secs]\<rparr>"

lemma do_http_clk: "clk (snd (do_http S url body w)) = clk w + Suc (sys_lat S (tick w))"
  by (simp add: do_http_def)

lemma do_sleep_simps [simp]:
  "clk (do_sleep S n w) = clk w + n * 1000 + sys_lat S (tick w)"
  "tick (do_sleep S n w) = Suc (tick w)"
  "effs (do_sleep S n w) = effs w @ [ESleep n]"
  by (simp_all add: do_sleep_def)

lemma do_http_simps [simp]:
  "fst (do_http S url body w) = sys_http S (tick w) url body"
  "tick (snd (do_http S url body w)) = Suc (tick w)"
  "effs (snd (do_http S url body w)) = effs w @ [EHttp url body]"
  by (simp_all add: do_http_def)

text \<open>The HTTP requests of a run, in order.\<close>

fun http_reqs :: "effect list \<Rightarrow> (string \<times> json) list" where
  "http_reqs [] = []"
| "http_reqs (EHttp u b # es) = (u, b) # http_reqs es"
| "http_reqs (e # es) = http_reqs es"

lemma http_reqs_append [simp]: "http_reqs (es @ fs) = http_reqs es @ http_reqs fs"
  by (induction es rule: http_reqs.induct) auto

section \<open>An instance of the third-party functions\<close>

text \<open>
  Field elements as the naturals with the operations reduced modulo the prime: it satisfies the
  laws above, so a property under them is not empty. The hashes and the signature are arbitrary
  functions, which is all the properties assume of them.
\<close>

definition ref_hash :: "nat list \<Rightarrow> nat" where
  "ref_hash xs = foldl (\<lambda>a b. (a * 31 + b + 7) mod felt_prime) (length xs) xs"

fun hex_nat :: "nat \<Rightarrow> string \<Rightarrow> nat option" where
  "hex_nat acc [] = Some acc"
| "hex_nat acc (c # cs) = (case hex_val c of None \<Rightarrow> None | Some d \<Rightarrow> hex_nat (acc * 16 + d) cs)"

definition ref_from_hex :: "string \<Rightarrow> string + nat" where
  "ref_from_hex s = ok_or ''invalid felt'' (hex_nat 0 (trim_start_0x s))"

fun hex_enc :: "string \<Rightarrow> string" where
  "hex_enc [] = []"
| "hex_enc (c # cs) = hex_digit (of_char c div 16) # hex_digit (of_char c mod 16) # hex_enc cs"

fun hex_dec :: "string \<Rightarrow> string + string" where
  "hex_dec [] = Inr []"
| "hex_dec [c] = Inl ''odd length''"
| "hex_dec (a # b # cs) =
     (case (hex_val a, hex_val b) of
        (Some m, Some n) \<Rightarrow> map_ok (\<lambda>s. char_of (m * 16 + n) # s) (hex_dec cs)
      | _ \<Rightarrow> Inl ''invalid digit'')"

definition ref_ext :: "nat ext" where
  "ref_ext =
     \<lparr>x_from_hex = ref_from_hex, x_to_hex = fmt_hex,
      x_from_bytes_be_slice = (\<lambda>s. be_nat s mod felt_prime),
      x_from_bytes_be = (\<lambda>s. be_nat s mod felt_prime),
      x_to_bytes_be = (\<lambda>a. be_bytes 32 (a mod felt_prime)),
      x_from_u64 = unat, x_from_u128 = unat,
      x_add = (\<lambda>a b. (a + b) mod felt_prime),
      x_mul = (\<lambda>a b. (a * b) mod felt_prime),
      x_pow_felt = (\<lambda>a b. ((a mod felt_prime) ^ (b mod felt_prime)) mod felt_prime),
      x_zero = 0, x_one = 1, x_two = 2, x_three = 3,
      x_poseidon_hash_many = ref_hash,
      x_pedersen_hash = (\<lambda>a b. ref_hash [a, b]),
      x_rfc6979_generate_k = (\<lambda>m k. ref_hash [m, k, 1]),
      x_ecdsa_sign = (\<lambda>k m r.
         if k = 0 then Inl ''invalid key'' else Inr (ref_hash [k, r], ref_hash [k, m, r])),
      x_json_text = (\<lambda>v. case v of JStr s \<Rightarrow> s | _ \<Rightarrow> ''json''),
      x_json_pretty = (\<lambda>v. ''json''),
      x_json_parse = (\<lambda>s. if s = [] then Inl ''EOF'' else Inr (JStr s)),
      x_vec_string = (\<lambda>v. case as_array v of
          None \<Rightarrow> Inl ''expected a sequence''
        | Some vs \<Rightarrow> collectR (map (\<lambda>e. ok_or ''expected a string'' (as_str e)) vs)),
      x_vec_string_parse = (\<lambda>s. if s = [] then Inl ''EOF'' else Inr [s]),
      x_b64_encode = hex_enc, x_b64_decode = hex_dec\<rparr>"

definition ref_val :: "nat \<Rightarrow> nat" where
  "ref_val a = a mod felt_prime"

lemma ref_arith_laws: "felt_arith_laws ref_ext ref_val"
proof -
  have small: "unat (n :: u64) < felt_prime" "unat (m :: u128) < felt_prime" for n m
    using unat_u64_lt [of n] unat_u128_lt [of m] by (simp_all add: felt_prime_def)
  show ?thesis
    by (simp add: felt_arith_laws_def ref_ext_def ref_val_def small mod_simps)
      (simp add: felt_prime_def)
qed

lemma ref_bytes_laws: "felt_bytes_laws ref_ext ref_val"
proof -
  have "a mod felt_prime < 256 ^ 32" for a :: nat
  proof -
    have "a mod felt_prime < felt_prime" by (simp add: felt_prime_def)
    also have "\<dots> < 256 ^ 32" by (simp add: felt_prime_def)
    finally show ?thesis .
  qed
  then show ?thesis
    by (simp add: felt_bytes_laws_def ref_ext_def ref_val_def be_nat_be_bytes)
qed

lemma hex_nat_append: "hex_nat acc (xs @ ys) = Option.bind (hex_nat acc xs) (\<lambda>a. hex_nat a ys)"
  by (induction xs arbitrary: acc) (auto split: option.splits)

lemma hex_nat_hex_digits: "hex_nat 0 (hex_digits n) = Some n"
proof (induction n rule: hex_digits.induct)
  case (1 n)
  show ?case
  proof (cases "n < 16")
    case True
    then show ?thesis by (subst hex_digits.simps) (simp add: hex_val_hex_digit)
  next
    case False
    with 1 show ?thesis
      by (subst hex_digits.simps) (simp add: hex_nat_append hex_val_hex_digit)
  qed
qed

lemma ref_from_hex_ok: "list_all (\<lambda>c. hex_val c \<noteq> None) (trim_start_0x s) \<Longrightarrow> is_ok (ref_from_hex s)"
proof -
  have "list_all (\<lambda>c. hex_val c \<noteq> None) t \<Longrightarrow> \<exists>n. hex_nat acc t = Some n" for acc t
    by (induction t arbitrary: acc) auto
  then show "list_all (\<lambda>c. hex_val c \<noteq> None) (trim_start_0x s) \<Longrightarrow> is_ok (ref_from_hex s)"
    by (fastforce simp: ref_from_hex_def is_ok_iff)
qed

lemma ref_hex_laws: "hex_laws ref_ext"
proof -
  have "ref_from_hex ''0x0'' = Inr 0" by code_simp
  then show ?thesis
    by (simp add: hex_laws_def ref_ext_def)
      (simp add: ref_from_hex_def trim_start_0x_fmt_hex hex_nat_hex_digits)
qed

lemma hex_dec_enc: "hex_dec (hex_enc s) = Inr s"
proof (induction s)
  case Nil
  then show ?case by simp
next
  case (Cons c s)
  have "(of_char c :: nat) div 16 < 16" by (rule of_char_div_16)
  with Cons show ?case by (simp add: hex_val_hex_digit)
qed

lemma strip_one_None: "\<forall>p \<in> set ps. p = [] \<or> hd p \<noteq> c \<Longrightarrow> strip_one ps (c # s) = None"
proof (induction ps)
  case Nil
  then show ?case by simp
next
  case (Cons p ps)
  then show ?case by (cases p) auto
qed

lemma ws_hex: "d < 16 \<Longrightarrow> \<forall>p \<in> set ws_seqs. hd p \<noteq> hex_digit d \<and> last p \<noteq> hex_digit d \<and> p \<noteq> []"
proof -
  assume "d < 16"
  then have d: "of_char (hex_digit d) \<in> ({48..57} \<union> {97..102} :: nat set)"
    by (auto simp: hex_digit_def)
  have "of_char (hd p) \<notin> ({48..57} \<union> {97..102} :: nat set) \<and>
      of_char (last p) \<notin> ({48..57} \<union> {97..102} :: nat set) \<and> p \<noteq> []" if "p \<in> set ws_seqs" for p
    using that unfolding ws_seqs_def bytes_def by auto
  with d show ?thesis by (metis (no_types))
qed

lemma strip_all_None: "strip_one ps s = None \<Longrightarrow> strip_all ps s = s"
  by (subst strip_all.simps) simp

lemma trim_hex_digits:
  assumes "\<forall>c \<in> set s. \<exists>d<16. c = hex_digit d"
  shows "trim s = s"
proof (cases s)
  case Nil
  have "strip_one ps [] = None" for ps by (induction ps) auto
  then show ?thesis by (simp add: Nil trim_def strip_all_None)
next
  case (Cons c cs)
  have front: "strip_one ws_seqs s = None"
  proof -
    from assms Cons obtain d where "d < 16" "c = hex_digit d" by auto
    with ws_hex [of d] have "\<forall>p \<in> set ws_seqs. p = [] \<or> hd p \<noteq> c" by blast
    with Cons show ?thesis by (simp add: strip_one_None)
  qed
  obtain e es where rs: "rev s = e # es" using Cons by (cases "rev s") auto
  have "strip_one (map rev ws_seqs) (rev s) = None"
  proof -
    from rs have "e \<in> set s" by (metis list.set_intros(1) set_rev)
    with assms obtain d where "d < 16" "e = hex_digit d" by auto
    with ws_hex [of d] have "\<forall>p \<in> set (map rev ws_seqs). p = [] \<or> hd p \<noteq> e"
      by (auto simp: hd_rev)
    with rs show ?thesis by (simp add: strip_one_None)
  qed
  with front show ?thesis by (simp add: trim_def strip_all_None)
qed

lemma set_hex_enc: "\<forall>c \<in> set (hex_enc s). \<exists>d<16. c = hex_digit d"
proof (induction s)
  case Nil
  then show ?case by simp
next
  case (Cons c s)
  have "\<exists>d<16. hex_digit (of_char c div 16) = hex_digit d"
    using of_char_div_16 by blast
  moreover have "\<exists>d<16. hex_digit (of_char c mod 16) = hex_digit d"
    by (rule exI [of _ "of_char c mod 16"]) simp
  ultimately show ?case using Cons by simp
qed

lemma ref_base64_laws: "base64_laws ref_ext"
  by (simp add: base64_laws_def ref_ext_def hex_dec_enc trim_hex_digits set_hex_enc)

end
