(* ===== verification/Rpc_Client.thy ===== *)
theory Rpc_Client
  imports Externals
begin

text \<open>
  The Starknet JSON-RPC client, \<open>crates/snip36-core/src/rpc.rs\<close>. \<open>starknet_rpc\<close> is the struct
  (its HTTP client is the world's \<open>do_http\<close>), every method takes the environment, the
  third-party functions, the client and the world. The two polling loops are total functions:
  every iteration makes one HTTP exchange, which advances the clock, so the distance to the
  deadline is a measure. An exchange is taken to end: the code's client has no timeout of its own,
  so a node that never answers would hold a poll past the deadline. A deadline is a number of
  milliseconds without a bound; \<open>Instant + Duration\<close> panics for timeouts the callers (120 and 180
  seconds) do not use. The lemmas say which answers of the node decide a wait, how late it ends and
  after how many requests.
\<close>

datatype rpc_error =
    Http string
  | JsonRpc string
  | Unexpected string
  | TxTimeout string u64
  | TxRejected string
  | BlockTimeout u64 u64

fun rpc_error_display :: "rpc_error \<Rightarrow> string" where
  "rpc_error_display (Http e) = ''HTTP request failed: '' @ e"
| "rpc_error_display (JsonRpc e) = ''JSON-RPC error: '' @ e"
| "rpc_error_display (Unexpected e) = ''unexpected response: '' @ e"
| "rpc_error_display (TxTimeout h t) =
     ''transaction '' @ h @ '' not confirmed within '' @ fmt_dec (unat t) @ ''s''"
| "rpc_error_display (TxRejected e) = ''transaction rejected: '' @ e"
| "rpc_error_display (BlockTimeout n t) =
     ''no new block after '' @ fmt_dec (unat n) @ '' within '' @ fmt_dec (unat t) @ ''s''"

record starknet_rpc =
  client_url :: string

definition rpc_new :: "string \<Rightarrow> starknet_rpc" where
  "rpc_new u = \<lparr>client_url = u\<rparr>"

definition call_raw ::
  "'y sys_scheme \<Rightarrow> starknet_rpc \<Rightarrow> json \<Rightarrow> 'z world_scheme \<Rightarrow> (rpc_error + json) \<times> 'z world_scheme"
where
  "call_raw S rpc payload = map_errW Http (do_http S (client_url rpc) payload)"

definition rpc_payload :: "string \<Rightarrow> json \<Rightarrow> json" where
  "rpc_payload meth params =
     JObj [(''jsonrpc'', JStr ''2.0''), (''method'', JStr meth), (''params'', params), (''id'', JInt 1)]"

definition rpc_result :: "('f, 'x) ext_scheme \<Rightarrow> json \<Rightarrow> rpc_error + json" where
  "rpc_result X resp =
     (case jget ''error'' resp of
        Some e \<Rightarrow> Inl (JsonRpc (x_json_text X e))
      | None \<Rightarrow> ok_or (Unexpected (x_json_text X resp)) (jget ''result'' resp))"

definition call ::
  "'y sys_scheme \<Rightarrow> ('f, 'x) ext_scheme \<Rightarrow> starknet_rpc \<Rightarrow> string \<Rightarrow> json \<Rightarrow> 'z world_scheme
   \<Rightarrow> (rpc_error + json) \<times> 'z world_scheme"
where
  "call S X rpc meth params =
     bindW (call_raw S rpc (rpc_payload meth params)) (\<lambda>resp. liftW (rpc_result X resp))"

definition rpc_block_number where
  "rpc_block_number S X rpc =
     bindW (call S X rpc ''starknet_blockNumber'' (JObj []))
       (\<lambda>r. liftW (ok_or (Unexpected (''expected u64 block number: '' @ x_json_text X r)) (as_u64 r)))"

definition rpc_chain_id where
  "rpc_chain_id S X rpc =
     bindW (call S X rpc ''starknet_chainId'' (JObj []))
       (\<lambda>r. liftW (ok_or (Unexpected (''expected string chain id: '' @ x_json_text X r)) (as_str r)))"

definition parse_nonce :: "('f, 'x) ext_scheme \<Rightarrow> json \<Rightarrow> rpc_error + u64" where
  "parse_nonce X r =
     bindR (ok_or (Unexpected (''expected hex nonce: '' @ x_json_text X r)) (as_str r))
       (\<lambda>hex_str. map_err (\<lambda>e. Unexpected (''invalid nonce hex '' @ [CHR 0x27] @ hex_str @ [CHR 0x27] @ '': '' @ e))
          (u64_from_str_radix16 (trim_start_0x hex_str)))"

definition get_nonce_at_block where
  "get_nonce_at_block S X rpc address block_id =
     bindW (call S X rpc ''starknet_getNonce''
         (JObj [(''block_id'', block_id), (''contract_address'', JStr address)]))
       (\<lambda>r. liftW (parse_nonce X r))"

definition get_nonce where
  "get_nonce S X rpc address w =
     (case get_nonce_at_block S X rpc address (JStr ''pre_confirmed'') w of
        (Inr n, w') \<Rightarrow> (Inr n, w')
      | (Inl _, w') \<Rightarrow> get_nonce_at_block S X rpc address (JStr ''latest'') w')"

definition starknet_call where
  "starknet_call S X rpc contract_address selector calldata =
     bindW (call S X rpc ''starknet_call''
         (JObj [(''request'', JObj [(''contract_address'', JStr contract_address),
                                    (''entry_point_selector'', JStr selector),
                                    (''calldata'', jstrs calldata)]),
                (''block_id'', JStr ''latest'')]))
       (\<lambda>r. liftW (map_ok (List.map_filter as_str)
          (ok_or (Unexpected (''expected array: '' @ x_json_text X r)) (as_array r))))"

definition get_transaction where
  "get_transaction S X rpc tx_hash =
     call S X rpc ''starknet_getTransactionByHash'' (JObj [(''transaction_hash'', JStr tx_hash)])"

definition get_receipt where
  "get_receipt S X rpc tx_hash =
     call S X rpc ''starknet_getTransactionReceipt'' (JObj [(''transaction_hash'', JStr tx_hash)])"

definition get_class where
  "get_class S X rpc class_hash =
     call S X rpc ''starknet_getClass''
       (JObj [(''block_id'', JStr ''latest''), (''class_hash'', JStr class_hash)])"

definition add_invoke_transaction where
  "add_invoke_transaction S X rpc invoke_tx =
     bindW (call S X rpc ''starknet_addInvokeTransaction'' (JObj [(''invoke_transaction'', invoke_tx)]))
       (\<lambda>r. liftW (ok_or (Unexpected (''no transaction_hash in: '' @ x_json_text X r))
                       (jget_str ''transaction_hash'' r)))"

section \<open>Clock and requests of one call\<close>

lemma call_world:
  "snd (call S X rpc meth params w) = snd (do_http S (client_url rpc) (rpc_payload meth params) w)"
  by (simp add: call_def call_raw_def)

lemma get_receipt_world:
  "snd (get_receipt S X rpc h w) =
   snd (do_http S (client_url rpc) (rpc_payload ''starknet_getTransactionReceipt''
          (JObj [(''transaction_hash'', JStr h)])) w)"
  by (simp add: get_receipt_def call_world)

lemma rpc_block_number_world:
  "snd (rpc_block_number S X rpc w) =
   snd (do_http S (client_url rpc) (rpc_payload ''starknet_blockNumber'' (JObj [])) w)"
  by (simp only: rpc_block_number_def bindW_liftW_snd call_world)

section \<open>Polling\<close>

text \<open>What one receipt decides: rejected, confirmed, or keep polling.\<close>

definition receipt_verdict :: "('f, 'x) ext_scheme \<Rightarrow> json \<Rightarrow> (rpc_error + json) option" where
  "receipt_verdict X receipt =
     (let status = (case jget_str ''finality_status'' receipt of Some s \<Rightarrow> s | None \<Rightarrow> []);
          execution_status = jget_str ''execution_status'' receipt;
          has_block = (jget ''block_number'' receipt \<noteq> None)
      in if status = ''REJECTED'' \<or> execution_status = Some ''REVERTED''
         then Some (Inl (TxRejected (x_json_text X receipt)))
         else if (status = ''ACCEPTED_ON_L2'' \<or> status = ''ACCEPTED_ON_L1'') \<and> has_block
              \<and> (execution_status = None \<or> execution_status = Some ''SUCCEEDED'')
         then Some (Inr receipt)
         else None)"

function wait_for_tx_loop ::
  "'y sys_scheme \<Rightarrow> ('f, 'x) ext_scheme \<Rightarrow> starknet_rpc \<Rightarrow> string \<Rightarrow> u64 \<Rightarrow> u64 \<Rightarrow> nat \<Rightarrow> 'z world_scheme
   \<Rightarrow> (rpc_error + json) \<times> 'z world_scheme"
where
  "wait_for_tx_loop S X rpc tx_hash timeout poll deadline w =
     (if deadline \<le> clk w then (Inl (TxTimeout tx_hash timeout), w)
      else
        let (r, w1) = get_receipt S X rpc tx_hash w
        in case Option.bind (ok_opt r) (receipt_verdict X) of
             Some v \<Rightarrow> (v, w1)
           | None \<Rightarrow> wait_for_tx_loop S X rpc tx_hash timeout poll deadline (do_sleep S (unat poll) w1))"
  by pat_completeness auto
termination
proof (relation "measure (\<lambda>(S, X, rpc, h, t, p, deadline, w). deadline - clk w)", goal_cases)
  case 1
  then show ?case by simp
next
  case (2 S X rpc tx_hash timeout poll deadline w x r w1)
  then have "w1 = snd (get_receipt S X rpc tx_hash w)" by (metis snd_conv)
  then have "clk w < clk w1" by (simp add: get_receipt_world do_http_clk)
  with 2 show ?case by simp
qed

declare wait_for_tx_loop.simps [simp del]

definition wait_for_tx where
  "wait_for_tx S X rpc tx_hash timeout_secs poll_interval_secs w =
     wait_for_tx_loop S X rpc tx_hash timeout_secs poll_interval_secs
       (clk w + unat timeout_secs * 1000) w"

function wait_for_block_loop ::
  "'y sys_scheme \<Rightarrow> ('f, 'x) ext_scheme \<Rightarrow> starknet_rpc \<Rightarrow> u64 \<Rightarrow> u64 \<Rightarrow> u64 \<Rightarrow> nat \<Rightarrow> 'z world_scheme
   \<Rightarrow> (rpc_error + u64) \<times> 'z world_scheme"
where
  "wait_for_block_loop S X rpc bn timeout poll deadline w =
     (if deadline \<le> clk w then (Inl (BlockTimeout bn timeout), w)
      else
        let (r, w1) = rpc_block_number S X rpc w
        in case r of
             Inr current \<Rightarrow>
               if bn < current then (Inr current, w1)
               else wait_for_block_loop S X rpc bn timeout poll deadline (do_sleep S (unat poll) w1)
           | Inl _ \<Rightarrow> wait_for_block_loop S X rpc bn timeout poll deadline (do_sleep S (unat poll) w1))"
  by pat_completeness auto
termination
proof (relation "measure (\<lambda>(S, X, rpc, b, t, p, deadline, w). deadline - clk w)", goal_cases)
  case 1
  then show ?case by simp
next
  case (2 S X rpc bn timeout poll deadline w x r w1 current)
  then have "w1 = snd (rpc_block_number S X rpc w)" by (metis snd_conv)
  then have "clk w < clk w1" by (simp add: rpc_block_number_world do_http_clk)
  with 2 show ?case by simp
next
  case (3 S X rpc bn timeout poll deadline w x r w1 e)
  then have "w1 = snd (rpc_block_number S X rpc w)" by (metis snd_conv)
  then have "clk w < clk w1" by (simp add: rpc_block_number_world do_http_clk)
  with 3 show ?case by simp
qed

declare wait_for_block_loop.simps [simp del]

definition wait_for_block_after where
  "wait_for_block_after S X rpc bn timeout_secs poll_interval_secs w =
     wait_for_block_loop S X rpc bn timeout_secs poll_interval_secs
       (clk w + unat timeout_secs * 1000) w"

definition receipt_block_number :: "json \<Rightarrow> u64 option" where
  "receipt_block_number receipt =
     Option.bind (jget ''block_number'' receipt)
       (\<lambda>bn. case as_u64 bn of
          Some n \<Rightarrow> Some n
        | None \<Rightarrow> Option.bind (as_str bn) (\<lambda>s. ok_opt (u64_from_str_radix16 (trim_start_0x s))))"

section \<open>Answers of the node\<close>

text \<open>The result of a call that the node answers in its exchange \<open>n\<close>.\<close>

definition answer_at :: "'y sys_scheme \<Rightarrow> ('f, 'x) ext_scheme \<Rightarrow> starknet_rpc \<Rightarrow> string \<Rightarrow> json \<Rightarrow> nat \<Rightarrow> json option" where
  "answer_at S X rpc meth params n =
     ok_opt (bindR (map_err Http (sys_http S n (client_url rpc) (rpc_payload meth params))) (rpc_result X))"

lemma call_answer: "ok_opt (fst (call S X rpc meth params w)) = answer_at S X rpc meth params (tick w)"
  by (simp add: call_def call_raw_def answer_at_def)

text \<open>The receipt of a transaction in exchange \<open>n\<close>, and in one from \<open>a\<close> on and before \<open>b\<close>.\<close>

definition receipt_at :: "'y sys_scheme \<Rightarrow> ('f, 'x) ext_scheme \<Rightarrow> starknet_rpc \<Rightarrow> string \<Rightarrow> nat \<Rightarrow> json option" where
  "receipt_at S X rpc h n =
     answer_at S X rpc ''starknet_getTransactionReceipt'' (JObj [(''transaction_hash'', JStr h)]) n"

definition receipt_answered ::
  "'y sys_scheme \<Rightarrow> ('f, 'x) ext_scheme \<Rightarrow> starknet_rpc \<Rightarrow> string \<Rightarrow> nat \<Rightarrow> nat \<Rightarrow> json \<Rightarrow> bool"
where
  "receipt_answered S X rpc h a b r \<longleftrightarrow> (\<exists>n. a \<le> n \<and> n < b \<and> receipt_at S X rpc h n = Some r)"

lemma get_receipt_answer: "ok_opt (fst (get_receipt S X rpc h w)) = receipt_at S X rpc h (tick w)"
  by (simp add: get_receipt_def receipt_at_def call_answer)

lemma receipt_answered_wider:
  "receipt_answered S X rpc h a b r \<Longrightarrow> a' \<le> a \<Longrightarrow> b \<le> b' \<Longrightarrow> receipt_answered S X rpc h a' b' r"
  unfolding receipt_answered_def by (meson le_trans less_le_trans)

section \<open>What the polling loops guarantee\<close>

definition confirmed_receipt :: "json \<Rightarrow> bool" where
  "confirmed_receipt r \<longleftrightarrow>
     jget_str ''finality_status'' r \<in> {Some ''ACCEPTED_ON_L2'', Some ''ACCEPTED_ON_L1''} \<and>
     jget ''block_number'' r \<noteq> None \<and>
     jget_str ''execution_status'' r \<in> {None, Some ''SUCCEEDED''}"

definition rejected_receipt :: "json \<Rightarrow> bool" where
  "rejected_receipt r \<longleftrightarrow>
     jget_str ''finality_status'' r = Some ''REJECTED'' \<or> jget_str ''execution_status'' r = Some ''REVERTED''"

lemma receipt_verdict_ok: "receipt_verdict X r = Some (Inr x) \<longleftrightarrow> x = r \<and> confirmed_receipt r"
  by (cases "jget_str ''finality_status'' r")
    (auto simp: receipt_verdict_def confirmed_receipt_def Let_def split: if_splits)

lemma receipt_verdict_err:
  "receipt_verdict X r = Some (Inl e) \<longleftrightarrow> e = TxRejected (x_json_text X r) \<and> rejected_receipt r"
  by (cases "jget_str ''finality_status'' r")
    (auto simp: receipt_verdict_def rejected_receipt_def Let_def split: if_splits)

text \<open>An exchange that decides nothing: no receipt, or one neither confirmed nor rejected.\<close>

definition undecided :: "'y sys_scheme \<Rightarrow> ('f, 'x) ext_scheme \<Rightarrow> starknet_rpc \<Rightarrow> string \<Rightarrow> nat \<Rightarrow> bool" where
  "undecided S X rpc h n \<longleftrightarrow>
     (case receipt_at S X rpc h n of
        None \<Rightarrow> True
      | Some r \<Rightarrow> \<not> confirmed_receipt r \<and> \<not> rejected_receipt r)"

lemma undecided_iff: "undecided S X rpc h n \<longleftrightarrow> Option.bind (receipt_at S X rpc h n) (receipt_verdict X) = None"
proof (cases "receipt_at S X rpc h n")
  case (Some r)
  have "(\<not> confirmed_receipt r \<and> \<not> rejected_receipt r) = (receipt_verdict X r = None)"
    using receipt_verdict_ok [of X r] receipt_verdict_err [of X r]
    by (cases "receipt_verdict X r") (auto, metis sum.exhaust)
  then show ?thesis by (simp add: undecided_def Some)
qed (simp add: undecided_def)

text \<open>The polls of a wait are every second exchange, a sleep is between them: the first that decides ends it.\<close>

lemma wait_for_tx_loop_sound:
  "wait_for_tx_loop S X rpc h t p d w = (v, w') \<Longrightarrow>
     \<exists>n. list_all (\<lambda>k. undecided S X rpc h (tick w + 2 * k)) [0..<n] \<and>
       (case v of
          Inr r \<Rightarrow> receipt_at S X rpc h (tick w + 2 * n) = Some r \<and> confirmed_receipt r \<and> tick w' = Suc (tick w + 2 * n)
        | Inl e \<Rightarrow>
            (\<exists>r. receipt_at S X rpc h (tick w + 2 * n) = Some r \<and> rejected_receipt r \<and> e = TxRejected (x_json_text X r)) \<or>
            e = TxTimeout h t \<and> d \<le> clk w')"
proof (induction S X rpc h t p d w rule: wait_for_tx_loop.induct)
  case (1 S X rpc h t p d w)
  note unfold = wait_for_tx_loop.simps [of S X rpc h t p d w]
  obtain r w1 where g: "get_receipt S X rpc h w = (r, w1)" by fastforce
  have at: "ok_opt r = receipt_at S X rpc h (tick w)" using get_receipt_answer [of S X rpc h w] by (simp add: g)
  have w1: "tick w1 = Suc (tick w)" using get_receipt_world [of S X rpc h w] by (simp add: g)
  show ?case
  proof (cases "d \<le> clk w")
    case True
    then show ?thesis using 1(2) by (intro exI [of _ 0]) (auto simp: unfold)
  next
    case False
    show ?thesis
    proof (cases "Option.bind (ok_opt r) (receipt_verdict X)")
      case None
      then have u: "undecided S X rpc h (tick w)" by (simp add: undecided_iff at)
      have "wait_for_tx_loop S X rpc h t p d (do_sleep S (unat p) w1) = (v, w')"
        using 1(2) False g None by (simp add: unfold)
      have shift: "tick (do_sleep S (unat p) w1) + 2 * k = tick w + 2 * Suc k" for k by (simp add: w1)
      from 1(1) [OF False g [symmetric] refl None \<open>wait_for_tx_loop S X rpc h t p d (do_sleep S (unat p) w1) = (v, w')\<close>]
      obtain n where
        n: "list_all (\<lambda>k. undecided S X rpc h (tick w + 2 * Suc k)) [0..<n]" and
        v: "case v of
          Inr r \<Rightarrow> receipt_at S X rpc h (tick w + 2 * Suc n) = Some r \<and> confirmed_receipt r \<and> tick w' = Suc (tick w + 2 * Suc n)
        | Inl e \<Rightarrow>
            (\<exists>r. receipt_at S X rpc h (tick w + 2 * Suc n) = Some r \<and> rejected_receipt r \<and> e = TxRejected (x_json_text X r)) \<or>
            e = TxTimeout h t \<and> d \<le> clk w'"
        unfolding shift by blast
      from n have "list_all (\<lambda>k. undecided S X rpc h (tick w + 2 * k)) (map Suc [0..<n])" by (simp add: list.pred_map comp_def)
      with u have "list_all (\<lambda>k. undecided S X rpc h (tick w + 2 * k)) [0..<Suc n]"
        by (simp add: map_Suc_upt upt_conv_Cons del: upt_Suc)
      with v show ?thesis by blast
    next
      case (Some u)
      with 1(2) False g have v: "v = u" "w' = w1" by (auto simp: unfold)
      from Some obtain x where "receipt_at S X rpc h (tick w) = Some x" "receipt_verdict X x = Some u"
        by (auto simp: bind_eq_Some_conv at)
      with v w1 show ?thesis
        by (intro exI [of _ 0]) (cases u; auto simp: receipt_verdict_ok receipt_verdict_err)
    qed
  qed
qed

lemma wait_for_tx_receipt:
  assumes "wait_for_tx S X rpc h t p w = (Inr r, w')"
  shows "confirmed_receipt r" and "receipt_answered S X rpc h (tick w) (tick w') r"
proof -
  from wait_for_tx_loop_sound [OF assms [unfolded wait_for_tx_def]] obtain n where
    n: "receipt_at S X rpc h (tick w + 2 * n) = Some r" "confirmed_receipt r" "tick w' = Suc (tick w + 2 * n)" by auto
  show "confirmed_receipt r" by (rule n(2))
  show "receipt_answered S X rpc h (tick w) (tick w') r"
    unfolding receipt_answered_def using n(1,3) by (intro exI [of _ "tick w + 2 * n"]) simp
qed

lemma wait_for_tx_loop_clock:
  assumes lat: "\<And>k. sys_lat S k \<le> L"
  shows "wait_for_tx_loop S X rpc h t p d w = (v, w') \<Longrightarrow> clk w \<le> d + unat p * 1000 + L + Suc L \<Longrightarrow>
     clk w' \<le> d + unat p * 1000 + L + Suc L"
  using lat
proof (induction S X rpc h t p d w rule: wait_for_tx_loop.induct)
  case (1 S X rpc h t p d w)
  obtain r w1 where g: "get_receipt S X rpc h w = (r, w1)" by fastforce
  then have c1: "clk w1 = clk w + Suc (sys_lat S (tick w))"
    by (metis do_http_clk get_receipt_world snd_conv)
  show ?case
  proof (cases "d \<le> clk w")
    case True
    with 1(2,3) show ?thesis by (auto simp: wait_for_tx_loop.simps [of S X rpc h t p d w])
  next
    case False
    have small: "sys_lat S (tick w) \<le> L" "sys_lat S (tick w1) \<le> L" by (rule 1(4))+
    show ?thesis
    proof (cases "Option.bind (ok_opt r) (receipt_verdict X)")
      case None
      have "clk (do_sleep S (unat p) w1) \<le> d + unat p * 1000 + L + Suc L"
        using c1 small False by simp
      moreover have "wait_for_tx_loop S X rpc h t p d (do_sleep S (unat p) w1) = (v, w')"
        using None False g 1(2) by (simp add: wait_for_tx_loop.simps [of S X rpc h t p d w])
      ultimately show ?thesis using 1(1) [OF False g [symmetric] refl None] 1(4) by blast
    next
      case (Some u)
      with 1(2) False g have "w' = w1"
        by (auto simp: wait_for_tx_loop.simps [of S X rpc h t p d w])
      with c1 small False show ?thesis by simp
    qed
  qed
qed

lemma poll_count_step:
  fixes g :: nat
  assumes "0 < g"
  shows "Suc ((g - Suc P + P) div Suc P) \<le> (g + P) div Suc P"
proof (cases "g \<le> Suc P")
  case True
  with assms show ?thesis by (simp add: div_greater_zero_iff Suc_leI)
next
  case False
  then have "g + P = (g - Suc P + P) + Suc P" by simp
  then have "(g + P) div Suc P = Suc ((g - Suc P + P) div Suc P)" by (metis div_add_self2 Suc_eq_plus1 nat.simps(3))
  then show ?thesis by simp
qed

lemma wait_for_tx_loop_requests:
  "wait_for_tx_loop S X rpc h t p d w = (v, w') \<Longrightarrow>
     length (http_reqs (effs w'))
     \<le> length (http_reqs (effs w)) + (d - clk w + unat p * 1000) div Suc (unat p * 1000)"
proof (induction S X rpc h t p d w rule: wait_for_tx_loop.induct)
  case (1 S X rpc h t p d w)
  define P where "P = unat p * 1000"
  obtain r w1 where g: "get_receipt S X rpc h w = (r, w1)" by fastforce
  then have w1: "w1 = snd (get_receipt S X rpc h w)" by simp
  have c1: "clk w1 = clk w + Suc (sys_lat S (tick w))"
    and r1: "length (http_reqs (effs w1)) = Suc (length (http_reqs (effs w)))"
    by (simp_all add: w1 get_receipt_world do_http_clk)
  show ?case
  proof (cases "d \<le> clk w")
    case True
    with 1(2) show ?thesis by (auto simp: wait_for_tx_loop.simps [of S X rpc h t p d w])
  next
    case False
    then have step: "Suc ((d - clk w - Suc P + P) div Suc P) \<le> (d - clk w + P) div Suc P"
      by (intro poll_count_step) simp
    show ?thesis
    proof (cases "Option.bind (ok_opt r) (receipt_verdict X)")
      case None
      let ?w2 = "do_sleep S (unat p) w1"
      have loop: "wait_for_tx_loop S X rpc h t p d ?w2 = (v, w')"
        using None False g 1(2) by (simp add: wait_for_tx_loop.simps [of S X rpc h t p d w])
      have "d - clk ?w2 \<le> d - clk w - Suc P" using c1 by (simp add: P_def)
      then have "(d - clk ?w2 + P) div Suc P \<le> (d - clk w - Suc P + P) div Suc P"
        by (intro div_le_mono) simp
      moreover have "length (http_reqs (effs w'))
          \<le> length (http_reqs (effs ?w2)) + (d - clk ?w2 + P) div Suc P"
        using 1(1) [OF False g [symmetric] refl None loop] by (simp add: P_def)
      moreover have "length (http_reqs (effs ?w2)) = Suc (length (http_reqs (effs w)))"
        using r1 by simp
      ultimately show ?thesis using step unfolding P_def [symmetric] by linarith
    next
      case (Some u)
      with 1(2) False g have "w' = w1"
        by (auto simp: wait_for_tx_loop.simps [of S X rpc h t p d w])
      moreover have "1 \<le> (d - clk w + P) div Suc P" using step by linarith
      ultimately show ?thesis unfolding P_def [symmetric] using r1 by simp
    qed
  qed
qed

section \<open>Properties\<close>

text \<open>C28. wait_for_tx asks for the receipt of the hash until it is decided: some number of polls were answered with no decision, and either the next one was answered with the accepted, included and not reverted receipt that is returned, or with a rejected or reverted receipt, which is the text of the rejection reported, or the error is a timeout and the deadline has passed. Every exchange is taken to end; the client of the source has no timeout of its own.\<close>
theorem wait_for_tx_outcome:
  "\<exists>n. list_all (\<lambda>k. undecided S X rpc h (tick w + 2 * k)) [0..<n] \<and>
     (case wait_for_tx S X rpc h t p w of
        (Inr r, w') \<Rightarrow> receipt_at S X rpc h (tick w + 2 * n) = Some r \<and> confirmed_receipt r
      | (Inl e, w') \<Rightarrow>
          (\<exists>r. receipt_at S X rpc h (tick w + 2 * n) = Some r \<and> rejected_receipt r \<and> e = TxRejected (x_json_text X r)) \<or>
          e = TxTimeout h t \<and> clk w + unat t * 1000 \<le> clk w')"
proof -
  obtain v w' where r: "wait_for_tx_loop S X rpc h t p (clk w + unat t * 1000) w = (v, w')" by fastforce
  from wait_for_tx_loop_sound [OF r] obtain n where n: "list_all (\<lambda>k. undecided S X rpc h (tick w + 2 * k)) [0..<n]"
    "case v of
          Inr r \<Rightarrow> receipt_at S X rpc h (tick w + 2 * n) = Some r \<and> confirmed_receipt r \<and> tick w' = Suc (tick w + 2 * n)
        | Inl e \<Rightarrow>
            (\<exists>r. receipt_at S X rpc h (tick w + 2 * n) = Some r \<and> rejected_receipt r \<and> e = TxRejected (x_json_text X r)) \<or>
            e = TxTimeout h t \<and> clk w + unat t * 1000 \<le> clk w'" by blast
  then show ?thesis by (intro exI [of _ n]) (cases v; auto simp: wait_for_tx_def r)
qed

text \<open>C29. With latencies of at most L, wait_for_tx returns at most one poll interval and two exchanges after its deadline, and makes no more requests than the timeout divided by the poll interval, rounded up.\<close>
theorem wait_for_tx_bounds:
  assumes "\<And>k. sys_lat S k \<le> L"
  shows "clk (snd (wait_for_tx S X rpc h t p w)) \<le> clk w + unat t * 1000 + unat p * 1000 + L + Suc L \<and>
         length (http_reqs (effs (snd (wait_for_tx S X rpc h t p w))))
         \<le> length (http_reqs (effs w)) + (unat t * 1000 + unat p * 1000) div Suc (unat p * 1000)"
proof -
  obtain v w' where r: "wait_for_tx_loop S X rpc h t p (clk w + unat t * 1000) w = (v, w')" by fastforce
  have "clk (snd (wait_for_tx S X rpc h t p w)) \<le> clk w + unat t * 1000 + unat p * 1000 + L + Suc L"
    using wait_for_tx_loop_clock [OF assms r] r by (simp add: wait_for_tx_def)
  moreover have "length (http_reqs (effs (snd (wait_for_tx S X rpc h t p w))))
        \<le> length (http_reqs (effs w)) + (unat t * 1000 + unat p * 1000) div Suc (unat p * 1000)"
    using wait_for_tx_loop_requests [OF r] r by (simp add: wait_for_tx_def)
  ultimately show ?thesis by simp
qed

definition silent_sys :: sys where
  "silent_sys = \<lparr>sys_http = (\<lambda>k u b. Inl ''connection refused''), sys_lat = (\<lambda>k. 3)\<rparr>"

theorem wait_for_tx_bounds_witness:
  "length (http_reqs (effs (snd (wait_for_tx silent_sys ref_ext (rpc_new ''http://node'') ''0x1'' 120 2
     \<lparr>clk = 0, tick = 0, effs = []\<rparr>)))) \<le> 60"
proof -
  have "sys_lat silent_sys k \<le> 3" for k by (simp add: silent_sys_def)
  from wait_for_tx_bounds [OF this, of ref_ext "rpc_new ''http://node''" "''0x1''" 120 2
      "\<lparr>clk = 0, tick = 0, effs = []\<rparr>"]
  show ?thesis by simp
qed

theorem receipt_block_number_formats:
  "receipt_block_number (JObj [(''block_number'', ju64 n)]) = Some n \<and>
   receipt_block_number (JObj [(''block_number'', JStr (fmt_hex (unat n)))]) = Some n"
  by (simp add: receipt_block_number_def parse_fmt_hex)

end
