(* ===== verification/Chain_Types.thy ===== *)
theory Chain_Types
  imports Externals
begin

text \<open>
  The data of \<open>crates/snip36-core/src/types.rs\<close>: resource bounds and their three presets, the
  parameters of a submission, the session of the playground and the well-known constants; and the
  portable artifact and bundle of \<open>crates/snip36-pure/src/types.rs\<close>, whose other types are in
  theory \<open>Pure_Signing\<close>.
\<close>

section \<open>Resource bounds\<close>

record resource_bound =
  max_amount :: u64
  max_price_per_unit :: u128

record resource_bounds =
  l1_gas :: resource_bound
  l2_gas :: resource_bound
  l1_data_gas :: resource_bound

definition SEPOLIA_GAS_PRICE_CEIL :: u128 where
  "SEPOLIA_GAS_PRICE_CEIL = 0x38d7ea4c68000"

definition default_bounds :: resource_bounds where
  "default_bounds =
     \<lparr>l1_gas = \<lparr>max_amount = 0x10000, max_price_per_unit = SEPOLIA_GAS_PRICE_CEIL\<rparr>,
      l2_gas = \<lparr>max_amount = 0x7000000, max_price_per_unit = 0x1dcd65000\<rparr>,
      l1_data_gas = \<lparr>max_amount = 0x1b0, max_price_per_unit = SEPOLIA_GAS_PRICE_CEIL\<rparr>\<rparr>"

definition zero_fee :: resource_bounds where
  "zero_fee =
     \<lparr>l1_gas = \<lparr>max_amount = 0, max_price_per_unit = 0\<rparr>,
      l2_gas = \<lparr>max_amount = 0x7000000, max_price_per_unit = 0\<rparr>,
      l1_data_gas = \<lparr>max_amount = 0x1b0, max_price_per_unit = 0\<rparr>\<rparr>"

definition playground :: resource_bounds where
  "playground =
     \<lparr>l1_gas = \<lparr>max_amount = 0x0, max_price_per_unit = SEPOLIA_GAS_PRICE_CEIL\<rparr>,
      l2_gas = \<lparr>max_amount = 0x2000000, max_price_per_unit = 0x2cb417800\<rparr>,
      l1_data_gas = \<lparr>max_amount = 0x1b0, max_price_per_unit = SEPOLIA_GAS_PRICE_CEIL\<rparr>\<rparr>"

definition bound_json :: "resource_bound \<Rightarrow> json" where
  "bound_json b =
     JObj [(''max_amount'', JStr (fmt_hex (unat (max_amount b)))),
           (''max_price_per_unit'', JStr (fmt_hex (unat (max_price_per_unit b))))]"

definition to_rpc_json :: "resource_bounds \<Rightarrow> json" where
  "to_rpc_json b =
     JObj [(''l1_gas'', bound_json (l1_gas b)),
           (''l2_gas'', bound_json (l2_gas b)),
           (''l1_data_gas'', bound_json (l1_data_gas b))]"

text \<open>The largest fee the bounds allow: the sum over the resources of amount times price.\<close>

definition max_fee :: "resource_bounds \<Rightarrow> nat" where
  "max_fee b = unat (max_amount (l1_gas b)) * unat (max_price_per_unit (l1_gas b))
             + unat (max_amount (l2_gas b)) * unat (max_price_per_unit (l2_gas b))
             + unat (max_amount (l1_data_gas b)) * unat (max_price_per_unit (l1_data_gas b))"

lemma resource_bound_eqI:
  "max_amount (a :: resource_bound) = max_amount b \<Longrightarrow> max_price_per_unit a = max_price_per_unit b \<Longrightarrow> a = b"
  by simp

section \<open>Submission parameters, proof output, session\<close>

record proof_output =
  po_proof_base64 :: string
  po_proof_facts :: "string list"

record 'f submit_params =
  sp_sender_address :: 'f
  sp_private_key :: 'f
  sp_calldata :: "'f list"
  sp_proof_base64 :: string
  sp_proof_facts :: "'f list"
  sp_nonce :: 'f
  sp_chain_id :: 'f
  sp_resource_bounds :: resource_bounds

record session =
  ses_account_address :: "string option"
  ses_account_deployed :: bool
  ses_contract_address :: "string option"
  ses_class_hash :: "string option"
  ses_last_invoke_tx :: "string option"
  ses_invoke_block :: "u64 option"
  ses_prove_block :: "u64 option"
  ses_proof_file :: "string option"
  ses_deploy_block :: "u64 option"
  ses_last_reference_block :: "u64 option"

definition default_session :: session where
  "default_session =
     \<lparr>ses_account_address = None, ses_account_deployed = False, ses_contract_address = None, ses_class_hash = None,
      ses_last_invoke_tx = None, ses_invoke_block = None, ses_prove_block = None, ses_proof_file = None,
      ses_deploy_block = None, ses_last_reference_block = None\<rparr>"

definition STRK_TOKEN :: string where
  "STRK_TOKEN = ''0x04718f5a0fc34cc1af16a1cdee98ffb20c31f5cd61d6ab07201858f4287c938d''"

definition OZ_ACCOUNT_CLASS_HASH :: string where
  "OZ_ACCOUNT_CLASS_HASH = ''0x05b4b537eaa2399e3aa99c4e2e0208ebd6c71bc1467938cd52c798c601e43564''"

definition INCREMENT_SELECTOR :: string where
  "INCREMENT_SELECTOR = ''0x7a44dde9fea32737a5cf3f9683b3235138654aa2d189f6fe44af37a61dc60d''"

definition GET_COUNTER_SELECTOR :: string where
  "GET_COUNTER_SELECTOR = ''0x3370263ab53343580e77063a719a5865004caff7f367ec136a6cdd34b6786ca''"

definition BALANCE_OF_SELECTOR :: string where
  "BALANCE_OF_SELECTOR = ''0x35a73cd311a05d46deda634c5ee045db92f811b4e74bca4437fcb5302b7af33''"

definition SEND_MESSAGE_SELECTOR :: string where
  "SEND_MESSAGE_SELECTOR = ''0x12ead94ae9d3f9d2bdb6b847cf255f1f398193a1f88884a0ae8e18f24a037b6''"

definition PLAY_SELECTOR :: string where
  "PLAY_SELECTOR = ''0x21c4a0db2b08b026c4e31bf76d5dd9b92aa54c0978df57474355786073775e8''"

section \<open>Artifacts and bundles\<close>

record snip36_proof_artifact =
  art_version :: u32
  art_block_number :: u64
  art_rpc_url :: string
  art_chain_id :: string
  art_strk_fee_token_address :: string
  art_tx_hash :: "string option"
  art_transaction :: json
  art_execution_payload :: "string option"
  art_proof_facts_preimage :: "string list option"
  art_raw_messages :: "json option"

record snip36_proof_bundle =
  bun_artifact :: snip36_proof_artifact
  bun_proof_base64 :: "string option"
  bun_proof_facts :: "string list"
  bun_raw_messages :: "json option"
  bun_proof_size :: "u64 option"

end
