(* ===== verification/Tx_Signing.thy ===== *)
theory Tx_Signing
  imports Chain_Types
begin

text \<open>
  The SNIP-36 transaction hash and signature, \<open>crates/snip36-core/src/signing.rs\<close> (the
  functions of the pure crate are in \<open>Pure_Signing\<close>). Machine integers keep their width, field arithmetic and the hashes are parameters. The lemmas show that packing a
  resource never wraps in the field, that the hash of a transaction determines the transaction
  unless Poseidon collides on the lists hashed here, and that the payload built is the
  transaction that was hashed and signed.
\<close>

definition invoke_prefix :: "('f, 'x) ext_scheme \<Rightarrow> 'f" where
  "invoke_prefix X = x_from_bytes_be_slice X ''invoke''"

definition chain_id_felt :: "('f, 'x) ext_scheme \<Rightarrow> string \<Rightarrow> 'f" where
  "chain_id_felt X chain_id = x_from_bytes_be_slice X chain_id"

definition resource_name_felt :: "string \<Rightarrow> u64" where
  "resource_name_felt name =
     (let len = min (length name) 7;
          buf = replicate (8 - len) (char_of (0 :: nat)) @ take len name
      in word_of_nat (be_nat buf))"

definition concat_resource :: "('f, 'x) ext_scheme \<Rightarrow> u64 \<Rightarrow> u128 \<Rightarrow> string \<Rightarrow> 'f" where
  "concat_resource X amount price resource_name =
     (let name = (ucast (resource_name_felt resource_name) :: u128);
          high = or (push_bit 64 name) (ucast amount);
          high_felt = x_from_u128 X high;
          shift = x_pow_felt X (x_from_u128 X (push_bit 64 1)) (x_two X)
      in x_add X (x_mul X high_felt shift) (x_from_u128 X price))"

definition tip_resource_list :: "('f, 'x) ext_scheme \<Rightarrow> 'f \<Rightarrow> resource_bounds \<Rightarrow> 'f list" where
  "tip_resource_list X tip bounds =
     [tip,
      concat_resource X (max_amount (l1_gas bounds)) (max_price_per_unit (l1_gas bounds)) ''L1_GAS'',
      concat_resource X (max_amount (l2_gas bounds)) (max_price_per_unit (l2_gas bounds)) ''L2_GAS'',
      concat_resource X (max_amount (l1_data_gas bounds)) (max_price_per_unit (l1_data_gas bounds)) ''L1_DATA'']"

definition compute_tip_resource_bounds_hash :: "('f, 'x) ext_scheme \<Rightarrow> 'f \<Rightarrow> resource_bounds \<Rightarrow> 'f" where
  "compute_tip_resource_bounds_hash X tip bounds = x_poseidon_hash_many X (tip_resource_list X tip bounds)"

definition da_mode :: "('f, 'x) ext_scheme \<Rightarrow> u32 \<Rightarrow> u32 \<Rightarrow> 'f" where
  "da_mode X nonce_da fee_da = x_from_u64 X (or (push_bit 32 (ucast nonce_da)) (ucast fee_da))"

definition compute_invoke_v3_tx_hash ::
  "('f, 'x) ext_scheme \<Rightarrow> 'f \<Rightarrow> 'f list \<Rightarrow> 'f \<Rightarrow> 'f \<Rightarrow> 'f \<Rightarrow> resource_bounds \<Rightarrow> 'f list \<Rightarrow> 'f list
   \<Rightarrow> u32 \<Rightarrow> u32 \<Rightarrow> 'f list \<Rightarrow> 'f"
where
  "compute_invoke_v3_tx_hash X sender calldata cid nonce tip bounds paymaster_data
       account_deployment_data nonce_da_mode fee_da_mode facts =
     (let tip_rb_hash = compute_tip_resource_bounds_hash X tip bounds;
          paymaster_data_hash = x_poseidon_hash_many X paymaster_data;
          account_deployment_data_hash = x_poseidon_hash_many X account_deployment_data;
          calldata_hash = x_poseidon_hash_many X calldata;
          elements =
            [invoke_prefix X, x_three X, sender, tip_rb_hash, paymaster_data_hash, cid, nonce,
             da_mode X nonce_da_mode fee_da_mode, account_deployment_data_hash, calldata_hash]
            @ (if facts \<noteq> [] then [x_poseidon_hash_many X facts] else [])
      in x_poseidon_hash_many X elements)"

record 'f signature =
  sig_r :: 'f
  sig_s :: 'f

datatype sign_error = Ecdsa string

fun sign_error_display :: "sign_error \<Rightarrow> string" where
  "sign_error_display (Ecdsa e) = ''ECDSA signing failed: '' @ e"

definition sign :: "('f, 'x) ext_scheme \<Rightarrow> 'f \<Rightarrow> 'f \<Rightarrow> sign_error + 'f signature" where
  "sign X private_key message_hash =
     (let k = x_rfc6979_generate_k X message_hash private_key
      in bindR (map_err Ecdsa (x_ecdsa_sign X private_key message_hash k))
           (\<lambda>(r, s). Inr \<lparr>sig_r = r, sig_s = s\<rparr>))"

definition sig_json :: "('f, 'x) ext_scheme \<Rightarrow> 'f signature \<Rightarrow> json" where
  "sig_json X sig = JArr [JStr (x_to_hex X (sig_r sig)), JStr (x_to_hex X (sig_s sig))]"

text \<open>
  The \<open>json!\<close> literal of an invoke transaction. Every builder of the sources writes these
  entries, in this order; \<open>extra\<close> holds the two SNIP-36 entries where the builder adds them.
\<close>

definition invoke_json ::
  "string \<Rightarrow> string list \<Rightarrow> string \<Rightarrow> resource_bounds \<Rightarrow> json \<Rightarrow> (string \<times> json) list \<Rightarrow> json"
where
  "invoke_json sender calldata_hex nonce_hex bounds sig extra =
     JObj ([(''type'', JStr ''INVOKE''), (''version'', JStr ''0x3''),
            (''sender_address'', JStr sender), (''calldata'', jstrs calldata_hex),
            (''nonce'', JStr nonce_hex), (''resource_bounds'', to_rpc_json bounds),
            (''tip'', JStr ''0x0''), (''paymaster_data'', JArr []),
            (''account_deployment_data'', JArr []),
            (''nonce_data_availability_mode'', JStr ''L1''),
            (''fee_data_availability_mode'', JStr ''L1''), (''signature'', sig)] @ extra)"

definition sign_and_build_payload ::
  "('f, 'x) ext_scheme \<Rightarrow> 'f submit_params \<Rightarrow> sign_error + 'f \<times> json"
where
  "sign_and_build_payload X params =
     (let h = compute_invoke_v3_tx_hash X (sp_sender_address params) (sp_calldata params)
                (sp_chain_id params) (sp_nonce params) (x_zero X) (sp_resource_bounds params)
                [] [] 0 0 (sp_proof_facts params)
      in bindR (sign X (sp_private_key params) h) (\<lambda>sig.
           Inr (h, invoke_json (x_to_hex X (sp_sender_address params))
                     (map (x_to_hex X) (sp_calldata params)) (x_to_hex X (sp_nonce params))
                     (sp_resource_bounds params) (sig_json X sig)
                     [(''proof'', JStr (sp_proof_base64 params)),
                      (''proof_facts'', jstrs (map (x_to_hex X) (sp_proof_facts params)))])))"

definition felt_from_hex :: "('f, 'x) ext_scheme \<Rightarrow> string \<Rightarrow> string + 'f" where
  "felt_from_hex X hex_str =
     map_err (\<lambda>e. ''invalid felt hex '' @ [CHR 0x27] @ hex_str @ [CHR 0x27] @ '': '' @ e) (x_from_hex X hex_str)"

section \<open>Packing a resource\<close>

lemma or_push_bit_int:
  fixes a b :: int
  assumes "0 \<le> b" "b < 2 ^ k"
  shows "or (push_bit k a) b = a * 2 ^ k + b"
proof -
  have "take_bit k b = b" using assms by (simp add: take_bit_int_eq_self)
  then have "or (push_bit k a) b = concat_bit k b a"
    by (simp add: concat_bit_def or.commute)
  also have "\<dots> = b + push_bit k a" using \<open>take_bit k b = b\<close> by (simp add: concat_bit_eq)
  finally show ?thesis by (simp add: push_bit_eq_mult)
qed

lemma unat_or_push_bit:
  fixes n a :: "'a::len word"
  assumes len: "LENGTH('b::len) = 2 * LENGTH('a)"
  shows "unat (or (push_bit LENGTH('a) (ucast n :: 'b word)) (ucast a)) = unat n * 2 ^ LENGTH('a) + unat a"
proof -
  let ?k = "LENGTH('a)"
  have n: "uint n < 2 ^ ?k" and a: "uint a < 2 ^ ?k"
    using unsigned_less [of n, where 'a = int] unsigned_less [of a, where 'a = int] by simp_all
  have pow: "(2::int) ^ LENGTH('b) = 2 ^ ?k * 2 ^ ?k" by (simp add: len mult_2 power_add)
  have le: "(2::int) ^ ?k \<le> 2 ^ LENGTH('b)" by (simp add: len)
  have small: "uint n * 2 ^ ?k < 2 ^ LENGTH('b)" using n by (simp add: pow)
  have "uint n < 2 ^ LENGTH('b)" "uint a < 2 ^ LENGTH('b)" using n a le by linarith+
  then have "take_bit LENGTH('b) (uint n) = uint n" "take_bit LENGTH('b) (uint a) = uint a"
    by (simp_all add: take_bit_int_eq_self)
  then have un: "uint (ucast n :: 'b word) = uint n" and ua: "uint (ucast a :: 'b word) = uint a"
    by (simp_all add: unsigned_ucast_eq)
  have "uint (push_bit ?k (ucast n :: 'b word)) = uint n * 2 ^ ?k"
    using small by (simp only: unsigned_push_bit_eq un) (simp add: push_bit_eq_mult take_bit_int_eq_self)
  then have "uint (or (push_bit ?k (ucast n :: 'b word)) (ucast a)) = or (push_bit ?k (uint n)) (uint a)"
    by (simp add: unsigned_or_eq ua push_bit_eq_mult)
  also have "\<dots> = uint n * 2 ^ ?k + uint a"
    using a by (intro or_push_bit_int) simp_all
  finally have "int (unat (or (push_bit ?k (ucast n :: 'b word)) (ucast a))) = int (unat n * 2 ^ ?k + unat a)"
    by simp
  then show ?thesis by (simp only: of_nat_eq_iff)
qed

lemma unat_resource_name_felt: "unat (resource_name_felt name) = be_nat (take 7 name)"
  and resource_name_bound: "be_nat (take 7 name) < 2 ^ 56"
proof -
  have "be_nat (take 7 name) < 256 ^ length (take 7 name)" by (rule be_nat_lt)
  also have "\<dots> \<le> 256 ^ 7" by (rule power_increasing) simp_all
  finally show b: "be_nat (take 7 name) < 2 ^ 56" by simp
  have "take (min (length name) 7) name = take 7 name" by (simp add: min_def)
  with b show "unat (resource_name_felt name) = be_nat (take 7 name)"
    by (simp add: resource_name_felt_def Let_def unsigned_of_nat take_bit_nat_eq_self)
qed

lemma concat_resource_value:
  assumes "felt_arith_laws X val"
  shows "val (concat_resource X amount price name) =
           be_nat (take 7 name) * 2 ^ 192 + unat amount * 2 ^ 128 + unat price"
proof -
  let ?h = "be_nat (take 7 name) * 2 ^ 64 + unat amount"
  have high: "unat (or (push_bit 64 (ucast (resource_name_felt name) :: u128)) (ucast amount)) = ?h"
    using unat_or_push_bit [where 'a = 64 and 'b = 128, of "resource_name_felt name" amount]
    by (simp add: unat_resource_name_felt)
  have name: "be_nat (take 7 name) < 2 ^ 56" by (rule resource_name_bound)
  have amt: "unat amount < 18446744073709551616" by (rule unat_u64_lt)
  have price: "unat price < 340282366920938463463374607431768211456" by (rule unat_u128_lt)
  have shift: "val (x_pow_felt X (x_from_u128 X (push_bit 64 1)) (x_two X)) = 2 ^ 128"
    using assms by (simp add: felt_arith_laws_def felt_prime_def push_bit_eq_mult)
  have bound: "?h * 2 ^ 128 + unat price < felt_prime"
    using name amt price by (simp add: felt_prime_def)
  then have bound': "?h * 2 ^ 128 < felt_prime" by linarith
  have "val (concat_resource X amount price name) = ((?h * 2 ^ 128) mod felt_prime + unat price) mod felt_prime"
    using assms shift high
    by (simp add: concat_resource_def Let_def felt_arith_laws_def)
  also have "\<dots> = ?h * 2 ^ 128 + unat price" using bound bound' by simp
  finally show ?thesis by (simp add: algebra_simps)
qed

lemma positional_inj:
  fixes a b c d k :: nat
  assumes "a * k + b = c * k + d" "b < k" "d < k"
  shows "a = c \<and> b = d"
proof -
  have "a = (a * k + b) div k" using assms(2) by simp
  also have "\<dots> = c" using assms(1,3) by simp
  finally show ?thesis using assms(1) by simp
qed

lemma concat_resource_inj:
  assumes "felt_arith_laws X val"
    and eq: "concat_resource X a1 p1 name = concat_resource X a2 p2 name"
  shows "a1 = a2 \<and> p1 = p2"
proof -
  have "unat a1 * 2 ^ 128 + unat p1 = unat a2 * 2 ^ 128 + unat p2"
    using arg_cong [OF eq, of val] by (simp add: concat_resource_value [OF assms(1)])
  then have "unat a1 = unat a2 \<and> unat p1 = unat p2"
    using unat_u128_lt [of p1] unat_u128_lt [of p2] by (intro positional_inj) simp_all
  then show ?thesis by (metis unsigned_word_eqI)
qed

lemma da_mode_inj:
  assumes "felt_arith_laws X val" and eq: "da_mode X n1 f1 = da_mode X n2 f2"
  shows "n1 = n2 \<and> f1 = f2"
proof -
  have v: "val (da_mode X n f) = unat n * 2 ^ 32 + unat f" for n f
    using assms(1) unat_or_push_bit [where 'a = 32 and 'b = 64, of n f]
    by (simp add: felt_arith_laws_def da_mode_def)
  have "unat f1 < 2 ^ 32" "unat f2 < 2 ^ 32"
    using unsigned_less [of f1, where 'a = nat] unsigned_less [of f2, where 'a = nat] by simp_all
  moreover have "unat n1 * 2 ^ 32 + unat f1 = unat n2 * 2 ^ 32 + unat f2"
    using arg_cong [OF eq, of val] by (simp only: v)
  ultimately have "unat n1 = unat n2 \<and> unat f1 = unat f2" by (intro positional_inj)
  then show ?thesis by (metis unsigned_word_eqI)
qed

section \<open>The hash commits to the transaction\<close>

text \<open>
  The arguments of \<open>compute_invoke_v3_tx_hash\<close> as one record, and the lists it hands to Poseidon.
\<close>

record 'f invoke_tx =
  iv_sender :: 'f
  iv_calldata :: "'f list"
  iv_chain_id :: 'f
  iv_nonce :: 'f
  iv_tip :: 'f
  iv_bounds :: resource_bounds
  iv_paymaster :: "'f list"
  iv_deployment :: "'f list"
  iv_nonce_da :: u32
  iv_fee_da :: u32
  iv_proof_facts :: "'f list"

definition tx_hash_of :: "('f, 'x) ext_scheme \<Rightarrow> 'f invoke_tx \<Rightarrow> 'f" where
  "tx_hash_of X t =
     compute_invoke_v3_tx_hash X (iv_sender t) (iv_calldata t) (iv_chain_id t) (iv_nonce t) (iv_tip t)
       (iv_bounds t) (iv_paymaster t) (iv_deployment t) (iv_nonce_da t) (iv_fee_da t) (iv_proof_facts t)"

definition tx_elements :: "('f, 'x) ext_scheme \<Rightarrow> 'f invoke_tx \<Rightarrow> 'f list" where
  "tx_elements X t =
     [invoke_prefix X, x_three X, iv_sender t,
      x_poseidon_hash_many X (tip_resource_list X (iv_tip t) (iv_bounds t)),
      x_poseidon_hash_many X (iv_paymaster t), iv_chain_id t, iv_nonce t,
      da_mode X (iv_nonce_da t) (iv_fee_da t), x_poseidon_hash_many X (iv_deployment t),
      x_poseidon_hash_many X (iv_calldata t)]
     @ (if iv_proof_facts t \<noteq> [] then [x_poseidon_hash_many X (iv_proof_facts t)] else [])"

definition hash_inputs :: "('f, 'x) ext_scheme \<Rightarrow> 'f invoke_tx \<Rightarrow> 'f list list" where
  "hash_inputs X t =
     [tx_elements X t, tip_resource_list X (iv_tip t) (iv_bounds t), iv_paymaster t, iv_deployment t,
      iv_calldata t, iv_proof_facts t]"

definition no_collision :: "('f, 'x) ext_scheme \<Rightarrow> 'f list list \<Rightarrow> 'f list list \<Rightarrow> bool" where
  "no_collision X xss yss \<longleftrightarrow>
     list_all (\<lambda>(xs, ys). x_poseidon_hash_many X xs = x_poseidon_hash_many X ys \<longrightarrow> xs = ys) (zip xss yss)"

lemma tx_hash_of_eq: "tx_hash_of X t = x_poseidon_hash_many X (tx_elements X t)"
  by (simp add: tx_hash_of_def compute_invoke_v3_tx_hash_def compute_tip_resource_bounds_hash_def
      tx_elements_def Let_def)

lemma tip_resource_list_inj:
  assumes "felt_arith_laws X val" "tip_resource_list X t1 b1 = tip_resource_list X t2 b2"
  shows "t1 = t2 \<and> b1 = b2"
  using assms(2) concat_resource_inj [OF assms(1)]
  by (auto simp: tip_resource_list_def intro!: resource_bounds.equality resource_bound.equality)

text \<open>C1. Two different invoke transactions (any field: sender, calldata, chain id, nonce, tip, resource bounds, paymaster and deployment data, availability modes, proof facts) have different SNIP-36 hashes, unless Poseidon collides on one of the pairs of lists hashed for them; no field is left out of the hash and the packing of the bounds never merges two values.\<close>
theorem tx_hash_binding:
  assumes "felt_arith_laws X val" and "t \<noteq> u"
    and "no_collision X (hash_inputs X t) (hash_inputs X u)"
  shows "tx_hash_of X t \<noteq> tx_hash_of X u"
proof
  assume "tx_hash_of X t = tx_hash_of X u"
  with assms(3) have els: "tx_elements X t = tx_elements X u"
    by (simp add: tx_hash_of_eq no_collision_def hash_inputs_def)
  have pf: "iv_proof_facts t = iv_proof_facts u"
    using els assms(3) by (auto simp: tx_elements_def no_collision_def hash_inputs_def split: if_splits)
  from els assms(3) have "iv_sender t = iv_sender u" "iv_chain_id t = iv_chain_id u"
      "iv_nonce t = iv_nonce u" "iv_paymaster t = iv_paymaster u" "iv_deployment t = iv_deployment u"
      "iv_calldata t = iv_calldata u"
    by (auto simp: tx_elements_def no_collision_def hash_inputs_def)
  moreover have "iv_tip t = iv_tip u \<and> iv_bounds t = iv_bounds u"
    using els assms(3) by (intro tip_resource_list_inj [OF assms(1)])
      (auto simp: tx_elements_def no_collision_def hash_inputs_def)
  moreover have "iv_nonce_da t = iv_nonce_da u \<and> iv_fee_da t = iv_fee_da u"
    using els by (intro da_mode_inj [OF assms(1)]) (auto simp: tx_elements_def)
  ultimately have "t = u" using pf by (intro invoke_tx.equality) simp_all
  with assms(2) show False by simp
qed

definition sample_tx :: "nat list \<Rightarrow> nat invoke_tx" where
  "sample_tx facts =
     \<lparr>iv_sender = 291, iv_calldata = [1], iv_chain_id = 7, iv_nonce = 0, iv_tip = 0, iv_bounds = zero_fee,
      iv_paymaster = [], iv_deployment = [], iv_nonce_da = 0, iv_fee_da = 0, iv_proof_facts = facts\<rparr>"

definition length_hash_ext :: "nat ext" where
  "length_hash_ext = ref_ext\<lparr>x_poseidon_hash_many := length\<rparr>"

theorem tx_hash_binding_witness:
  "tx_hash_of length_hash_ext (sample_tx [5]) \<noteq> tx_hash_of length_hash_ext (sample_tx [])"
proof (rule tx_hash_binding)
  show "felt_arith_laws length_hash_ext ref_val"
    using ref_arith_laws by (simp add: felt_arith_laws_def length_hash_ext_def)
  show "sample_tx [5] \<noteq> sample_tx []" by (simp add: sample_tx_def)
  show "no_collision length_hash_ext (hash_inputs length_hash_ext (sample_tx [5]))
          (hash_inputs length_hash_ext (sample_tx []))"
    by (simp add: no_collision_def hash_inputs_def length_hash_ext_def sample_tx_def tx_elements_def
        tip_resource_list_def)
qed

theorem concat_resource_packs:
  assumes "felt_arith_laws X val"
  shows "val (concat_resource X amount price name) =
           be_nat (take 7 name) * 2 ^ 192 + unat amount * 2 ^ 128 + unat price \<and>
         val (concat_resource X amount price name) < 2 ^ 248 \<and> 2 ^ 248 < felt_prime"
proof -
  have "be_nat (take 7 name) * 2 ^ 192 + unat amount * 2 ^ 128 + unat price < 2 ^ 248"
    using resource_name_bound [of name] unat_u64_lt [of amount] unat_u128_lt [of price] by simp
  then show ?thesis by (simp add: concat_resource_value [OF assms] felt_prime_def)
qed

theorem concat_resource_packs_witness:
  "ref_val (concat_resource ref_ext 0x1b0 7 ''L1_DATA'') = 0x4c315f44415441 * 2 ^ 192 + 0x1b0 * 2 ^ 128 + 7"
proof -
  have "be_nat (take 7 ''L1_DATA'') = 0x4c315f44415441" by (simp add: be_nat_def)
  with concat_resource_packs [OF ref_arith_laws, of "0x1b0" 7 "''L1_DATA''"] show ?thesis by simp
qed

section \<open>The payload is the transaction that was signed\<close>

text \<open>
  What a node reads in the JSON of a transaction, independently of how it was built: hex fields
  through the felt parser, the bounds as integers, the availability modes and the empty lists.
\<close>

definition read_felt :: "('f, 'x) ext_scheme \<Rightarrow> string \<Rightarrow> json \<Rightarrow> 'f option" where
  "read_felt X k j = Option.bind (jget_str k j) (\<lambda>s. ok_opt (x_from_hex X s))"

definition elem_felt :: "('f, 'x) ext_scheme \<Rightarrow> json \<Rightarrow> 'f option" where
  "elem_felt X v = Option.bind (as_str v) (\<lambda>s. ok_opt (x_from_hex X s))"

definition read_felts :: "('f, 'x) ext_scheme \<Rightarrow> string \<Rightarrow> json \<Rightarrow> 'f list option" where
  "read_felts X k j = Option.bind (Option.bind (jget k j) as_array) (\<lambda>vs. those (map (elem_felt X) vs))"

definition read_nat :: "string \<Rightarrow> json \<Rightarrow> nat option" where
  "read_nat k j = Option.bind (jget_str k j) (\<lambda>s. hex_nat 0 (trim_start_0x s))"

definition read_bound :: "string \<Rightarrow> json \<Rightarrow> resource_bound option" where
  "read_bound k j = Option.bind (jget k j) (\<lambda>b. Option.bind (read_nat ''max_amount'' b) (\<lambda>a.
     Option.bind (read_nat ''max_price_per_unit'' b) (\<lambda>p.
       Some \<lparr>max_amount = word_of_nat a, max_price_per_unit = word_of_nat p\<rparr>)))"

definition read_bounds :: "json \<Rightarrow> resource_bounds option" where
  "read_bounds j = Option.bind (jget ''resource_bounds'' j) (\<lambda>b.
     Option.bind (read_bound ''l1_gas'' b) (\<lambda>l1. Option.bind (read_bound ''l2_gas'' b) (\<lambda>l2.
       Option.bind (read_bound ''l1_data_gas'' b) (\<lambda>l1d.
         Some \<lparr>l1_gas = l1, l2_gas = l2, l1_data_gas = l1d\<rparr>))))"

definition read_da :: "string \<Rightarrow> json \<Rightarrow> u32 option" where
  "read_da k j = (if jget k j = Some (JStr ''L1'') then Some 0
                  else if jget k j = Some (JStr ''L2'') then Some 1 else None)"

definition read_tx :: "('f, 'x) ext_scheme \<Rightarrow> 'f \<Rightarrow> json \<Rightarrow> 'f invoke_tx option" where
  "read_tx X cid j =
     Option.bind (read_felt X ''sender_address'' j) (\<lambda>sender.
     Option.bind (read_felts X ''calldata'' j) (\<lambda>calldata.
     Option.bind (read_felt X ''nonce'' j) (\<lambda>nonce.
     Option.bind (read_felt X ''tip'' j) (\<lambda>tip.
     Option.bind (read_bounds j) (\<lambda>bounds.
     Option.bind (read_felts X ''paymaster_data'' j) (\<lambda>pm.
     Option.bind (read_felts X ''account_deployment_data'' j) (\<lambda>dep.
     Option.bind (read_da ''nonce_data_availability_mode'' j) (\<lambda>nda.
     Option.bind (read_da ''fee_data_availability_mode'' j) (\<lambda>fda.
       Some \<lparr>iv_sender = sender, iv_calldata = calldata, iv_chain_id = cid, iv_nonce = nonce,
              iv_tip = tip, iv_bounds = bounds, iv_paymaster = pm, iv_deployment = dep,
              iv_nonce_da = nda, iv_fee_da = fda,
              iv_proof_facts = (case read_felts X ''proof_facts'' j of Some fs \<Rightarrow> fs | None \<Rightarrow> [])\<rparr>)))))))))"

lemma hex_nat_fmt_hex [simp]: "hex_nat 0 (trim_start_0x (fmt_hex n)) = Some n"
  by (simp add: trim_start_0x_fmt_hex hex_nat_hex_digits)

lemma read_bounds_to_rpc_json:
  assumes "jget ''resource_bounds'' j = Some (to_rpc_json b)"
  shows "read_bounds j = Some b"
  using assms
  by (simp add: read_bounds_def to_rpc_json_def read_bound_def bound_json_def read_nat_def jget_str_def)

lemma those_elem_felt:
  assumes "hex_laws X"
  shows "those (map (elem_felt X) (map JStr (map (x_to_hex X) fs))) = Some fs"
  using assms by (induction fs) (simp_all add: elem_felt_def hex_laws_def)

lemma read_felts_jstrs:
  assumes "hex_laws X" "jget k j = Some (jstrs (map (x_to_hex X) fs))"
  shows "read_felts X k j = Some fs"
  using those_elem_felt [OF assms(1), of fs] assms(2) by (simp add: read_felts_def jstrs_def)

text \<open>
  The transaction of an \<open>invoke_json\<close> value: no tip, no paymaster, no deployment data, both
  availability modes on L1.
\<close>

definition plain_tx ::
  "('f, 'x) ext_scheme \<Rightarrow> 'f \<Rightarrow> 'f list \<Rightarrow> 'f \<Rightarrow> 'f \<Rightarrow> resource_bounds \<Rightarrow> 'f list \<Rightarrow> 'f invoke_tx"
where
  "plain_tx X sender calldata cid nonce bounds facts =
     \<lparr>iv_sender = sender, iv_calldata = calldata, iv_chain_id = cid, iv_nonce = nonce, iv_tip = x_zero X,
      iv_bounds = bounds, iv_paymaster = [], iv_deployment = [], iv_nonce_da = 0, iv_fee_da = 0,
      iv_proof_facts = facts\<rparr>"

lemma tx_hash_of_plain_tx:
  "tx_hash_of X (plain_tx X sender calldata cid nonce bounds facts) =
     compute_invoke_v3_tx_hash X sender calldata cid nonce (x_zero X) bounds [] [] 0 0 facts"
  by (simp add: tx_hash_of_def plain_tx_def)

definition proof_entries :: "('f, 'x) ext_scheme \<Rightarrow> string \<Rightarrow> 'f list \<Rightarrow> (string \<times> json) list" where
  "proof_entries X b64 facts = [(''proof'', JStr b64), (''proof_facts'', jstrs (map (x_to_hex X) facts))]"

lemma read_tx_invoke_json:
  assumes hex: "hex_laws X" and sender: "x_from_hex X sender_str = Inr sender"
    and extra: "extra = [] \<and> facts = [] \<or> (\<exists>b64. extra = proof_entries X b64 facts)"
  shows "read_tx X cid (invoke_json sender_str (map (x_to_hex X) calldata) (x_to_hex X nonce) bounds sj extra)
           = Some (plain_tx X sender calldata cid nonce bounds facts)"
proof -
  let ?j = "invoke_json sender_str (map (x_to_hex X) calldata) (x_to_hex X nonce) bounds sj extra"
  have facts: "(case read_felts X ''proof_facts'' ?j of Some fs \<Rightarrow> fs | None \<Rightarrow> []) = facts"
  proof (cases "extra = []")
    case True
    then have "facts = []" using extra by (auto simp: proof_entries_def)
    then show ?thesis using True by (simp add: read_felts_def invoke_json_def)
  next
    case False
    then have "read_felts X ''proof_facts'' ?j = Some facts"
      using extra by (intro read_felts_jstrs [OF hex]) (auto simp: invoke_json_def proof_entries_def)
    then show ?thesis by simp
  qed
  have "read_felts X ''calldata'' ?j = Some calldata"
    by (intro read_felts_jstrs [OF hex]) (simp add: invoke_json_def)
  moreover have "read_bounds ?j = Some bounds"
    by (intro read_bounds_to_rpc_json) (simp add: invoke_json_def)
  moreover have "read_felt X ''sender_address'' ?j = Some sender"
    "read_felt X ''nonce'' ?j = Some nonce" "read_felt X ''tip'' ?j = Some (x_zero X)"
    "read_felts X ''paymaster_data'' ?j = Some []" "read_felts X ''account_deployment_data'' ?j = Some []"
    "read_da ''nonce_data_availability_mode'' ?j = Some 0" "read_da ''fee_data_availability_mode'' ?j = Some 0"
    using hex sender
    by (simp_all add: invoke_json_def read_felt_def read_felts_def read_da_def jget_str_def hex_laws_def)
  ultimately show ?thesis using facts by (simp add: read_tx_def plain_tx_def)
qed

lemma read_signature_invoke_json:
  assumes "hex_laws X"
  shows "read_felts X ''signature'' (invoke_json sender cd nonce bounds (sig_json X sig) extra) =
           Some [sig_r sig, sig_s sig]"
  using assms by (simp add: invoke_json_def read_felts_def sig_json_def elem_felt_def hex_laws_def)

text \<open>C2. When sign_and_build_payload succeeds, the JSON payload read back field by field is a transaction whose hash is the returned hash, with the proof facts and bounds of the parameters, and its signature entry is the ECDSA signature of that hash.\<close>
theorem payload_is_signed_transaction:
  assumes "hex_laws X" and "sign_and_build_payload X p = Inr (h, j)"
  shows "\<exists>t sig. read_tx X (sp_chain_id p) j = Some t \<and> tx_hash_of X t = h \<and>
           iv_proof_facts t = sp_proof_facts p \<and> iv_bounds t = sp_resource_bounds p \<and>
           sign X (sp_private_key p) h = Inr sig \<and>
           read_felts X ''signature'' j = Some [sig_r sig, sig_s sig] \<and>
           jget_str ''proof'' j = Some (sp_proof_base64 p)"
proof -
  define t where "t = plain_tx X (sp_sender_address p) (sp_calldata p) (sp_chain_id p) (sp_nonce p)
      (sp_resource_bounds p) (sp_proof_facts p)"
  from assms(2) obtain sig where h: "h = tx_hash_of X t" and sig: "sign X (sp_private_key p) h = Inr sig"
    and j: "j = invoke_json (x_to_hex X (sp_sender_address p)) (map (x_to_hex X) (sp_calldata p))
                  (x_to_hex X (sp_nonce p)) (sp_resource_bounds p) (sig_json X sig)
                  (proof_entries X (sp_proof_base64 p) (sp_proof_facts p))"
    by (auto simp: sign_and_build_payload_def Let_def result_simps t_def tx_hash_of_plain_tx proof_entries_def)
  have "read_tx X (sp_chain_id p) j = Some t"
    using assms(1) unfolding j t_def by (intro read_tx_invoke_json) (auto simp: hex_laws_def)
  moreover have "read_felts X ''signature'' j = Some [sig_r sig, sig_s sig]"
    unfolding j by (rule read_signature_invoke_json [OF assms(1)])
  moreover have "jget_str ''proof'' j = Some (sp_proof_base64 p)"
    by (simp add: j invoke_json_def jget_str_def proof_entries_def)
  ultimately show ?thesis using h sig by (auto simp: t_def plain_tx_def)
qed

definition sample_params :: "nat submit_params" where
  "sample_params =
     \<lparr>sp_sender_address = 291, sp_private_key = 11, sp_calldata = [1, 2], sp_proof_base64 = ''cHJvb2Y='',
      sp_proof_facts = [5], sp_nonce = 3, sp_chain_id = 7, sp_resource_bounds = zero_fee\<rparr>"

theorem payload_is_signed_transaction_witness:
  "\<exists>h j t. sign_and_build_payload length_hash_ext sample_params = Inr (h, j) \<and>
     read_tx length_hash_ext 7 j = Some t \<and> tx_hash_of length_hash_ext t = h \<and> iv_proof_facts t = [5]"
proof -
  have laws: "hex_laws length_hash_ext"
    using ref_hex_laws by (simp add: hex_laws_def length_hash_ext_def)
  have "\<exists>h j. sign_and_build_payload length_hash_ext sample_params = Inr (h, j)"
    by (simp add: sign_and_build_payload_def sign_def sample_params_def length_hash_ext_def ref_ext_def Let_def)
  then obtain h j where p: "sign_and_build_payload length_hash_ext sample_params = Inr (h, j)" by blast
  from payload_is_signed_transaction [OF laws p] p show ?thesis by (auto simp: sample_params_def)
qed

end
