(* ===== verification/Core_Config.thy ===== *)
theory Core_Config
  imports Tx_Signing
begin

text \<open>
  The configuration, \<open>crates/snip36-core/src/config.rs\<close>. The process environment is a map, and
  what the loader asks of the host (which files exist, the current directory, the crate that
  reads a \<open>.env\<close> file into the environment) is the record \<open>host\<close>. The lemmas say which variables
  decide the configuration, that a \<open>.env\<close> file is read only where the code reads it, and that
  the chain id the configuration encodes is the one the signing code hashes.
\<close>

type_synonym environment = "string \<Rightarrow> string option"

record host =
  h_env :: environment
  h_exists :: "string \<Rightarrow> bool"
  h_current_dir :: "string option"
  h_dotenv_from_path :: "string \<Rightarrow> environment \<Rightarrow> environment"
  h_dotenv :: "environment \<Rightarrow> environment"

record config =
  cfg_rpc_url :: string
  cfg_account_address :: string
  cfg_private_key :: string
  cfg_chain_id :: string
  cfg_gateway_url :: "string option"
  cfg_project_dir :: string
  cfg_output_dir :: string
  cfg_deps_dir :: string

datatype config_error = Missing string | InvalidChainId string

fun config_error_display :: "config_error \<Rightarrow> string" where
  "config_error_display (Missing v) = ''missing required environment variable: '' @ v"
| "config_error_display (InvalidChainId m) = ''invalid chain_id: '' @ m"

text \<open>\<open>PathBuf::join\<close> on Unix paths.\<close>

definition path_join :: "string \<Rightarrow> string \<Rightarrow> string" where
  "path_join base rel =
     (if take 1 rel = ''/'' then rel
      else if base = [] \<or> last base = CHR ''/'' then base @ rel
      else base @ ''/'' @ rel)"

text \<open>The environment after the optional \<open>.env\<close> file.\<close>

definition load_env :: "host \<Rightarrow> string option \<Rightarrow> environment" where
  "load_env H env_file =
     (case env_file of
        Some path \<Rightarrow> if h_exists H path then h_dotenv_from_path H path (h_env H) else h_env H
      | None \<Rightarrow> h_dotenv H (h_env H))"

definition or_else :: "'a option \<Rightarrow> 'a option \<Rightarrow> 'a option" where
  "or_else a b = (case a of Some x \<Rightarrow> Some x | None \<Rightarrow> b)"

definition unwrap_or :: "'a option \<Rightarrow> 'a \<Rightarrow> 'a" where
  "unwrap_or a d = (case a of Some x \<Rightarrow> x | None \<Rightarrow> d)"

lemma or_else_simps [simp]: "or_else (Some x) b = Some x" "or_else None b = b"
  by (simp_all add: or_else_def)

lemma unwrap_or_simps [simp]: "unwrap_or (Some x) d = x" "unwrap_or None d = d"
  by (simp_all add: unwrap_or_def)

lemma or_else_None [simp]: "or_else a b = None \<longleftrightarrow> a = None \<and> b = None"
  by (cases a) simp_all

definition from_env :: "host \<Rightarrow> string option \<Rightarrow> config_error + config" where
  "from_env H env_file =
     (let env = load_env H env_file
      in bindR (ok_or (Missing ''STARKNET_RPC_URL'') (env ''STARKNET_RPC_URL'')) (\<lambda>rpc_url.
         bindR (ok_or (Missing ''STARKNET_ACCOUNT_ADDRESS'')
                 (or_else (env ''STARKNET_ACCOUNT_ADDRESS'') (env ''MASTER_ACCOUNT_ADDRESS''))) (\<lambda>account_address.
         bindR (ok_or (Missing ''STARKNET_PRIVATE_KEY'')
                 (or_else (env ''STARKNET_PRIVATE_KEY'') (env ''MASTER_PRIVATE_KEY''))) (\<lambda>private_key.
         let chain_id = unwrap_or (env ''STARKNET_CHAIN_ID'') ''SN_SEPOLIA'';
             gateway_url = Option.bind (env ''STARKNET_GATEWAY_URL'') (\<lambda>s. if s \<noteq> [] then Some s else None);
             project_dir = unwrap_or (env ''SNIP36_PROJECT_DIR'') (unwrap_or (h_current_dir H) ''.'')
         in Inr \<lparr>cfg_rpc_url = rpc_url, cfg_account_address = account_address,
                 cfg_private_key = private_key, cfg_chain_id = chain_id, cfg_gateway_url = gateway_url,
                 cfg_project_dir = project_dir, cfg_output_dir = path_join project_dir ''output'',
                 cfg_deps_dir = path_join project_dir ''deps''\<rparr>))))"

definition config_chain_id_felt :: "('f, 'x) ext_scheme \<Rightarrow> config \<Rightarrow> config_error + 'f" where
  "config_chain_id_felt X c =
     (let bs = cfg_chain_id c
      in if 31 < length bs
         then Inl (InvalidChainId (''chain_id '' @ [CHR 0x27] @ cfg_chain_id c @ [CHR 0x27] @ '' is '' @
                                   fmt_dec (length bs) @ '' bytes, max is 31''))
         else let buf = replicate (32 - length bs) (char_of (0 :: nat)) @ bs
              in Inr (x_from_bytes_be X buf))"

definition prover_bin :: "config \<Rightarrow> string" where
  "prover_bin c = path_join (cfg_deps_dir c) ''bin/stwo-run-and-prove''"

definition runner_bin :: "config \<Rightarrow> string" where
  "runner_bin c = path_join (cfg_deps_dir c) ''sequencer/target/release/starknet_transaction_prover''"

definition bootloader_program :: "config \<Rightarrow> string" where
  "bootloader_program c = path_join (cfg_deps_dir c) ''bin/bootloader_program.json''"

definition prover_params :: "config \<Rightarrow> string" where
  "prover_params c = path_join (cfg_project_dir c) ''sample-input/prover_params.json''"

definition contracts_dir :: "config \<Rightarrow> string" where
  "contracts_dir c = path_join (cfg_project_dir c) ''tests/contracts''"

definition sncast_account :: "environment \<Rightarrow> string" where
  "sncast_account env = unwrap_or (env ''SNCAST_ACCOUNT'') ''playground-master''"

section \<open>The chain id\<close>

lemma chain_id_value:
  assumes "felt_bytes_laws X val" "length s \<le> 31"
  shows "val (chain_id_felt X s) = be_nat s"
    and "val (x_from_bytes_be X (replicate (32 - length s) (char_of (0 :: nat)) @ s)) = be_nat s"
proof -
  have "be_nat s < 256 ^ length s" by (rule be_nat_lt)
  also have "\<dots> \<le> 256 ^ 31" using assms(2) by (intro power_increasing) simp_all
  also have "\<dots> < felt_prime" by (simp add: felt_prime_def)
  finally have small: "be_nat s mod felt_prime = be_nat s" by simp
  then show "val (chain_id_felt X s) = be_nat s"
    using assms(1) by (simp add: chain_id_felt_def felt_bytes_laws_def)
  show "val (x_from_bytes_be X (replicate (32 - length s) (char_of (0 :: nat)) @ s)) = be_nat s"
    using assms small by (simp add: felt_bytes_laws_def)
qed

theorem config_chain_id_matches_signing:
  assumes "felt_bytes_laws X val"
  shows "(case config_chain_id_felt X c of
            Inr a \<Rightarrow> length (cfg_chain_id c) \<le> 31 \<and> val a = be_nat (cfg_chain_id c) \<and>
                     val (chain_id_felt X (cfg_chain_id c)) = val a
          | Inl e \<Rightarrow> 31 < length (cfg_chain_id c) \<and> (\<exists>m. e = InvalidChainId m))"
  using chain_id_value [OF assms, of "cfg_chain_id c"]
  by (simp add: config_chain_id_felt_def Let_def)

definition sample_config :: config where
  "sample_config =
     \<lparr>cfg_rpc_url = ''http://node'', cfg_account_address = ''0x1'', cfg_private_key = ''0x2'',
      cfg_chain_id = ''SN_MAIN'', cfg_gateway_url = None, cfg_project_dir = ''.'',
      cfg_output_dir = ''./output'', cfg_deps_dir = ''./deps''\<rparr>"

theorem config_chain_id_matches_signing_witness:
  "ref_val (chain_id_felt ref_ext ''SN_MAIN'') = 0x534e5f4d41494e"
proof -
  have "config_chain_id_felt ref_ext sample_config = Inr (be_nat ''SN_MAIN'' mod felt_prime)"
    by (simp add: config_chain_id_felt_def sample_config_def ref_ext_def)
  with config_chain_id_matches_signing [OF ref_bytes_laws, of sample_config]
  have "ref_val (chain_id_felt ref_ext ''SN_MAIN'') = be_nat ''SN_MAIN''"
    by (simp add: sample_config_def)
  then show ?thesis by (simp add: be_nat_def)
qed

section \<open>Which variables decide\<close>

theorem from_env_required_variables:
  "let env = load_env H env_file
   in case from_env H env_file of
        Inr c \<Rightarrow> env ''STARKNET_RPC_URL'' = Some (cfg_rpc_url c) \<and>
                 or_else (env ''STARKNET_ACCOUNT_ADDRESS'') (env ''MASTER_ACCOUNT_ADDRESS'') = Some (cfg_account_address c) \<and>
                 or_else (env ''STARKNET_PRIVATE_KEY'') (env ''MASTER_PRIVATE_KEY'') = Some (cfg_private_key c) \<and>
                 cfg_gateway_url c \<noteq> Some [] \<and>
                 cfg_output_dir c = path_join (cfg_project_dir c) ''output''
      | Inl e \<Rightarrow> (\<exists>v \<in> {''STARKNET_RPC_URL'', ''STARKNET_ACCOUNT_ADDRESS'', ''STARKNET_PRIVATE_KEY''}.
                   e = Missing v \<and> env v = None)"
  by (cases "env_file"; cases "load_env H env_file ''STARKNET_GATEWAY_URL''")
    (auto simp: from_env_def Let_def result_simps split: sum.splits if_splits)

end
