(* ===== verification/Proof_Codec.thy ===== *)
theory Proof_Codec
  imports Externals
begin

text \<open>
  Proof encoding, \<open>crates/snip36-core/src/proof.rs\<close>. \<open>cairo_serde_to_base64\<close> is the loop that
  packs the legacy JSON proof: each felt keeps its low 32 bits, big-endian. The lemmas show what
  the packed bytes are, that decoding gives them back, and which input is refused.
\<close>

datatype proof_error = Base64Decode string | InvalidFelt string | InvalidJson string

fun proof_error_display :: "proof_error \<Rightarrow> string" where
  "proof_error_display (Base64Decode e) = ''base64 decode error: '' @ e"
| "proof_error_display (InvalidFelt e) = ''invalid felt value: '' @ e"
| "proof_error_display (InvalidJson e) = ''invalid JSON: '' @ e"

definition decode_proof_base64 :: "('f, 'x) ext_scheme \<Rightarrow> string \<Rightarrow> proof_error + string" where
  "decode_proof_base64 X b64 = map_err Base64Decode (x_b64_decode X (trim b64))"

definition encode_proof_base64 :: "('f, 'x) ext_scheme \<Rightarrow> string \<Rightarrow> string" where
  "encode_proof_base64 X bs = x_b64_encode X bs"

definition u32_from_be_bytes :: "string \<Rightarrow> u32" where
  "u32_from_be_bytes bs = word_of_nat (be_nat bs)"

definition u32_to_be_bytes :: "u32 \<Rightarrow> string" where
  "u32_to_be_bytes n = be_bytes 4 (unat n)"

fun pack_felts :: "('f, 'x) ext_scheme \<Rightarrow> string \<Rightarrow> string list \<Rightarrow> proof_error + string" where
  "pack_felts X packed [] = Inr packed"
| "pack_felts X packed (felt_hex # felts) =
     bindR (map_err (\<lambda>e. InvalidFelt (felt_hex @ '': '' @ e)) (x_from_hex X felt_hex)) (\<lambda>felt.
       let bytes = x_to_bytes_be X felt;
           u32_val = u32_from_be_bytes [bytes ! 28, bytes ! 29, bytes ! 30, bytes ! 31]
       in pack_felts X (packed @ u32_to_be_bytes u32_val) felts)"

definition cairo_serde_to_base64 :: "('f, 'x) ext_scheme \<Rightarrow> string list \<Rightarrow> proof_error + string" where
  "cairo_serde_to_base64 X felts = map_ok (encode_proof_base64 X) (pack_felts X [] felts)"

definition parse_proof_facts_json :: "('f, 'x) ext_scheme \<Rightarrow> string \<Rightarrow> proof_error + string list" where
  "parse_proof_facts_json X json_str = map_err InvalidJson (x_vec_string_parse X json_str)"

section \<open>What is packed\<close>

lemma u32_be_roundtrip: "length bs = 4 \<Longrightarrow> u32_to_be_bytes (u32_from_be_bytes bs) = bs"
proof -
  assume len: "length bs = 4"
  have "be_nat bs < 256 ^ length bs" by (rule be_nat_lt)
  with len have "unat (word_of_nat (be_nat bs) :: u32) = be_nat bs"
    by (simp add: unsigned_of_nat take_bit_nat_eq_self)
  then show ?thesis
    using be_bytes_be_nat [of bs] len by (simp add: u32_from_be_bytes_def u32_to_be_bytes_def)
qed

lemma last_four: "length bs = 32 \<Longrightarrow> bs = take 28 bs @ [bs ! 28, bs ! 29, bs ! 30, bs ! 31]"
proof -
  assume len: "length bs = 32"
  have "drop 28 bs = [bs ! 28, bs ! 29, bs ! 30, bs ! 31]"
    using len by (intro nth_equalityI) (auto simp: nth_Cons' less_Suc_eq numeral_eq_Suc)
  then show ?thesis by (metis append_take_drop_id)
qed

lemma low_word:
  assumes "felt_bytes_laws X val"
  shows "let bs = x_to_bytes_be X a
         in u32_to_be_bytes (u32_from_be_bytes [bs ! 28, bs ! 29, bs ! 30, bs ! 31])
            = be_bytes 4 (val a mod 2 ^ 32)"
proof -
  define bs where "bs = x_to_bytes_be X a"
  define t where "t = [bs ! 28, bs ! 29, bs ! 30, bs ! 31]"
  have len: "length bs = 32" and v: "be_nat bs = val a"
    using assms by (auto simp: felt_bytes_laws_def bs_def)
  have "bs = take 28 bs @ t" using last_four [OF len] by (simp add: t_def)
  then have "be_nat bs = be_nat (take 28 bs) * 256 ^ 4 + be_nat t"
    using be_nat_append [of "take 28 bs" t] by (simp add: t_def)
  moreover have "be_nat t < 256 ^ 4" using be_nat_lt [of t] by (simp add: t_def)
  ultimately have "val a mod 2 ^ 32 = be_nat t" using v by (simp add: mod_mult_self3)
  moreover have "be_bytes 4 (be_nat t) = t"
  proof -
    have "length t = 4" by (simp add: t_def)
    then show ?thesis using be_bytes_be_nat [of t] by simp
  qed
  moreover have "u32_to_be_bytes (u32_from_be_bytes t) = t" by (rule u32_be_roundtrip) (simp add: t_def)
  ultimately show ?thesis by (simp add: Let_def flip: bs_def t_def)
qed

lemma pack_felts_Inr:
  assumes "felt_bytes_laws X val"
  shows "pack_felts X packed hexes = Inr bs \<longleftrightarrow>
     (\<exists>fs. map (x_from_hex X) hexes = map Inr fs \<and>
           bs = packed @ concat (map (\<lambda>a. be_bytes 4 (val a mod 2 ^ 32)) fs))"
proof (induction hexes arbitrary: packed)
  case Nil
  then show ?case by auto
next
  case (Cons h hexes)
  show ?case
  proof (cases "x_from_hex X h")
    case (Inl e)
    then show ?thesis by auto
  next
    case (Inr a)
    with low_word [OF assms, of a] show ?thesis
      by (auto simp: Let_def Cons.IH Cons_eq_map_conv)
  qed
qed

lemma pack_felts_Inl:
  "pack_felts X packed hexes = Inl d \<longleftrightarrow>
     (\<exists>pre h post e. hexes = pre @ h # post \<and> (\<forall>g \<in> set pre. is_ok (x_from_hex X g)) \<and>
        x_from_hex X h = Inl e \<and> d = InvalidFelt (h @ '': '' @ e))"
proof (induction hexes arbitrary: packed)
  case Nil
  then show ?case by simp
next
  case (Cons g hexes)
  show ?case (is "_ \<longleftrightarrow> ?R")
  proof (cases "x_from_hex X g")
    case (Inl e)
    have "?R \<longleftrightarrow> d = InvalidFelt (g @ '': '' @ e)"
    proof
      assume ?R
      then obtain pre h post e' where r: "g # hexes = pre @ h # post" "\<forall>g \<in> set pre. is_ok (x_from_hex X g)"
        "x_from_hex X h = Inl e'" "d = InvalidFelt (h @ '': '' @ e')" by blast
      with Inl show "d = InvalidFelt (g @ '': '' @ e)" by (cases pre) auto
    next
      assume "d = InvalidFelt (g @ '': '' @ e)"
      with Inl show ?R
        by - (rule exI [of _ "[]"], rule exI [of _ g], rule exI [of _ hexes], rule exI [of _ e], simp)
    qed
    with Inl show ?thesis by auto
  next
    case (Inr a)
    have "?R \<longleftrightarrow> (\<exists>pre h post e. hexes = pre @ h # post \<and> (\<forall>g \<in> set pre. is_ok (x_from_hex X g)) \<and>
        x_from_hex X h = Inl e \<and> d = InvalidFelt (h @ '': '' @ e))" (is "_ \<longleftrightarrow> ?R'")
    proof
      assume ?R
      then obtain pre h post e' where r: "g # hexes = pre @ h # post" "\<forall>g \<in> set pre. is_ok (x_from_hex X g)"
        "x_from_hex X h = Inl e'" "d = InvalidFelt (h @ '': '' @ e')" by blast
      with Inr obtain pre' where "pre = g # pre'" by (cases pre) auto
      with r show ?R'
        by - (rule exI [of _ pre'], rule exI [of _ h], rule exI [of _ post], rule exI [of _ e'], simp)
    next
      assume ?R'
      then obtain pre h post e where "hexes = pre @ h # post" "\<forall>g \<in> set pre. is_ok (x_from_hex X g)"
        "x_from_hex X h = Inl e" "d = InvalidFelt (h @ '': '' @ e)" by blast
      with Inr show ?R
        by - (rule exI [of _ "g # pre"], rule exI [of _ h], rule exI [of _ post], rule exI [of _ e], simp)
    qed
    with Inr show ?thesis by (simp add: Let_def Cons.IH)
  qed
qed

text \<open>C30. What cairo_serde_to_base64 returns decodes to the concatenation of the low 32 bits of each felt, big-endian, four bytes per felt.\<close>
theorem cairo_serde_decodes:
  assumes "felt_bytes_laws X val" and "base64_laws X" and "cairo_serde_to_base64 X hexes = Inr b64"
  shows "\<exists>fs. map (x_from_hex X) hexes = map Inr fs \<and>
           decode_proof_base64 X b64 = Inr (concat (map (\<lambda>a. be_bytes 4 (val a mod 2 ^ 32)) fs))"
proof -
  from assms(3) obtain bs where p: "pack_felts X [] hexes = Inr bs" and b: "b64 = x_b64_encode X bs"
    by (auto simp: cairo_serde_to_base64_def encode_proof_base64_def map_ok_Inr_iff)
  from p obtain fs where "map (x_from_hex X) hexes = map Inr fs"
      "bs = concat (map (\<lambda>a. be_bytes 4 (val a mod 2 ^ 32)) fs)"
    by (auto simp: pack_felts_Inr [OF assms(1)])
  with b assms(2) show ?thesis
    by (intro exI [of _ fs]) (simp add: decode_proof_base64_def base64_laws_def)
qed

theorem cairo_serde_decodes_witness:
  "\<exists>b64 fs. cairo_serde_to_base64 ref_ext [''0x1'', ''0x100000000''] = Inr b64 \<and>
     decode_proof_base64 ref_ext b64 = Inr (concat (map (\<lambda>a. be_bytes 4 (ref_val a mod 2 ^ 32)) fs)) \<and>
     fs = [1, 0x100000000]"
proof -
  have h: "ref_from_hex ''0x1'' = Inr 1" "ref_from_hex ''0x100000000'' = Inr 0x100000000"
    by (simp_all add: ref_from_hex_def hex_val_def)
  then have "map (x_from_hex ref_ext) [''0x1'', ''0x100000000''] = map Inr [1, 0x100000000]"
    by (simp add: ref_ext_def)
  then have "is_ok (pack_felts ref_ext [] [''0x1'', ''0x100000000''])"
    unfolding is_ok_iff pack_felts_Inr [OF ref_bytes_laws] by blast
  then obtain b64 where b: "cairo_serde_to_base64 ref_ext [''0x1'', ''0x100000000''] = Inr b64"
    by (auto simp: cairo_serde_to_base64_def is_ok_iff)
  from cairo_serde_decodes [OF ref_bytes_laws ref_base64_laws b] obtain fs where
    fs: "map (x_from_hex ref_ext) [''0x1'', ''0x100000000''] = map Inr fs"
      "decode_proof_base64 ref_ext b64 = Inr (concat (map (\<lambda>a. be_bytes 4 (ref_val a mod 2 ^ 32)) fs))"
    by blast
  from fs(1) h have "fs = [1, 0x100000000]" by (auto simp: ref_ext_def Cons_eq_map_conv)
  with b fs(2) show ?thesis by blast
qed

theorem cairo_serde_rejects_first_bad_felt:
  "cairo_serde_to_base64 X hexes = Inl d \<longleftrightarrow>
     (\<exists>pre h post e. hexes = pre @ h # post \<and> list_all (\<lambda>g. is_ok (x_from_hex X g)) pre \<and>
        x_from_hex X h = Inl e \<and> d = InvalidFelt (h @ '': '' @ e))"
  by (simp add: cairo_serde_to_base64_def pack_felts_Inl list_all_iff)

end
