(* ===== verification/Storage_Query.thy ===== *)
theory Storage_Query
  imports Externals
begin

text \<open>
  Splitting a storage-proof query and merging the answers:
  \<open>count_total_keys\<close>, \<open>flatten_query\<close>, \<open>collect_query\<close>, \<open>split_query\<close>, \<open>merge_storage_proofs\<close> of
  \<open>starknet_transaction_prover/src/running/storage_proofs.rs\<close>. A panic (\<open>assert!\<close>, \<open>expect\<close>) is
  the value \<open>None\<close>; an \<open>IndexMap\<close> is an association list. The lemmas show that the chunks
  respect the limit and lose no key, and that merging honest answers to the chunks gives an
  honest answer to the whole query.
\<close>

datatype 'f merkle_node = BinaryNode 'f 'f | EdgeNode 'f u64 'f

type_synonym 'f node_map = "('f \<times> 'f merkle_node) list"

record 'f contract_leaf =
  leaf_nonce :: 'f
  leaf_class_hash :: 'f
  leaf_storage_root :: "'f option"

record 'f global_roots =
  contracts_tree_root :: 'f
  classes_tree_root :: 'f
  roots_block_hash :: 'f

record 'f rpc_storage_proof =
  rp_classes_proof :: "'f node_map"
  rp_contract_nodes :: "'f node_map"
  rp_contract_leaves :: "'f contract_leaf list"
  rp_storage_proofs :: "'f node_map list"
  rp_global_roots :: "'f global_roots"

record 'f contract_storage_keys =
  csk_address :: 'f
  csk_keys :: "'f list"

record 'f storage_query =
  q_class_hashes :: "'f list"
  q_contract_addresses :: "'f list"
  q_contract_storage_keys :: "'f contract_storage_keys list"

datatype 'f query_item = QClassHash 'f | QContractAddress 'f | QStorageKey 'f 'f

section \<open>Counting, flattening, collecting, splitting\<close>

definition count_total_keys :: "'f storage_query \<Rightarrow> nat" where
  "count_total_keys q =
     length (q_class_hashes q) + length (q_contract_addresses q)
     + sum_list (map (\<lambda>csk. length (csk_keys csk)) (q_contract_storage_keys q))"

definition flatten_csks :: "'f contract_storage_keys list \<Rightarrow> 'f query_item list" where
  "flatten_csks csks = concat (map (\<lambda>csk. map (QStorageKey (csk_address csk)) (csk_keys csk)) csks)"

definition flatten_query :: "'f storage_query \<Rightarrow> 'f query_item list" where
  "flatten_query q =
     map QClassHash (q_class_hashes q) @ map QContractAddress (q_contract_addresses q)
     @ flatten_csks (q_contract_storage_keys q)"

definition empty_query :: "'f storage_query" where
  "empty_query = \<lparr>q_class_hashes = [], q_contract_addresses = [], q_contract_storage_keys = []\<rparr>"

definition push_storage_key :: "'f \<Rightarrow> 'f \<Rightarrow> 'f contract_storage_keys list \<Rightarrow> 'f contract_storage_keys list" where
  "push_storage_key a k csks =
     (if csks \<noteq> [] \<and> csk_address (last csks) = a
      then butlast csks @ [(last csks)\<lparr>csk_keys := csk_keys (last csks) @ [k]\<rparr>]
      else csks @ [\<lparr>csk_address = a, csk_keys = [k]\<rparr>])"

fun collect_item :: "'f storage_query \<Rightarrow> 'f query_item \<Rightarrow> 'f storage_query" where
  "collect_item q (QClassHash h) = q\<lparr>q_class_hashes := q_class_hashes q @ [h]\<rparr>"
| "collect_item q (QContractAddress a) = q\<lparr>q_contract_addresses := q_contract_addresses q @ [a]\<rparr>"
| "collect_item q (QStorageKey a k) =
     q\<lparr>q_contract_storage_keys := push_storage_key a k (q_contract_storage_keys q)\<rparr>"

definition collect_query :: "'f query_item list \<Rightarrow> 'f storage_query" where
  "collect_query items = foldl collect_item empty_query items"

text \<open>\<open>slice::chunks\<close>.\<close>

function chunks :: "nat \<Rightarrow> 'a list \<Rightarrow> 'a list list" where
  "chunks n xs = (if n = 0 \<or> xs = [] then [] else take n xs # chunks n (drop n xs))"
  by pat_completeness auto
termination by (relation "measure (\<lambda>(n, xs). length xs)") auto

declare chunks.simps [simp del]

definition split_query :: "'f storage_query \<Rightarrow> nat \<Rightarrow> 'f storage_query list option" where
  "split_query q max_keys =
     (if max_keys = 0 then None else Some (map collect_query (chunks max_keys (flatten_query q))))"

section \<open>Merging\<close>

definition addr_index :: "'f contract_storage_keys list \<Rightarrow> 'f \<rightharpoonup> nat" where
  "addr_index csks = map_of (rev (zip (map csk_address csks) [0..<length csks]))"

fun merge_tries ::
  "('f \<rightharpoonup> nat) \<Rightarrow> ('f contract_storage_keys \<times> 'f node_map) list \<Rightarrow> 'f node_map list \<Rightarrow> 'f node_map list option"
where
  "merge_tries idx [] acc = Some acc"
| "merge_tries idx ((csk, sp) # rest) acc =
     (case idx (csk_address csk) of
        None \<Rightarrow> None
      | Some i \<Rightarrow> merge_tries idx rest (acc[i := im_extend (acc ! i) sp]))"

fun merge_loop ::
  "('f \<rightharpoonup> nat) \<Rightarrow> ('f storage_query \<times> 'f rpc_storage_proof) list \<Rightarrow> 'f rpc_storage_proof \<Rightarrow> 'f rpc_storage_proof option"
where
  "merge_loop idx [] acc = Some acc"
| "merge_loop idx ((cq, p) # rest) acc =
     Option.bind (merge_tries idx (zip (q_contract_storage_keys cq) (rp_storage_proofs p)) (rp_storage_proofs acc))
       (\<lambda>sps. merge_loop idx rest
          (acc\<lparr>rp_classes_proof := im_extend (rp_classes_proof acc) (rp_classes_proof p),
               rp_contract_nodes := im_extend (rp_contract_nodes acc) (rp_contract_nodes p),
               rp_contract_leaves := rp_contract_leaves acc @ rp_contract_leaves p,
               rp_storage_proofs := sps\<rparr>))"

definition merge_storage_proofs ::
  "'f rpc_storage_proof list \<Rightarrow> 'f storage_query list \<Rightarrow> 'f storage_query \<Rightarrow> 'f rpc_storage_proof option"
where
  "merge_storage_proofs proofs split_queries original =
     (if length proofs \<noteq> length split_queries \<or> proofs = [] then None
      else merge_loop (addr_index (q_contract_storage_keys original)) (zip split_queries proofs)
             \<lparr>rp_classes_proof = [], rp_contract_nodes = [], rp_contract_leaves = [],
              rp_storage_proofs = replicate (length (q_contract_storage_keys original)) [],
              rp_global_roots = rp_global_roots (hd proofs)\<rparr>)"

section \<open>Chunks lose nothing\<close>

fun item_rank :: "'f query_item \<Rightarrow> nat" where
  "item_rank (QClassHash h) = 0"
| "item_rank (QContractAddress a) = 1"
| "item_rank (QStorageKey a k) = 2"

definition of_rank :: "nat \<Rightarrow> 'f query_item list \<Rightarrow> 'f query_item list" where
  "of_rank r items = filter (\<lambda>x. item_rank x = r) items"

lemma of_rank_simps [simp]:
  "of_rank r [] = []"
  "of_rank r (x # xs) = (if item_rank x = r then x # of_rank r xs else of_rank r xs)"
  "of_rank r (xs @ ys) = of_rank r xs @ of_rank r ys"
  by (simp_all add: of_rank_def)

lemma item_rank_le [simp]: "item_rank x \<le> 2"
  by (cases x) simp_all

lemma of_rank_sorted: "sorted (map item_rank xs) \<Longrightarrow> of_rank 0 xs @ of_rank 1 xs @ of_rank 2 xs = xs"
proof (induction xs)
  case Nil
  then show ?case by simp
next
  case (Cons x xs)
  have none: "r < item_rank x \<Longrightarrow> of_rank r xs = []" for r
    using Cons.prems by (fastforce simp: of_rank_def filter_empty_conv)
  with Cons show ?case by (cases x) auto
qed

lemma length_of_rank: "length (of_rank 0 xs) + length (of_rank 1 xs) + length (of_rank 2 xs) = length xs"
proof (induction xs)
  case Nil
  then show ?case by simp
next
  case (Cons x xs)
  then show ?case by (cases x) auto
qed

lemma flatten_csks_append [simp]: "flatten_csks (xs @ ys) = flatten_csks xs @ flatten_csks ys"
  by (simp add: flatten_csks_def)

lemma flatten_csks_one: "flatten_csks [csk] = map (QStorageKey (csk_address csk)) (csk_keys csk)"
  by (simp add: flatten_csks_def)

lemma flatten_push_storage_key:
  "flatten_csks (push_storage_key a k csks) = flatten_csks csks @ [QStorageKey a k]"
proof (cases "csks \<noteq> [] \<and> csk_address (last csks) = a")
  case True
  then have "flatten_csks csks = flatten_csks (butlast csks) @ flatten_csks [last csks]"
    by (metis append_butlast_last_id flatten_csks_append)
  with True show ?thesis by (simp add: push_storage_key_def flatten_csks_one)
next
  case False
  then show ?thesis by (auto simp: push_storage_key_def flatten_csks_one)
qed

lemma collect_query_snoc: "collect_query (items @ [x]) = collect_item (collect_query items) x"
  by (simp add: collect_query_def)

lemma collect_query_parts:
  "map QClassHash (q_class_hashes (collect_query items)) = of_rank 0 items \<and>
   map QContractAddress (q_contract_addresses (collect_query items)) = of_rank 1 items \<and>
   flatten_csks (q_contract_storage_keys (collect_query items)) = of_rank 2 items"
proof (induction items rule: rev_induct)
  case Nil
  then show ?case by (simp add: collect_query_def empty_query_def flatten_csks_def)
next
  case (snoc x items)
  then show ?case by (cases x) (auto simp: collect_query_snoc flatten_push_storage_key)
qed

lemma flatten_collect: "sorted (map item_rank items) \<Longrightarrow> flatten_query (collect_query items) = items"
  using collect_query_parts [of items] of_rank_sorted [of items] by (simp add: flatten_query_def)

lemma length_flatten_csks: "length (flatten_csks csks) = sum_list (map (\<lambda>csk. length (csk_keys csk)) csks)"
  by (induction csks) (simp_all add: flatten_csks_def)

lemma count_flatten: "count_total_keys q = length (flatten_query q)"
  by (simp add: count_total_keys_def flatten_query_def length_flatten_csks)

lemma sorted_flatten:
  fixes q :: "'f storage_query"
  shows "sorted (map item_rank (flatten_query q))"
proof -
  have "map item_rank (flatten_csks csks) = replicate (length (flatten_csks csks)) 2" for csks :: "'f contract_storage_keys list"
    by (induction csks) (simp_all add: flatten_csks_def comp_def map_replicate_const replicate_add)
  moreover have "item_rank x = 2" if "x \<in> set (flatten_csks csks)" for x and csks :: "'f contract_storage_keys list"
    using that by (auto simp: flatten_csks_def)
  ultimately show ?thesis
    by (auto simp: flatten_query_def sorted_append comp_def map_replicate_const)
qed

lemma concat_chunks: "0 < n \<Longrightarrow> concat (chunks n xs) = xs"
proof (induction n xs rule: chunks.induct)
  case (1 n xs)
  then show ?case by (subst chunks.simps) simp
qed

lemma chunks_size: "c \<in> set (chunks n xs) \<Longrightarrow> c \<noteq> [] \<and> length c \<le> n"
proof (induction n xs rule: chunks.induct)
  case (1 n xs)
  show ?case
  proof (cases "n = 0 \<or> xs = []")
    case True
    with 1(2) show ?thesis by (simp add: chunks.simps [of n xs])
  next
    case False
    with 1 show ?thesis by (auto simp: chunks.simps [of n xs])
  qed
qed

lemma chunks_sorted: "sorted (map f xs) \<Longrightarrow> c \<in> set (chunks n xs) \<Longrightarrow> sorted (map f c)"
proof (induction n xs rule: chunks.induct)
  case (1 n xs)
  show ?case
  proof (cases "n = 0 \<or> xs = []")
    case True
    with 1(3) show ?thesis by (simp add: chunks.simps [of n xs])
  next
    case False
    from 1(2) have "sorted (map f (take n xs))" "sorted (map f (drop n xs))"
      by (simp_all add: take_map [symmetric] drop_map [symmetric] sorted_wrt_take sorted_wrt_drop)
    with 1(1) [OF False] 1(3) False show ?thesis by (auto simp: chunks.simps [of n xs])
  qed
qed

lemma chunks_count: "length (chunks n xs) * n \<le> length xs + (n - 1)"
proof (induction n xs rule: chunks.induct)
  case (1 n xs)
  show ?case
  proof (cases "n = 0 \<or> xs = []")
    case True
    then show ?thesis by (auto simp: chunks.simps [of n xs])
  next
    case False
    with 1 have ih: "length (chunks n (drop n xs)) * n \<le> length xs - n + (n - 1)" by simp
    have "length (chunks n xs) * n = n + length (chunks n (drop n xs)) * n"
      using False by (simp add: chunks.simps [of n xs])
    moreover have "chunks n (drop n xs) = []" if "length xs \<le> n" using that by (simp add: chunks.simps)
    moreover have "0 < length xs" "0 < n" using False by simp_all
    ultimately show ?thesis using ih by (cases "length xs \<le> n") (simp_all del: length_greater_0_conv)
  qed
qed

lemma split_query_flatten:
  assumes "split_query q n = Some cs"
  shows "map flatten_query cs = chunks n (flatten_query q)"
proof -
  from assms have "cs = map collect_query (chunks n (flatten_query q))"
    by (simp add: split_query_def split: if_splits)
  then show ?thesis
    by (auto simp: comp_def intro!: map_idI flatten_collect elim: chunks_sorted [OF sorted_flatten])
qed

text \<open>C26. Splitting a query gives non-empty chunks of at most max_keys keys whose flattened items, in order, are those of the query, and no more chunks than needed.\<close>
theorem split_query_within_limit:
  assumes "0 < max_keys"
  shows "\<exists>cs. split_query q max_keys = Some cs \<and> concat (map flatten_query cs) = flatten_query q \<and>
           list_all (\<lambda>c. 0 < count_total_keys c \<and> count_total_keys c \<le> max_keys) cs \<and>
           length cs * max_keys < count_total_keys q + max_keys"
proof -
  obtain cs where cs: "split_query q max_keys = Some cs" using assms by (simp add: split_query_def)
  note fl = split_query_flatten [OF cs]
  have "count_total_keys c \<noteq> 0 \<and> count_total_keys c \<le> max_keys" if "c \<in> set cs" for c
  proof -
    from that have "flatten_query c \<in> set (map flatten_query cs)" by simp
    then have "flatten_query c \<in> set (chunks max_keys (flatten_query q))" by (simp only: fl)
    then show ?thesis by (auto simp: count_flatten dest: chunks_size)
  qed
  moreover have "length cs * max_keys < count_total_keys q + max_keys"
  proof -
    have "length cs = length (chunks max_keys (flatten_query q))" using fl by (metis length_map)
    then have "length cs * max_keys \<le> length (flatten_query q) + (max_keys - 1)"
      using chunks_count [of max_keys "flatten_query q"] by simp
    with assms show ?thesis by (simp add: count_flatten)
  qed
  ultimately show ?thesis using cs fl assms by (auto simp: concat_chunks list_all_iff)
qed

definition sample_query :: "nat storage_query" where
  "sample_query =
     \<lparr>q_class_hashes = [7], q_contract_addresses = [1, 2],
      q_contract_storage_keys = [\<lparr>csk_address = 1, csk_keys = [10, 11]\<rparr>, \<lparr>csk_address = 2, csk_keys = []\<rparr>]\<rparr>"

theorem split_query_within_limit_witness:
  "\<exists>cs. split_query sample_query 2 = Some cs \<and> concat (map flatten_query cs) = flatten_query sample_query \<and>
      length cs \<le> 3"
proof -
  have "count_total_keys sample_query = 5" by (simp add: count_total_keys_def sample_query_def)
  with split_query_within_limit [of 2 sample_query] show ?thesis by auto
qed

section \<open>Merging honest answers\<close>

text \<open>
  What an honest node knows at one block: the node behind each hash, the hashes on the path to
  each key in the three kinds of tries, the leaves of the contracts and the roots. An honest
  answer to a query holds exactly the nodes on the paths of the keys asked for.
\<close>

record 'f tries =
  tr_node :: "'f \<rightharpoonup> 'f merkle_node"
  tr_class_path :: "'f \<Rightarrow> 'f set"
  tr_contract_path :: "'f \<Rightarrow> 'f set"
  tr_storage_path :: "'f \<Rightarrow> 'f \<Rightarrow> 'f set"
  tr_leaf :: "'f \<Rightarrow> 'f contract_leaf"
  tr_roots :: "'f global_roots"

definition nodes_on :: "'f tries \<Rightarrow> 'f set \<Rightarrow> 'f node_map \<Rightarrow> bool" where
  "nodes_on T hs m \<longleftrightarrow> distinct (map fst m) \<and> map_of m = tr_node T |` hs"

definition storage_nodes :: "'f tries \<Rightarrow> 'f \<Rightarrow> 'f query_item set \<Rightarrow> 'f set" where
  "storage_nodes T a D = (\<Union>k \<in> {k. QStorageKey a k \<in> D}. tr_storage_path T a k)"

definition honest_items ::
  "'f tries \<Rightarrow> 'f contract_storage_keys list \<Rightarrow> 'f query_item list \<Rightarrow> 'f rpc_storage_proof \<Rightarrow> bool"
where
  "honest_items T csks D p \<longleftrightarrow>
     nodes_on T (\<Union>h \<in> {h. QClassHash h \<in> set D}. tr_class_path T h) (rp_classes_proof p) \<and>
     nodes_on T (\<Union>a \<in> {a. QContractAddress a \<in> set D}. tr_contract_path T a) (rp_contract_nodes p) \<and>
     rp_contract_leaves p = concat (map (\<lambda>x. case x of QContractAddress a \<Rightarrow> [tr_leaf T a] | _ \<Rightarrow> []) D) \<and>
     list_all2 (\<lambda>csk m. nodes_on T (storage_nodes T (csk_address csk) (set D)) m) csks (rp_storage_proofs p) \<and>
     rp_global_roots p = tr_roots T"

definition honest_answer :: "'f tries \<Rightarrow> 'f storage_query \<Rightarrow> 'f rpc_storage_proof \<Rightarrow> bool" where
  "honest_answer T q p \<longleftrightarrow>
     nodes_on T (\<Union>h \<in> set (q_class_hashes q). tr_class_path T h) (rp_classes_proof p) \<and>
     nodes_on T (\<Union>a \<in> set (q_contract_addresses q). tr_contract_path T a) (rp_contract_nodes p) \<and>
     rp_contract_leaves p = map (tr_leaf T) (q_contract_addresses q) \<and>
     list_all2 (\<lambda>csk m. nodes_on T (\<Union>k \<in> set (csk_keys csk). tr_storage_path T (csk_address csk) k) m)
       (q_contract_storage_keys q) (rp_storage_proofs p) \<and>
     rp_global_roots p = tr_roots T"

lemma nodes_on_extend: "nodes_on T A m \<Longrightarrow> nodes_on T B n \<Longrightarrow> nodes_on T (A \<union> B) (im_extend m n)"
proof -
  assume m: "nodes_on T A m" and n: "nodes_on T B n"
  then have "map_of (rev n) = map_of n"
    by (intro map_of_inject_set [THEN iffD2]) (simp_all add: nodes_on_def rev_map [symmetric])
  with m n show ?thesis
    by (auto simp: nodes_on_def distinct_im_extend map_of_im_extend restrict_map_def map_add_def fun_eq_iff
        split: option.splits)
qed

lemma nodes_on_Nil: "nodes_on T {} []"
  by (simp add: nodes_on_def)

lemma addr_index_distinct:
  assumes "distinct (map csk_address csks)" "i < length csks"
  shows "addr_index csks (csk_address (csks ! i)) = Some i"
proof -
  let ?z = "zip (map csk_address csks) [0..<length csks]"
  have d: "distinct (map fst (rev ?z))" using assms(1) by (simp add: rev_map [symmetric])
  have "(csk_address (csks ! i), i) \<in> set (rev ?z)"
    using assms(2) by (force simp: in_set_zip)
  with d show ?thesis by (simp add: addr_index_def map_of_eq_Some_iff)
qed

lemma flatten_csks_mem: "QStorageKey a k \<in> set (flatten_csks csks) \<longleftrightarrow> (\<exists>csk \<in> set csks. csk_address csk = a \<and> k \<in> set (csk_keys csk))"
  by (auto simp: flatten_csks_def)

lemma flatten_csks_not_class [simp]:
  "QClassHash h \<notin> set (flatten_csks csks)" "QContractAddress h \<notin> set (flatten_csks csks)"
  by (auto simp: flatten_csks_def)

lemma flatten_query_mem:
  "QClassHash h \<in> set (flatten_query q) \<longleftrightarrow> h \<in> set (q_class_hashes q)"
  "QContractAddress h \<in> set (flatten_query q) \<longleftrightarrow> h \<in> set (q_contract_addresses q)"
  "QStorageKey a k \<in> set (flatten_query q) \<longleftrightarrow> QStorageKey a k \<in> set (flatten_csks (q_contract_storage_keys q))"
  by (auto simp: flatten_query_def)

lemma flatten_query_leaves:
  "concat (map (\<lambda>x. case x of QContractAddress a \<Rightarrow> [tr_leaf T a] | _ \<Rightarrow> []) (flatten_query q))
   = map (tr_leaf T) (q_contract_addresses q)"
proof -
  have 1: "concat (map (\<lambda>x. case x of QContractAddress a \<Rightarrow> [tr_leaf T a] | _ \<Rightarrow> []) (flatten_csks csks)) = []" for csks
    by (auto simp: flatten_csks_def)
  have 2: "concat (map (\<lambda>x. case x of QContractAddress a \<Rightarrow> [tr_leaf T a] | _ \<Rightarrow> []) (map QContractAddress as))
      = map (tr_leaf T) as" for as
    by (induction as) simp_all
  have 3: "concat (map (\<lambda>x. case x of QContractAddress a \<Rightarrow> [tr_leaf T a] | _ \<Rightarrow> []) (map QClassHash hs)) = []" for hs
    by (induction hs) simp_all
  show ?thesis by (simp only: flatten_query_def map_append concat_append 1 2 3) simp
qed

lemma honest_items_flatten:
  assumes "distinct (map csk_address (q_contract_storage_keys q))"
  shows "honest_items T (q_contract_storage_keys q) (flatten_query q) p \<longleftrightarrow> honest_answer T q p"
proof -
  let ?csks = "q_contract_storage_keys q"
  have uniq: "csk = csk'" if "csk \<in> set ?csks" "csk' \<in> set ?csks" "csk_address csk = csk_address csk'" for csk csk'
    using assms that by (metis distinct_map inj_onD)
  have "storage_nodes T (csk_address csk) (set (flatten_query q))
      = (\<Union>k \<in> set (csk_keys csk). tr_storage_path T (csk_address csk) k)" if "csk \<in> set ?csks" for csk
    using that by (auto simp: storage_nodes_def flatten_query_mem flatten_csks_mem dest: uniq)
  then have "list_all2 (\<lambda>csk m. nodes_on T (storage_nodes T (csk_address csk) (set (flatten_query q))) m) ?csks ms
     \<longleftrightarrow> list_all2 (\<lambda>csk m. nodes_on T (\<Union>k \<in> set (csk_keys csk). tr_storage_path T (csk_address csk) k) m) ?csks ms"
    for ms by (intro list.rel_cong) simp_all
  then show ?thesis
    by (simp add: honest_items_def honest_answer_def flatten_query_mem flatten_query_leaves)
qed

text \<open>One chunk's storage tries, written into the places of the original query.\<close>

lemma storage_nodes_union: "storage_nodes T a (A \<union> B) = storage_nodes T a A \<union> storage_nodes T a B"
  by (auto simp: storage_nodes_def)

lemma merge_tries_honest:
  assumes "distinct (map csk_address csks)"
    and "list_all2 (\<lambda>csk m. nodes_on T (\<Union>k \<in> set (csk_keys csk). tr_storage_path T (csk_address csk) k) m) cs ms"
    and "csk_address ` set cs \<subseteq> csk_address ` set csks"
    and "list_all2 (\<lambda>csk m. nodes_on T (storage_nodes T (csk_address csk) D) m) csks acc"
  shows "\<exists>acc'. merge_tries (addr_index csks) (zip cs ms) acc = Some acc' \<and>
     list_all2 (\<lambda>csk m. nodes_on T (storage_nodes T (csk_address csk) (D \<union> set (flatten_csks cs))) m) csks acc'"
  using assms(2-)
proof (induction cs arbitrary: ms acc D)
  case Nil
  then show ?case by (simp add: flatten_csks_def)
next
  case (Cons c cs)
  from Cons.prems(1) obtain m ms' where ms: "ms = m # ms'"
    and m: "nodes_on T (\<Union>k \<in> set (csk_keys c). tr_storage_path T (csk_address c) k) m"
    and rest: "list_all2 (\<lambda>csk m. nodes_on T (\<Union>k \<in> set (csk_keys csk). tr_storage_path T (csk_address csk) k) m) cs ms'"
    by (auto simp: list_all2_Cons1)
  from Cons.prems(2) have "csk_address c \<in> csk_address ` set csks" by simp
  then obtain i where i: "i < length csks" "csk_address (csks ! i) = csk_address c"
    by (metis (no_types) imageE in_set_conv_nth)
  with addr_index_distinct [OF assms(1), of i] have idx: "addr_index csks (csk_address c) = Some i" by simp
  let ?D = "D \<union> set (flatten_csks [c])" and ?acc = "acc[i := im_extend (acc ! i) m]"
  have one: "storage_nodes T a (set (flatten_csks [c]))
      = (if a = csk_address c then \<Union>k \<in> set (csk_keys c). tr_storage_path T (csk_address c) k else {})" for a
    by (auto simp: storage_nodes_def flatten_csks_mem)
  have len: "length acc = length csks" using Cons.prems(3) by (simp add: list_all2_lengthD)
  have "nodes_on T (storage_nodes T (csk_address (csks ! j)) ?D) (?acc ! j)" if j: "j < length csks" for j
  proof (cases "j = i")
    case True
    have "nodes_on T (storage_nodes T (csk_address c) D) (acc ! i)"
      using Cons.prems(3) i by (metis list_all2_nthD)
    with m have "nodes_on T (storage_nodes T (csk_address c) ?D) (im_extend (acc ! i) m)"
      by (simp only: storage_nodes_union one if_True simp_thms) (rule nodes_on_extend)
    with True i len show ?thesis by simp
  next
    case False
    then have "csk_address (csks ! j) \<noteq> csk_address c"
      using assms(1) i j by (metis distinct_map inj_onD length_map nth_eq_iff_index_eq nth_map)
    then have "storage_nodes T (csk_address (csks ! j)) ?D = storage_nodes T (csk_address (csks ! j)) D"
      by (simp only: storage_nodes_union one if_False Un_empty_right)
    with False Cons.prems(3) j show ?thesis by (simp add: list_all2_conv_all_nth)
  qed
  then have "list_all2 (\<lambda>csk m. nodes_on T (storage_nodes T (csk_address csk) ?D) m) csks ?acc"
    using len by (simp add: list_all2_conv_all_nth)
  from Cons.IH [OF rest _ this] Cons.prems(2) obtain acc' where
    "merge_tries (addr_index csks) (zip cs ms') ?acc = Some acc'"
    "list_all2 (\<lambda>csk m. nodes_on T (storage_nodes T (csk_address csk) (?D \<union> set (flatten_csks cs))) m) csks acc'"
    by auto
  moreover have "?D \<union> set (flatten_csks cs) = D \<union> set (flatten_csks (c # cs))"
    by (simp add: flatten_csks_def Un_assoc)
  ultimately show ?case by (simp add: ms idx)
qed

lemma merge_step_honest:
  assumes "honest_items T csks D acc" "honest_answer T c p"
    and "list_all2 (\<lambda>csk m. nodes_on T (storage_nodes T (csk_address csk) (set D \<union> set (flatten_csks (q_contract_storage_keys c)))) m) csks sps"
  shows "honest_items T csks (D @ flatten_query c)
     (acc\<lparr>rp_classes_proof := im_extend (rp_classes_proof acc) (rp_classes_proof p),
          rp_contract_nodes := im_extend (rp_contract_nodes acc) (rp_contract_nodes p),
          rp_contract_leaves := rp_contract_leaves acc @ rp_contract_leaves p,
          rp_storage_proofs := sps\<rparr>)"
proof -
  have sets: "{h. QClassHash h \<in> set (D @ flatten_query c)} = {h. QClassHash h \<in> set D} \<union> set (q_class_hashes c)"
    "{h. QContractAddress h \<in> set (D @ flatten_query c)} = {h. QContractAddress h \<in> set D} \<union> set (q_contract_addresses c)"
    by (auto simp: flatten_query_mem)
  have st: "storage_nodes T a (set (D @ flatten_query c))
      = storage_nodes T a (set D \<union> set (flatten_csks (q_contract_storage_keys c)))" for a
    by (simp add: storage_nodes_def flatten_query_mem)
  show ?thesis
    unfolding honest_items_def sets st UN_Un map_append concat_append flatten_query_leaves
    using assms by (simp add: honest_items_def honest_answer_def nodes_on_extend)
qed

lemma merge_loop_honest:
  assumes "distinct (map csk_address csks)"
  shows "list_all2 (honest_answer T) cs ps \<Longrightarrow>
     (\<forall>c \<in> set cs. csk_address ` set (q_contract_storage_keys c) \<subseteq> csk_address ` set csks) \<Longrightarrow>
     honest_items T csks D acc \<Longrightarrow>
     \<exists>acc'. merge_loop (addr_index csks) (zip cs ps) acc = Some acc' \<and>
            honest_items T csks (D @ concat (map flatten_query cs)) acc'"
proof (induction cs arbitrary: ps D acc)
  case Nil
  then show ?case by simp
next
  case (Cons c cs)
  from Cons.prems(1) obtain p ps' where ps: "ps = p # ps'" and p: "honest_answer T c p"
    and rest: "list_all2 (honest_answer T) cs ps'" by (auto simp: list_all2_Cons1)
  from merge_tries_honest [OF assms, of T "q_contract_storage_keys c" "rp_storage_proofs p" "set D" "rp_storage_proofs acc"]
    p Cons.prems(2,3) obtain sps where
      sps: "merge_tries (addr_index csks) (zip (q_contract_storage_keys c) (rp_storage_proofs p)) (rp_storage_proofs acc) = Some sps"
        "list_all2 (\<lambda>csk m. nodes_on T (storage_nodes T (csk_address csk) (set D \<union> set (flatten_csks (q_contract_storage_keys c)))) m) csks sps"
    by (auto simp: honest_answer_def honest_items_def)
  from Cons.IH [OF rest _ merge_step_honest [OF Cons.prems(3) p sps(2)]] Cons.prems(2) sps(1)
  show ?case by (simp add: ps)
qed

lemma flatten_csks_addresses:
  assumes "\<forall>csk \<in> set (q_contract_storage_keys c). csk_keys csk \<noteq> []"
    and "set (flatten_query c) \<subseteq> set (flatten_query q)"
  shows "csk_address ` set (q_contract_storage_keys c) \<subseteq> csk_address ` set (q_contract_storage_keys q)"
proof
  fix a
  assume "a \<in> csk_address ` set (q_contract_storage_keys c)"
  then obtain csk where csk: "csk \<in> set (q_contract_storage_keys c)" "a = csk_address csk" by blast
  with assms(1) obtain k where "k \<in> set (csk_keys csk)" by (metis last_in_set)
  with csk have "QStorageKey a k \<in> set (flatten_query c)"
    by (auto simp: flatten_query_mem flatten_csks_mem)
  with assms(2) have "QStorageKey a k \<in> set (flatten_query q)" by blast
  then show "a \<in> csk_address ` set (q_contract_storage_keys q)"
    by (auto simp: flatten_query_mem flatten_csks_mem)
qed

lemma collect_query_keys: "\<forall>csk \<in> set (q_contract_storage_keys (collect_query items)). csk_keys csk \<noteq> []"
proof (induction items rule: rev_induct)
  case Nil
  then show ?case by (simp add: collect_query_def empty_query_def)
next
  case (snoc x items)
  then show ?case
    by (cases x) (auto simp: collect_query_snoc push_storage_key_def dest: in_set_butlastD)
qed

lemma split_query_parts:
  assumes "split_query q n = Some cs" "c \<in> set cs"
  shows "csk_address ` set (q_contract_storage_keys c) \<subseteq> csk_address ` set (q_contract_storage_keys q)"
proof (rule flatten_csks_addresses)
  from assms show "\<forall>csk \<in> set (q_contract_storage_keys c). csk_keys csk \<noteq> []"
    by (auto simp: split_query_def collect_query_keys split: if_splits)
  have "0 < n" using assms(1) by (simp add: split_query_def split: if_splits)
  then have "concat (map flatten_query cs) = flatten_query q"
    using split_query_flatten [OF assms(1)] by (simp add: concat_chunks)
  with assms(2) show "set (flatten_query c) \<subseteq> set (flatten_query q)"
    by (metis UN_upper set_concat list.set_map image_eqI)
qed

lemma merge_honest:
  assumes "distinct (map csk_address (q_contract_storage_keys q))"
    and "split_query q n = Some cs" "flatten_query q \<noteq> []"
    and "list_all2 (honest_answer T) cs ps"
  shows "\<exists>p. merge_storage_proofs ps cs q = Some p \<and> honest_answer T q p"
proof -
  have n: "0 < n" using assms(2) by (simp add: split_query_def split: if_splits)
  then have cc: "concat (map flatten_query cs) = flatten_query q"
    using split_query_flatten [OF assms(2)] by (simp add: concat_chunks)
  with assms(3,4) have ne: "ps \<noteq> []" "cs \<noteq> []" by auto
  have len: "length ps = length cs" using assms(4) by (simp add: list_all2_lengthD)
  have roots: "rp_global_roots (hd ps) = tr_roots T"
    using assms(4) ne by (cases ps; cases cs) (auto simp: honest_answer_def)
  let ?start = "\<lparr>rp_classes_proof = [], rp_contract_nodes = [], rp_contract_leaves = [],
      rp_storage_proofs = replicate (length (q_contract_storage_keys q)) [], rp_global_roots = rp_global_roots (hd ps)\<rparr>"
  have "honest_items T (q_contract_storage_keys q) [] ?start"
    by (auto simp: honest_items_def nodes_on_Nil storage_nodes_def roots list_all2_conv_all_nth)
  from merge_loop_honest [OF assms(1) assms(4) _ this] split_query_parts [OF assms(2)] cc
  obtain p where "merge_loop (addr_index (q_contract_storage_keys q)) (zip cs ps) ?start = Some p"
    "honest_items T (q_contract_storage_keys q) (flatten_query q) p" by auto
  with len ne honest_items_flatten [OF assms(1)] show ?thesis by (auto simp: merge_storage_proofs_def)
qed

end
