(* ===== verification/Portable_Types.thy ===== *)
theory Portable_Types
  imports Storage_Query
begin

text \<open>
  The data and the errors of the transaction prover, \<open>portable-core/starknet_transaction_prover\<close>:
  \<open>errors.rs\<close> and the structs of the sequencer crates its code builds and reads field by field
  (\<open>StateMaps\<close>, \<open>StateDiff\<close>, \<open>CommitmentInfo\<close>). A contract address, a class hash, a nonce and a
  hash output are newtypes over a felt and modelled as the felt. A \<open>HashMap\<close> is the list of its
  entries in the order one iteration yields them, with distinct keys. An error of a third-party
  crate is its text.
\<close>

section \<open>State\<close>

record 'f state_maps =
  sm_nonces :: "('f \<times> 'f) list"
  sm_class_hashes :: "('f \<times> 'f) list"
  sm_storage :: "(('f \<times> 'f) \<times> 'f) list"
  sm_compiled_class_hashes :: "('f \<times> 'f) list"
  sm_declared_contracts :: "('f \<times> bool) list"

definition empty_state_maps :: "'f state_maps" where
  "empty_state_maps =
     \<lparr>sm_nonces = [], sm_class_hashes = [], sm_storage = [], sm_compiled_class_hashes = [],
      sm_declared_contracts = []\<rparr>"

record 'f state_diff =
  sd_address_to_class_hash :: "('f \<times> 'f) list"
  sd_address_to_nonce :: "('f \<times> 'f) list"
  sd_class_hash_to_compiled :: "('f \<times> 'f) list"
  sd_storage_updates :: "('f \<times> ('f \<times> 'f) list) list"

record 'f state_roots =
  contracts_trie_root_hash :: 'f
  classes_trie_root_hash :: 'f

record 'f commitment_info =
  ci_previous_root :: 'f
  ci_updated_root :: 'f
  ci_tree_height :: nat
  ci_commitment_facts :: "('f \<times> 'f list) list"

record 'f state_commitment_infos =
  contracts_trie_info :: "'f commitment_info"
  classes_trie_info :: "'f commitment_info"
  storage_tries_infos :: "('f \<times> 'f commitment_info) list"

section \<open>Blocks and executions\<close>

text \<open>
  \<open>'o\<close> stands for the third-party values the code only passes on. The fields listed here are
  the ones the code reads or writes by name.
\<close>

datatype 'f block_id = BlockNumberId u64 | BlockHashId 'f | BlockLatest | BlockPending

record ('f, 'o) chain_info =
  chi_chain_id :: string
  chi_strk_fee_token :: 'f
  chi_rest :: 'o

record 'o block_info =
  bi_block_number :: u64
  bi_starknet_version :: string
  bi_rest :: 'o

record 'o versioned_constants =
  vc_enable_casm_hash_migration :: bool
  vc_min_sierra_version :: "nat \<times> nat \<times> nat"
  vc_rest :: 'o

record ('f, 'o) block_context =
  bc_block_info :: "'o block_info"
  bc_chain_info :: "('f, 'o) chain_info"
  bc_versioned_constants :: "'o versioned_constants"
  bc_bouncer_config :: 'o

record ('f, 'o) header_commitments =
  hc_transaction :: 'f
  hc_event :: 'f
  hc_receipt :: 'f
  hc_state_diff :: 'f
  hc_concatenated_counts :: 'o

record ('f, 'o) base_block_info =
  bb_block_context :: "('f, 'o) block_context"
  bb_block_hash :: 'f
  bb_header_commitments :: "('f, 'o) header_commitments"
  bb_prev_block_hash :: 'f

text \<open>A transaction's execution output: its revert error and the rest of the execution info.\<close>

record 'o execution_output =
  eo_revert_error :: "string option"
  eo_info :: 'o

record ('f, 'o) execution_data =
  ed_execution_outputs :: "'o execution_output list"
  ed_initial_reads :: "'f state_maps"
  ed_state_diff :: "'f state_maps"
  ed_executed_class_hashes :: "'f list"
  ed_l2_to_l1_messages :: "'o list"
  ed_base_block_info :: "('f, 'o) base_block_info"

section \<open>Errors\<close>

datatype 'f virtual_block_executor_error =
    ReexecutionError string
  | TransactionExecutionError string
  | TransactionReverted 'f string
  | StateUnavailable
  | BouncerLockError string

datatype proof_provider_error =
    InvalidStateDiff string
  | ProofRpc string
  | SerializationError string
  | InvalidProofResponse string
  | BlockCommitmentError string

datatype 'f classes_provider_error =
    GetClassesError string
  | DeprecatedContractError 'f
  | InvalidBytecodeElement
  | StateError string
  | HintsConversionError string

datatype 'f runner_error =
    RunnerClassesProvider "'f classes_provider_error"
  | RunnerProofProvider proof_provider_error
  | RunnerVirtualBlockExecutor "'f virtual_block_executor_error"
  | OsExecution string
  | InputGenerationError string
  | TransactionHashError string
  | RunnerTaskJoin string

datatype proving_error = ProverExecution string | ProvingTaskJoin string

datatype 'f virtual_snos_prover_error =
    InvalidTransactionType string
  | InvalidTransactionInput string
  | ValidationError string
  | ProgramOutputError string
  | ProverRunnerError "'f runner_error"
  | ProverProvingError proving_error
  | OutputParseError string

datatype service_config_error =
    ConfigFileError string
  | InvalidArgument string
  | MissingRequiredField string
  | IncompleteTlsConfig string

text \<open>The texts of \<open>Display\<close>; \<open>dbg\<close> is the debug text of a transaction hash, \<open>dsp\<close> of a class hash.\<close>

fun executor_error_display :: "('f \<Rightarrow> string) \<Rightarrow> 'f virtual_block_executor_error \<Rightarrow> string" where
  "executor_error_display dbg (ReexecutionError e) = e"
| "executor_error_display dbg (TransactionExecutionError e) = ''Transaction execution failed: '' @ e"
| "executor_error_display dbg (TransactionReverted h r) =
     ''Reverted transactions are not supported; hash: '' @ dbg h @ '', revert reason: '' @ r"
| "executor_error_display dbg StateUnavailable = ''Block state unavailable after execution''"
| "executor_error_display dbg (BouncerLockError e) = ''Failed to acquire bouncer lock: '' @ e"

fun proof_provider_error_display :: "proof_provider_error \<Rightarrow> string" where
  "proof_provider_error_display (InvalidStateDiff e) = ''Invalid state diff: '' @ e"
| "proof_provider_error_display (ProofRpc e) = ''RPC provider error: '' @ e"
| "proof_provider_error_display (SerializationError e) = e"
| "proof_provider_error_display (InvalidProofResponse e) = ''Invalid RPC proof response: '' @ e"
| "proof_provider_error_display (BlockCommitmentError e) = ''Block commitment error: '' @ e"

fun classes_provider_error_display :: "('f \<Rightarrow> string) \<Rightarrow> 'f classes_provider_error \<Rightarrow> string" where
  "classes_provider_error_display dsp (GetClassesError e) = ''Failed to get classes: '' @ e"
| "classes_provider_error_display dsp (DeprecatedContractError h) =
     ''Starknet os does not support deprecated contract classes, class hash: '' @ dsp h @ '' is deprecated''"
| "classes_provider_error_display dsp InvalidBytecodeElement =
     ''Unexpected error: bytecode of a class contained a non-integer value''"
| "classes_provider_error_display dsp (StateError e) = e"
| "classes_provider_error_display dsp (HintsConversionError e) = e"

fun runner_error_display :: "('f \<Rightarrow> string) \<Rightarrow> ('f \<Rightarrow> string) \<Rightarrow> 'f runner_error \<Rightarrow> string" where
  "runner_error_display dbg dsp (RunnerClassesProvider e) = classes_provider_error_display dsp e"
| "runner_error_display dbg dsp (RunnerProofProvider e) = proof_provider_error_display e"
| "runner_error_display dbg dsp (RunnerVirtualBlockExecutor e) = executor_error_display dbg e"
| "runner_error_display dbg dsp (OsExecution e) = e"
| "runner_error_display dbg dsp (InputGenerationError e) = ''OS Input generation failed: '' @ e"
| "runner_error_display dbg dsp (TransactionHashError e) = ''Failed to calculate transaction hash: '' @ e"
| "runner_error_display dbg dsp (RunnerTaskJoin e) = e"

fun proving_error_display :: "proving_error \<Rightarrow> string" where
  "proving_error_display (ProverExecution e) = ''Prover execution failed: '' @ e"
| "proving_error_display (ProvingTaskJoin e) = ''Proving task failed to join: '' @ e"

fun snos_prover_error_display ::
  "('f \<Rightarrow> string) \<Rightarrow> ('f \<Rightarrow> string) \<Rightarrow> 'f virtual_snos_prover_error \<Rightarrow> string"
where
  "snos_prover_error_display dbg dsp (InvalidTransactionType e) = ''Invalid transaction type: '' @ e"
| "snos_prover_error_display dbg dsp (InvalidTransactionInput e) = ''Invalid transaction input: '' @ e"
| "snos_prover_error_display dbg dsp (ValidationError e) = ''Validation error: '' @ e"
| "snos_prover_error_display dbg dsp (ProgramOutputError e) = e"
| "snos_prover_error_display dbg dsp (ProverRunnerError e) = runner_error_display dbg dsp e"
| "snos_prover_error_display dbg dsp (ProverProvingError e) = proving_error_display e"
| "snos_prover_error_display dbg dsp (OutputParseError e) = e"

fun service_config_error_display :: "service_config_error \<Rightarrow> string" where
  "service_config_error_display (ConfigFileError e) = ''Configuration file error: '' @ e"
| "service_config_error_display (InvalidArgument e) = ''Invalid argument: '' @ e"
| "service_config_error_display (MissingRequiredField e) = ''Missing required field: '' @ e"
| "service_config_error_display (IncompleteTlsConfig e) = ''Incomplete TLS configuration: '' @ e"

section \<open>Sorting by a given order\<close>

fun insort_by :: "('a \<Rightarrow> 'a \<Rightarrow> bool) \<Rightarrow> 'a \<Rightarrow> 'a list \<Rightarrow> 'a list" where
  "insort_by le x [] = [x]"
| "insort_by le x (y # ys) = (if le x y then x # y # ys else y # insort_by le x ys)"

definition sort_by :: "('a \<Rightarrow> 'a \<Rightarrow> bool) \<Rightarrow> 'a list \<Rightarrow> 'a list" where
  "sort_by le xs = foldr (insort_by le) xs []"

lemma set_insort_by [simp]: "set (insort_by le x ys) = insert x (set ys)"
  by (induction ys) auto

lemma set_sort_by [simp]: "set (sort_by le xs) = set xs"
  by (induction xs) (simp_all add: sort_by_def)

lemma distinct_insort_by: "distinct (insort_by le x ys) \<longleftrightarrow> x \<notin> set ys \<and> distinct ys"
  by (induction ys) auto

lemma distinct_sort_by [simp]: "distinct (sort_by le xs) \<longleftrightarrow> distinct xs"
proof (induction xs)
  case Nil
  then show ?case by (simp add: sort_by_def)
next
  case (Cons x xs)
  then show ?case using set_sort_by [of le xs] by (simp add: sort_by_def distinct_insort_by)
qed

end
