(* ===== verification/Facts_Db.thy ===== *)
theory Facts_Db
  imports Portable_Types
begin

text \<open>
  The facts database handed to the committer,
  \<open>starknet_transaction_prover/src/running/committer_utils.rs\<close>. The node codec, the leaf hash
  and the key layout belong to the sequencer's crates and are the record \<open>facts_ext\<close>; \<open>'o\<close> is
  the type of the values the code only passes on (the committer's filled forest). The lemmas
  show that every node of the proof is found under its key, what a child that is no node of the proof
  has under its key, that every leaf is found under its own, and which state diffs are refused.
\<close>

text \<open>A leaf the code writes, and a filled node as the code builds it.\<close>

datatype 'f leaf =
    ContractState (ct_nonce: 'f) (ct_class_hash: 'f) (ct_storage_root: 'f)
  | StorageValue 'f
  | CompiledClassLeaf 'f

datatype 'f filled_node =
    FilledBinary 'f 'f 'f
  | FilledRpc 'f "'f merkle_node"
  | FilledLeaf 'f "'f leaf"

type_synonym db = "string \<rightharpoonup> string"

record ('f, 'o) facts_ext = "'f ext" +
  p_serialize :: "'f filled_node \<Rightarrow> string + string"
  p_create_db_key :: "string \<Rightarrow> string \<Rightarrow> string \<Rightarrow> string"
  p_inner_prefix :: string
  p_separator :: string
  p_leaf_db_key :: "'f leaf \<Rightarrow> 'f option \<Rightarrow> string \<Rightarrow> string"
  p_leaf_hash :: "'f leaf \<Rightarrow> 'f"
  p_storage_diff :: "(('f \<times> 'f) \<times> 'f) list \<Rightarrow> ('f \<times> ('f \<times> 'f) list) list"
  p_commit_block :: "'f state_diff \<Rightarrow> 'f state_roots \<Rightarrow> db \<Rightarrow> string + 'o"
  p_write_forest :: "'o \<Rightarrow> db \<Rightarrow> string + db"
  p_contract_root :: "'o \<Rightarrow> 'f"
  p_class_root :: "'o \<Rightarrow> 'f"
  p_debug_felt :: "'f \<Rightarrow> string"
  p_debug_key :: "'f \<Rightarrow> string"
  p_debug_map :: "('f \<times> 'f) list \<Rightarrow> string"

section \<open>State diffs\<close>

definition state_maps_to_committer_state_diff :: "('f, 'o, 'x) facts_ext_scheme \<Rightarrow> 'f state_maps \<Rightarrow> 'f state_diff" where
  "state_maps_to_committer_state_diff P m =
     \<lparr>sd_address_to_class_hash = sm_class_hashes m, sd_address_to_nonce = sm_nonces m,
      sd_class_hash_to_compiled = map (\<lambda>(c, h). (c, h)) (sm_compiled_class_hashes m),
      sd_storage_updates = map (\<lambda>(a, us). (a, map (\<lambda>(k, v). (k, v)) us)) (p_storage_diff P (sm_storage m))\<rparr>"

fun check_storage_diffs :: "('f, 'o, 'x) facts_ext_scheme \<Rightarrow> 'f \<Rightarrow> ('f \<times> 'f) list \<Rightarrow> proof_provider_error + unit" where
  "check_storage_diffs P a [] = Inr ()"
| "check_storage_diffs P a ((k, v) # kvs) =
     (if v = x_zero P
      then Inl (InvalidStateDiff (''Storage deletion not allowed: try to delete storage at address '' @
                  p_debug_felt P a @ '', key '' @ p_debug_key P k))
      else check_storage_diffs P a kvs)"

fun check_storage_updates ::
  "('f, 'o, 'x) facts_ext_scheme \<Rightarrow> ('f \<times> ('f \<times> 'f) list) list \<Rightarrow> proof_provider_error + unit"
where
  "check_storage_updates P [] = Inr ()"
| "check_storage_updates P ((a, kvs) # rest) =
     bindR (check_storage_diffs P a kvs) (\<lambda>_. check_storage_updates P rest)"

definition validate_virtual_os_state_diff ::
  "('f, 'o, 'x) facts_ext_scheme \<Rightarrow> 'f state_diff \<Rightarrow> proof_provider_error + unit"
where
  "validate_virtual_os_state_diff P d =
     bindR (check_storage_updates P (sd_storage_updates d)) (\<lambda>_.
       if sd_address_to_class_hash d \<noteq> []
       then Inl (InvalidStateDiff
              (''Contract deployments not allowed: try to deploy contracts(address to class hash): '' @
               p_debug_map P (sd_address_to_class_hash d)))
       else if sd_class_hash_to_compiled d \<noteq> []
       then Inl (InvalidStateDiff
              (''Contract declarations not allowed: try to declare classes(class hash to compiled class hash): '' @
               p_debug_map P (sd_class_hash_to_compiled d)))
       else Inr ())"

section \<open>Building the database\<close>

definition inner_key :: "('f, 'o, 'x) facts_ext_scheme \<Rightarrow> 'f \<Rightarrow> string" where
  "inner_key P h = p_create_db_key P (p_inner_prefix P) (p_separator P) (x_to_bytes_be P h)"

fun insert_inner_nodes ::
  "('f, 'o, 'x) facts_ext_scheme \<Rightarrow> 'f node_map \<Rightarrow> db \<Rightarrow> proof_provider_error + db"
where
  "insert_inner_nodes P [] d = Inr d"
| "insert_inner_nodes P ((hash, node) # nodes) d =
     bindR (map_err SerializationError (p_serialize P (FilledRpc hash node))) (\<lambda>value.
       insert_inner_nodes P nodes (d(inner_key P hash \<mapsto> value)))"

definition insert_leaf_node ::
  "('f, 'o, 'x) facts_ext_scheme \<Rightarrow> 'f \<Rightarrow> 'f leaf \<Rightarrow> 'f option \<Rightarrow> db \<Rightarrow> proof_provider_error + db"
where
  "insert_leaf_node P leaf_hash l key_context d =
     (let key = p_leaf_db_key P l key_context (x_to_bytes_be P leaf_hash)
      in bindR (map_err SerializationError (p_serialize P (FilledLeaf leaf_hash l))) (\<lambda>serialized.
           Inr (d(key \<mapsto> serialized))))"

definition leaf_contract_state :: "('f, 'x) ext_scheme \<Rightarrow> 'f contract_leaf \<Rightarrow> 'f leaf" where
  "leaf_contract_state X l =
     ContractState (leaf_nonce l) (leaf_class_hash l)
       (case leaf_storage_root l of Some r \<Rightarrow> r | None \<Rightarrow> x_zero X)"

fun insert_leaves ::
  "('f, 'o, 'x) facts_ext_scheme \<Rightarrow> ('f leaf \<times> 'f option) list \<Rightarrow> db \<Rightarrow> proof_provider_error + db"
where
  "insert_leaves P [] d = Inr d"
| "insert_leaves P ((l, ctx) # ls) d =
     bindR (insert_leaf_node P (p_leaf_hash P l) l ctx d) (insert_leaves P ls)"

definition insert_contract_leaves ::
  "('f, 'o, 'x) facts_ext_scheme \<Rightarrow> 'f rpc_storage_proof \<Rightarrow> 'f storage_query \<Rightarrow> db \<Rightarrow> proof_provider_error + db"
where
  "insert_contract_leaves P proof query d =
     (let leaves_len = length (rp_contract_leaves proof);
          addresses_len = length (q_contract_addresses query)
      in if leaves_len \<noteq> addresses_len
         then Inl (InvalidProofResponse (''Contract leaves length mismatch: expected '' @
                fmt_dec addresses_len @ '' leaves for requested contracts, got '' @ fmt_dec leaves_len))
         else insert_leaves P
                (map (\<lambda>(l, address). (leaf_contract_state P l, None))
                     (zip (rp_contract_leaves proof) (q_contract_addresses query))) d)"

definition insert_storage_leaves ::
  "('f, 'o, 'x) facts_ext_scheme \<Rightarrow> 'f state_maps \<Rightarrow> db \<Rightarrow> proof_provider_error + db"
where
  "insert_storage_leaves P reads =
     insert_leaves P (map (\<lambda>((address, key), v). (StorageValue v, Some address)) (sm_storage reads))"

definition insert_compiled_class_leaves ::
  "('f, 'o, 'x) facts_ext_scheme \<Rightarrow> 'f state_maps \<Rightarrow> db \<Rightarrow> proof_provider_error + db"
where
  "insert_compiled_class_leaves P reads =
     insert_leaves P (map (\<lambda>(c, h). (CompiledClassLeaf h, None)) (sm_compiled_class_hashes reads))"

definition add_dummy_node_for_orphan_child ::
  "('f, 'o, 'x) facts_ext_scheme \<Rightarrow> 'f set \<Rightarrow> string \<Rightarrow> 'f \<Rightarrow> db \<Rightarrow> db"
where
  "add_dummy_node_for_orphan_child P has_preimage dummy_value child_hash d =
     (if child_hash \<in> has_preimage then d
      else case d (inner_key P child_hash) of
             Some _ \<Rightarrow> d
           | None \<Rightarrow> d(inner_key P child_hash \<mapsto> dummy_value))"

fun node_children :: "'f merkle_node \<Rightarrow> 'f list" where
  "node_children (BinaryNode l r) = [l, r]"
| "node_children (EdgeNode path len child) = [child]"

definition add_dummy_nodes_for_orphan_hashes ::
  "('f, 'o, 'x) facts_ext_scheme \<Rightarrow> 'f node_map \<Rightarrow> db \<Rightarrow> proof_provider_error + db"
where
  "add_dummy_nodes_for_orphan_hashes P nodes d =
     (let has_preimage = set (map fst nodes); dummy_hash = x_zero P
      in bindR (map_err SerializationError (p_serialize P (FilledBinary dummy_hash dummy_hash dummy_hash)))
           (\<lambda>dummy_value. Inr (foldl (\<lambda>d (h, node).
              foldl (\<lambda>d c. add_dummy_node_for_orphan_child P has_preimage dummy_value c d) d (node_children node))
            d nodes)))"

fun for_each :: "('a \<Rightarrow> 'd \<Rightarrow> 'e + 'd) \<Rightarrow> 'a list \<Rightarrow> 'd \<Rightarrow> 'e + 'd" where
  "for_each f [] d = Inr d"
| "for_each f (x # xs) d = bindR (f x d) (for_each f xs)"

definition create_facts_db_from_storage_proof ::
  "('f, 'o, 'x) facts_ext_scheme \<Rightarrow> 'f rpc_storage_proof \<Rightarrow> 'f storage_query \<Rightarrow> 'f state_maps \<Rightarrow> proof_provider_error + db"
where
  "create_facts_db_from_storage_proof P proof query initial_reads =
     bindR (insert_inner_nodes P (rp_contract_nodes proof) Map.empty) (\<lambda>d1.
     bindR (insert_inner_nodes P (rp_classes_proof proof) d1) (\<lambda>d2.
     bindR (for_each (insert_inner_nodes P) (rp_storage_proofs proof) d2) (\<lambda>d3.
     bindR (insert_contract_leaves P proof query d3) (\<lambda>d4.
     bindR (insert_storage_leaves P initial_reads d4) (\<lambda>d5.
     bindR (insert_compiled_class_leaves P initial_reads d5) (\<lambda>d6.
     bindR (add_dummy_nodes_for_orphan_hashes P (rp_contract_nodes proof) d6) (\<lambda>d7.
     bindR (add_dummy_nodes_for_orphan_hashes P (rp_classes_proof proof) d7) (\<lambda>d8.
     for_each (add_dummy_nodes_for_orphan_hashes P) (rp_storage_proofs proof) d8))))))))"

definition commit_state_diff ::
  "('f, 'o, 'x) facts_ext_scheme \<Rightarrow> 'f \<Rightarrow> 'f \<Rightarrow> 'f state_diff \<Rightarrow> db \<Rightarrow> proof_provider_error + 'f state_roots \<times> db"
where
  "commit_state_diff P contracts_root classes_root diff d =
     bindR (map_err BlockCommitmentError (p_commit_block P diff
              \<lparr>contracts_trie_root_hash = contracts_root, classes_trie_root_hash = classes_root\<rparr> d)) (\<lambda>forest.
     bindR (map_err SerializationError (p_write_forest P forest d)) (\<lambda>d'.
     Inr (\<lparr>contracts_trie_root_hash = p_contract_root P forest, classes_trie_root_hash = p_class_root P forest\<rparr>, d')))"

section \<open>Which state diffs are accepted\<close>

lemma check_storage_diffs_iff: "check_storage_diffs P a kvs = Inr () \<longleftrightarrow> (\<forall>(k, v) \<in> set kvs. v \<noteq> x_zero P)"
  by (induction P a kvs rule: check_storage_diffs.induct) auto

lemma check_storage_updates_iff:
  "check_storage_updates P us = Inr () \<longleftrightarrow> (\<forall>(a, kvs) \<in> set us. \<forall>(k, v) \<in> set kvs. v \<noteq> x_zero P)"
  by (induction P us rule: check_storage_updates.induct) (auto simp: result_simps check_storage_diffs_iff)

lemma check_storage_diffs_error: "check_storage_diffs P a kvs = Inl e \<Longrightarrow> \<exists>m. e = InvalidStateDiff m"
  by (induction P a kvs rule: check_storage_diffs.induct) (auto split: if_splits)

lemma check_storage_updates_error: "check_storage_updates P us = Inl e \<Longrightarrow> \<exists>m. e = InvalidStateDiff m"
  by (induction P us rule: check_storage_updates.induct)
    (auto simp: result_simps dest: check_storage_diffs_error)

text \<open>The virtual OS supports neither deployments, nor declarations, nor storage deletions.\<close>

definition acceptable_state_diff :: "('f, 'o, 'x) facts_ext_scheme \<Rightarrow> 'f state_diff \<Rightarrow> bool" where
  "acceptable_state_diff P d \<longleftrightarrow>
     sd_address_to_class_hash d = [] \<and> sd_class_hash_to_compiled d = [] \<and>
     list_all (\<lambda>(a, kvs). x_zero P \<notin> snd ` set kvs) (sd_storage_updates d)"

lemma storage_nonzero_iff:
  "list_all (\<lambda>(a, kvs). x_zero P \<notin> snd ` set kvs) us \<longleftrightarrow> check_storage_updates P us = Inr ()"
  unfolding check_storage_updates_iff list_all_iff
  by (intro ball_cong refl) (force split: prod.split)

lemma validate_acceptable: "validate_virtual_os_state_diff P d = Inr () \<longleftrightarrow> acceptable_state_diff P d"
  by (auto simp: validate_virtual_os_state_diff_def acceptable_state_diff_def storage_nonzero_iff result_simps)

lemma validate_error: "validate_virtual_os_state_diff P d = Inl e \<Longrightarrow> \<exists>m. e = InvalidStateDiff m"
  by (auto simp: validate_virtual_os_state_diff_def result_simps split: if_splits dest: check_storage_updates_error)

theorem validate_state_diff_iff:
  "case validate_virtual_os_state_diff P d of
     Inr u \<Rightarrow> acceptable_state_diff P d
   | Inl e \<Rightarrow> (\<exists>m. e = InvalidStateDiff m) \<and> \<not> acceptable_state_diff P d"
  using validate_acceptable [of P d] validate_error [of P d]
  by (cases "validate_virtual_os_state_diff P d") auto

section \<open>The database answers every lookup of a node or a child\<close>

definition db_key_laws :: "('f, 'o, 'x) facts_ext_scheme \<Rightarrow> bool" where
  "db_key_laws P \<longleftrightarrow>
     (\<forall>a b. inner_key P a = inner_key P b \<longrightarrow> a = b) \<and>
     (\<forall>l ctx s h. p_leaf_db_key P l ctx s \<noteq> inner_key P h)"

text \<open>The nodes in \<open>ns\<close> are stored under their keys; \<open>N\<close> says which node each hash has.\<close>

definition stored :: "('f, 'o, 'x) facts_ext_scheme \<Rightarrow> 'f node_map \<Rightarrow> db \<Rightarrow> bool" where
  "stored P ns d \<longleftrightarrow>
     (\<forall>(h, n) \<in> set ns. \<exists>v. p_serialize P (FilledRpc h n) = Inr v \<and> d (inner_key P h) = Some v)"

definition consistent :: "('f \<rightharpoonup> 'f merkle_node) \<Rightarrow> 'f node_map \<Rightarrow> bool" where
  "consistent N ns \<longleftrightarrow> (\<forall>(h, n) \<in> set ns. N h = Some n)"

lemma stored_append [simp]: "stored P (ms @ ns) d \<longleftrightarrow> stored P ms d \<and> stored P ns d"
  by (simp only: stored_def set_append ball_Un)

lemma stored_Nil [simp]: "stored P [] d"
  by (simp add: stored_def)

lemma consistent_append [simp]: "consistent N (ms @ ns) \<longleftrightarrow> consistent N ms \<and> consistent N ns"
  by (auto simp: consistent_def)

lemma stored_insert:
  assumes "db_key_laws P" "stored P ms d" "consistent N ms" "N h = Some n"
    and "p_serialize P (FilledRpc h n) = Inr v"
  shows "stored P (ms @ [(h, n)]) (d(inner_key P h \<mapsto> v))"
  using assms by (fastforce simp: stored_def db_key_laws_def consistent_def)

lemma insert_inner_nodes_stored:
  assumes "db_key_laws P"
  shows "insert_inner_nodes P ns d = Inr d' \<Longrightarrow> stored P ms d \<Longrightarrow> consistent N ms \<Longrightarrow> consistent N ns \<Longrightarrow>
     stored P (ms @ ns) d'"
proof (induction ns arbitrary: ms d)
  case Nil
  then show ?case by simp
next
  case (Cons hn ns)
  obtain h n where hn: "hn = (h, n)" by (cases hn)
  from Cons.prems(1) obtain v where v: "p_serialize P (FilledRpc h n) = Inr v"
    "insert_inner_nodes P ns (d(inner_key P h \<mapsto> v)) = Inr d'"
    by (auto simp: hn result_simps)
  from Cons.prems(4) have N: "N h = Some n" "consistent N ns" by (auto simp: hn consistent_def)
  with Cons.prems(3) have "consistent N (ms @ [(h, n)])" by (simp add: consistent_def)
  from Cons.IH [OF v(2) stored_insert [OF assms Cons.prems(2,3) N(1) v(1)] this N(2)]
  show ?case by (simp add: hn)
qed

lemma for_each_insert_stored:
  assumes "db_key_laws P"
  shows "for_each (insert_inner_nodes P) sps d = Inr d' \<Longrightarrow> stored P ms d \<Longrightarrow> consistent N ms \<Longrightarrow>
     consistent N (concat sps) \<Longrightarrow> stored P (ms @ concat sps) d'"
proof (induction sps arbitrary: ms d)
  case Nil
  then show ?case by simp
next
  case (Cons ns sps)
  from Cons.prems(1) obtain d1 where d1: "insert_inner_nodes P ns d = Inr d1"
    "for_each (insert_inner_nodes P) sps d1 = Inr d'" by (auto simp: result_simps)
  from Cons.prems(4) have c: "consistent N ns" "consistent N (concat sps)" by simp_all
  have s: "stored P (ms @ ns) d1" by (rule insert_inner_nodes_stored [OF assms d1(1) Cons.prems(2,3) c(1)])
  from Cons.prems(3) c(1) have "consistent N (ms @ ns)" by simp
  from Cons.IH [OF d1(2) s this c(2)] show ?case by simp
qed

text \<open>Everything after the inner nodes leaves what is stored under an inner key.\<close>

definition keeps_inner :: "('f, 'o, 'x) facts_ext_scheme \<Rightarrow> db \<Rightarrow> db \<Rightarrow> bool" where
  "keeps_inner P d d' \<longleftrightarrow> (\<forall>h v. d (inner_key P h) = Some v \<longrightarrow> d' (inner_key P h) = Some v)"

lemma keeps_inner_refl [simp]: "keeps_inner P d d"
  by (simp add: keeps_inner_def)

lemma keeps_inner_trans [trans]: "keeps_inner P d d' \<Longrightarrow> keeps_inner P d' d'' \<Longrightarrow> keeps_inner P d d''"
  by (simp add: keeps_inner_def)

lemma keeps_inner_stored: "keeps_inner P d d' \<Longrightarrow> stored P ns d \<Longrightarrow> stored P ns d'"
  by (fastforce simp: keeps_inner_def stored_def)

lemma keeps_inner_leaf:
  assumes "db_key_laws P" "insert_leaf_node P h l ctx d = Inr d'"
  shows "keeps_inner P d d'"
proof -
  from assms(2) obtain s where "d' = d(p_leaf_db_key P l ctx (x_to_bytes_be P h) \<mapsto> s)"
    by (auto simp: insert_leaf_node_def result_simps Let_def)
  with assms(1) show ?thesis by (simp add: keeps_inner_def db_key_laws_def) metis
qed

lemma keeps_inner_leaves:
  assumes "db_key_laws P"
  shows "insert_leaves P ls d = Inr d' \<Longrightarrow> keeps_inner P d d'"
proof (induction ls arbitrary: d)
  case Nil
  then show ?case by simp
next
  case (Cons lc ls)
  obtain l ctx where lc: "lc = (l, ctx)" by (cases lc)
  from Cons.prems obtain d1 where d1: "insert_leaf_node P (p_leaf_hash P l) l ctx d = Inr d1"
    "insert_leaves P ls d1 = Inr d'" by (auto simp: lc result_simps)
  have "keeps_inner P d d1" by (rule keeps_inner_leaf [OF assms d1(1)])
  also have "keeps_inner P d1 d'" by (rule Cons.IH [OF d1(2)])
  finally show ?case .
qed

lemma keeps_inner_contract_leaves:
  "db_key_laws P \<Longrightarrow> insert_contract_leaves P proof query d = Inr d' \<Longrightarrow> keeps_inner P d d'"
  by (auto simp: insert_contract_leaves_def Let_def keeps_inner_leaves split: if_splits)

lemma keeps_inner_dummy: "keeps_inner P d (add_dummy_node_for_orphan_child P S v c d)"
  by (auto simp: add_dummy_node_for_orphan_child_def keeps_inner_def split: option.split)

lemma dummy_present: "c \<in> S \<or> add_dummy_node_for_orphan_child P S v c d (inner_key P c) \<noteq> None"
  by (auto simp: add_dummy_node_for_orphan_child_def split: option.split)

lemma foldl_dummy:
  "keeps_inner P d (foldl (\<lambda>d c. add_dummy_node_for_orphan_child P S v c d) d cs) \<and>
   (\<forall>c \<in> set cs. c \<in> S \<or> foldl (\<lambda>d c. add_dummy_node_for_orphan_child P S v c d) d cs (inner_key P c) \<noteq> None)"
proof (induction cs arbitrary: d)
  case Nil
  then show ?case by simp
next
  case (Cons c cs)
  let ?d1 = "add_dummy_node_for_orphan_child P S v c d"
  from Cons [of ?d1] have ih: "keeps_inner P ?d1 (foldl (\<lambda>d c. add_dummy_node_for_orphan_child P S v c d) ?d1 cs)"
    by blast
  moreover have "keeps_inner P d ?d1" by (rule keeps_inner_dummy)
  moreover have "c \<in> S \<or> foldl (\<lambda>d c. add_dummy_node_for_orphan_child P S v c d) ?d1 cs (inner_key P c) \<noteq> None"
    using dummy_present [of c S P v d] ih by (auto simp: keeps_inner_def)
  ultimately show ?case using Cons [of ?d1] by (auto intro: keeps_inner_trans)
qed

definition all_children :: "'f node_map \<Rightarrow> 'f list" where
  "all_children ns = concat (map (\<lambda>(h, n). node_children n) ns)"

lemma foldl_children:
  "foldl (\<lambda>d (h, node). foldl (\<lambda>d c. f c d) d (node_children node)) d ns = foldl (\<lambda>d c. f c d) d (all_children ns)"
  by (induction ns arbitrary: d) (auto simp: all_children_def)

lemma add_dummy_nodes:
  assumes "add_dummy_nodes_for_orphan_hashes P ns d = Inr d'"
  shows "keeps_inner P d d' \<and>
     (\<forall>c \<in> set (all_children ns). c \<in> fst ` set ns \<or> d' (inner_key P c) \<noteq> None)"
proof -
  from assms obtain v where
    "d' = foldl (\<lambda>d (h, node). foldl (\<lambda>d c. add_dummy_node_for_orphan_child P (fst ` set ns) v c d) d (node_children node)) d ns"
    by (auto simp: add_dummy_nodes_for_orphan_hashes_def Let_def result_simps)
  then have "d' = foldl (\<lambda>d c. add_dummy_node_for_orphan_child P (fst ` set ns) v c d) d (all_children ns)"
    by (simp only: foldl_children)
  with foldl_dummy [of P d "fst ` set ns" v "all_children ns"] show ?thesis by simp
qed

lemma for_each_dummy:
  "for_each (add_dummy_nodes_for_orphan_hashes P) sps d = Inr d' \<Longrightarrow>
     keeps_inner P d d' \<and>
     (\<forall>ns \<in> set sps. \<forall>c \<in> set (all_children ns). c \<in> fst ` set ns \<or> d' (inner_key P c) \<noteq> None)"
proof (induction sps arbitrary: d)
  case Nil
  then show ?case by simp
next
  case (Cons ns sps)
  then obtain d1 where d1: "add_dummy_nodes_for_orphan_hashes P ns d = Inr d1"
    "for_each (add_dummy_nodes_for_orphan_hashes P) sps d1 = Inr d'" by (auto simp: result_simps)
  from add_dummy_nodes [OF d1(1)] Cons.IH [OF d1(2)] show ?case
    by (auto simp: keeps_inner_def)
qed

definition proof_tries :: "'f rpc_storage_proof \<Rightarrow> 'f node_map list" where
  "proof_tries proof = rp_contract_nodes proof # rp_classes_proof proof # rp_storage_proofs proof"

definition proof_nodes :: "'f rpc_storage_proof \<Rightarrow> 'f node_map" where
  "proof_nodes proof = concat (proof_tries proof)"

lemma create_facts_db_steps:
  assumes "db_key_laws P" "consistent N (proof_nodes proof)"
    and "create_facts_db_from_storage_proof P proof query reads = Inr d"
  shows "stored P (proof_nodes proof) d \<and>
     (\<forall>ns \<in> set (proof_tries proof). \<forall>c \<in> set (all_children ns). c \<in> fst ` set ns \<or> d (inner_key P c) \<noteq> None)"
proof -
  from assms(3) obtain d1 d2 d3 d4 d5 d6 d7 d8 where
    d1: "insert_inner_nodes P (rp_contract_nodes proof) Map.empty = Inr d1" and
    d2: "insert_inner_nodes P (rp_classes_proof proof) d1 = Inr d2" and
    d3: "for_each (insert_inner_nodes P) (rp_storage_proofs proof) d2 = Inr d3" and
    d4: "insert_contract_leaves P proof query d3 = Inr d4" and
    d5: "insert_storage_leaves P reads d4 = Inr d5" and
    d6: "insert_compiled_class_leaves P reads d5 = Inr d6" and
    d7: "add_dummy_nodes_for_orphan_hashes P (rp_contract_nodes proof) d6 = Inr d7" and
    d8: "add_dummy_nodes_for_orphan_hashes P (rp_classes_proof proof) d7 = Inr d8" and
    d9: "for_each (add_dummy_nodes_for_orphan_hashes P) (rp_storage_proofs proof) d8 = Inr d"
    by (auto simp: create_facts_db_from_storage_proof_def result_simps)
  from assms(2) have c: "consistent N (rp_contract_nodes proof)" "consistent N (rp_classes_proof proof)"
    "consistent N (concat (rp_storage_proofs proof))" by (simp_all add: proof_nodes_def proof_tries_def)
  have "stored P (rp_contract_nodes proof) d1"
    using insert_inner_nodes_stored [OF assms(1) d1 _ _ c(1), of "[]"] by (simp add: consistent_def)
  from insert_inner_nodes_stored [OF assms(1) d2 this c(1,2)]
  have "stored P (rp_contract_nodes proof @ rp_classes_proof proof) d2" .
  from for_each_insert_stored [OF assms(1) d3 this _ c(3)] c(1,2)
  have s3: "stored P (proof_nodes proof) d3" by (simp add: proof_nodes_def proof_tries_def)
  have "keeps_inner P d3 d4" by (rule keeps_inner_contract_leaves [OF assms(1) d4])
  also have "keeps_inner P d4 d5" using d5 assms(1) by (auto simp: insert_storage_leaves_def keeps_inner_leaves)
  also have "keeps_inner P d5 d6" using d6 assms(1) by (auto simp: insert_compiled_class_leaves_def keeps_inner_leaves)
  finally have k6: "keeps_inner P d3 d6" .
  from add_dummy_nodes [OF d7] add_dummy_nodes [OF d8] for_each_dummy [OF d9]
  have k: "keeps_inner P d6 d7" "keeps_inner P d7 d8" "keeps_inner P d8 d"
    and present: "\<forall>c \<in> set (all_children (rp_contract_nodes proof)). c \<in> fst ` set (rp_contract_nodes proof) \<or> d7 (inner_key P c) \<noteq> None"
      "\<forall>c \<in> set (all_children (rp_classes_proof proof)). c \<in> fst ` set (rp_classes_proof proof) \<or> d8 (inner_key P c) \<noteq> None"
      "\<forall>ns \<in> set (rp_storage_proofs proof). \<forall>c \<in> set (all_children ns). c \<in> fst ` set ns \<or> d (inner_key P c) \<noteq> None"
    by blast+
  have up: "keeps_inner P a b \<Longrightarrow> a (inner_key P h) \<noteq> None \<Longrightarrow> b (inner_key P h) \<noteq> None" for a b h
    by (auto simp: keeps_inner_def)
  have "stored P (proof_nodes proof) d"
    using k6 k s3 by (meson keeps_inner_stored)
  then show ?thesis using present k by (auto simp: proof_tries_def) (blast dest: up)+
qed

section \<open>Leaves and dummies\<close>

definition leaf_key :: "('f, 'o, 'x) facts_ext_scheme \<Rightarrow> 'f leaf \<times> 'f option \<Rightarrow> string" where
  "leaf_key P lc = p_leaf_db_key P (fst lc) (snd lc) (x_to_bytes_be P (p_leaf_hash P (fst lc)))"

text \<open>The leaves of a proof and of the initial reads, with the contexts of their keys.\<close>

definition proof_leaves ::
  "('f, 'o, 'x) facts_ext_scheme \<Rightarrow> 'f rpc_storage_proof \<Rightarrow> 'f state_maps \<Rightarrow> ('f leaf \<times> 'f option) list"
where
  "proof_leaves P proof reads =
     map (\<lambda>l. (leaf_contract_state P l, None)) (rp_contract_leaves proof) @
     map (\<lambda>((address, key), v). (StorageValue v, Some address)) (sm_storage reads) @
     map (\<lambda>(c, h). (CompiledClassLeaf h, None)) (sm_compiled_class_hashes reads)"

text \<open>No two different leaves of the list have one key, as when their hashes do not collide.\<close>

definition keys_determine :: "('f, 'o, 'x) facts_ext_scheme \<Rightarrow> ('f leaf \<times> 'f option) list \<Rightarrow> bool" where
  "keys_determine P ls \<longleftrightarrow> (\<forall>x \<in> set ls. \<forall>y \<in> set ls. leaf_key P x = leaf_key P y \<longrightarrow> fst x = fst y)"

definition leaf_stored :: "('f, 'o, 'x) facts_ext_scheme \<Rightarrow> db \<Rightarrow> 'f leaf \<times> 'f option \<Rightarrow> bool" where
  "leaf_stored P d x \<longleftrightarrow>
     (\<exists>v. p_serialize P (FilledLeaf (p_leaf_hash P (fst x)) (fst x)) = Inr v \<and> d (leaf_key P x) = Some v)"

lemma insert_leaves_append:
  "insert_leaves P (ls @ ms) d = bindR (insert_leaves P ls d) (insert_leaves P ms)"
proof (induction ls arbitrary: d)
  case (Cons lc ls)
  obtain l c where "lc = (l, c)" by (cases lc)
  then show ?case using Cons by (cases "insert_leaf_node P (p_leaf_hash P l) l c d") simp_all
qed simp

lemma insert_leaves_stored:
  "insert_leaves P ls d = Inr d' \<Longrightarrow> keys_determine P (ms @ ls) \<Longrightarrow> list_all (leaf_stored P d) ms \<Longrightarrow>
     list_all (leaf_stored P d') (ms @ ls)"
proof (induction ls arbitrary: ms d)
  case (Cons x ls)
  obtain l c where x: "x = (l, c)" by (cases x)
  from Cons.prems(1) obtain v where v: "p_serialize P (FilledLeaf (p_leaf_hash P l) l) = Inr v"
    "insert_leaves P ls (d(leaf_key P x \<mapsto> v)) = Inr d'"
    by (auto simp: x insert_leaf_node_def result_simps Let_def leaf_key_def)
  have "leaf_stored P (d(leaf_key P x \<mapsto> v)) y" if y: "y \<in> set (ms @ [x])" for y
  proof (cases "leaf_key P y = leaf_key P x")
    case True
    have "y \<in> set (ms @ x # ls)" "x \<in> set (ms @ x # ls)" using y by auto
    then have "fst y = fst x" using Cons.prems(2) True unfolding keys_determine_def by blast
    then show ?thesis using v(1) True by (simp add: leaf_stored_def x)
  next
    case False
    then have "y \<in> set ms" using y by auto
    then show ?thesis using Cons.prems(3) False by (auto simp: leaf_stored_def list_all_iff)
  qed
  then have "list_all (leaf_stored P (d(leaf_key P x \<mapsto> v))) (ms @ [x])" by (simp only: list_all_iff) blast
  from Cons.IH [OF v(2) _ this] Cons.prems(2) show ?case by simp
qed simp

text \<open>A dummy goes under an inner key that holds nothing.\<close>

definition fills :: "('f, 'o, 'x) facts_ext_scheme \<Rightarrow> string \<Rightarrow> db \<Rightarrow> db \<Rightarrow> bool" where
  "fills P dummy d d' \<longleftrightarrow>
     (\<forall>k. d' k = d k \<or> (d k = None \<and> d' k = Some dummy \<and> (\<exists>c. k = inner_key P c)))"

lemma fills_refl: "fills P v d d"
  by (simp add: fills_def)

lemma fills_trans [trans]: "fills P v d d' \<Longrightarrow> fills P v d' d'' \<Longrightarrow> fills P v d d''"
  unfolding fills_def by metis

lemma fills_dummy: "fills P v d (add_dummy_node_for_orphan_child P S v c d)"
  by (auto simp: add_dummy_node_for_orphan_child_def fills_def split: option.split)

lemma fills_foldl: "fills P v d (foldl (\<lambda>d c. add_dummy_node_for_orphan_child P S v c d) d cs)"
  by (induction cs arbitrary: d) (auto intro: fills_refl fills_trans fills_dummy)

definition dummy_text :: "('f, 'o, 'x) facts_ext_scheme \<Rightarrow> string \<Rightarrow> bool" where
  "dummy_text P v \<longleftrightarrow> p_serialize P (FilledBinary (x_zero P) (x_zero P) (x_zero P)) = Inr v"

lemma add_dummy_nodes_fills:
  assumes "add_dummy_nodes_for_orphan_hashes P ns d = Inr d'"
  shows "\<exists>v. dummy_text P v \<and> fills P v d d'"
proof -
  from assms obtain v where v: "dummy_text P v"
    "d' = foldl (\<lambda>d (h, node). foldl (\<lambda>d c. add_dummy_node_for_orphan_child P (fst ` set ns) v c d) d (node_children node)) d ns"
    by (auto simp: add_dummy_nodes_for_orphan_hashes_def Let_def result_simps dummy_text_def)
  then have "d' = foldl (\<lambda>d c. add_dummy_node_for_orphan_child P (fst ` set ns) v c d) d (all_children ns)"
    by (simp only: foldl_children)
  with v(1) fills_foldl [of P v d "fst ` set ns" "all_children ns"] show ?thesis by blast
qed

lemma for_each_dummy_fills:
  "for_each (add_dummy_nodes_for_orphan_hashes P) sps d = Inr d' \<Longrightarrow> dummy_text P v \<Longrightarrow> fills P v d d'"
proof (induction sps arbitrary: d)
  case (Cons ns sps)
  then obtain d1 where d1: "add_dummy_nodes_for_orphan_hashes P ns d = Inr d1"
    "for_each (add_dummy_nodes_for_orphan_hashes P) sps d1 = Inr d'" by (auto simp: result_simps)
  from add_dummy_nodes_fills [OF d1(1)] Cons.prems(2) have "fills P v d d1" by (auto simp: dummy_text_def)
  with Cons.IH [OF d1(2) Cons.prems(2)] show ?case by (blast intro: fills_trans)
qed (simp add: fills_refl)

text \<open>Inner nodes go under the keys of their hashes only, leaves under no inner key.\<close>

lemma insert_inner_nodes_other:
  "insert_inner_nodes P ns d = Inr d' \<Longrightarrow> k \<notin> inner_key P ` fst ` set ns \<Longrightarrow> d' k = d k"
proof (induction ns arbitrary: d)
  case (Cons hn ns)
  obtain h n where hn: "hn = (h, n)" by (cases hn)
  from Cons.prems(1) obtain v where "insert_inner_nodes P ns (d(inner_key P h \<mapsto> v)) = Inr d'"
    by (auto simp: hn result_simps)
  from Cons.IH [OF this] Cons.prems(2) show ?case by (auto simp: hn)
qed simp

lemma for_each_insert_other:
  "for_each (insert_inner_nodes P) sps d = Inr d' \<Longrightarrow> k \<notin> inner_key P ` fst ` set (concat sps) \<Longrightarrow> d' k = d k"
proof (induction sps arbitrary: d)
  case (Cons ns sps)
  then obtain d1 where d1: "insert_inner_nodes P ns d = Inr d1" "for_each (insert_inner_nodes P) sps d1 = Inr d'"
    by (auto simp: result_simps)
  have "d' k = d1 k" using Cons.IH [OF d1(2)] Cons.prems(2) by auto
  moreover have "d1 k = d k" using insert_inner_nodes_other [OF d1(1)] Cons.prems(2) by auto
  ultimately show ?case by simp
qed simp

lemma insert_leaves_other:
  "db_key_laws P \<Longrightarrow> insert_leaves P ls d = Inr d' \<Longrightarrow> d' (inner_key P h) = d (inner_key P h)"
proof (induction ls arbitrary: d)
  case (Cons x ls)
  obtain l c where x: "x = (l, c)" by (cases x)
  from Cons.prems(2) obtain v where "insert_leaves P ls (d(leaf_key P x \<mapsto> v)) = Inr d'"
    by (auto simp: x insert_leaf_node_def result_simps Let_def leaf_key_def)
  moreover have "inner_key P h \<noteq> leaf_key P x"
    using Cons.prems(1) unfolding db_key_laws_def leaf_key_def by metis
  ultimately show ?case using Cons.IH [OF Cons.prems(1)] by simp
qed simp

lemma zip_first: "length xs = length ys \<Longrightarrow> map (\<lambda>(x, y). f x) (zip xs ys) = map f xs"
  by (induction xs ys rule: list_induct2) simp_all

lemma create_facts_db_parts:
  assumes "create_facts_db_from_storage_proof P proof query reads = Inr d"
  shows "\<exists>d3 d6 v. for_each (insert_inner_nodes P) (proof_tries proof) Map.empty = Inr d3 \<and>
     insert_leaves P (proof_leaves P proof reads) d3 = Inr d6 \<and> dummy_text P v \<and> fills P v d6 d"
proof -
  from assms obtain d1 d2 d3 d4 d5 d6 d7 d8 where
    d1: "insert_inner_nodes P (rp_contract_nodes proof) Map.empty = Inr d1" and
    d2: "insert_inner_nodes P (rp_classes_proof proof) d1 = Inr d2" and
    d3: "for_each (insert_inner_nodes P) (rp_storage_proofs proof) d2 = Inr d3" and
    d4: "insert_contract_leaves P proof query d3 = Inr d4" and
    d5: "insert_storage_leaves P reads d4 = Inr d5" and
    d6: "insert_compiled_class_leaves P reads d5 = Inr d6" and
    d7: "add_dummy_nodes_for_orphan_hashes P (rp_contract_nodes proof) d6 = Inr d7" and
    d8: "add_dummy_nodes_for_orphan_hashes P (rp_classes_proof proof) d7 = Inr d8" and
    d9: "for_each (add_dummy_nodes_for_orphan_hashes P) (rp_storage_proofs proof) d8 = Inr d"
    by (auto simp: create_facts_db_from_storage_proof_def result_simps)
  have nodes: "for_each (insert_inner_nodes P) (proof_tries proof) Map.empty = Inr d3"
    by (simp add: proof_tries_def d1 d2 d3)
  have "length (rp_contract_leaves proof) = length (q_contract_addresses query)"
    using d4 by (auto simp: insert_contract_leaves_def Let_def split: if_splits)
  note zip = zip_first [OF this, of "\<lambda>l. (leaf_contract_state P l, None)"]
  have "insert_leaves P (map (\<lambda>l. (leaf_contract_state P l, None)) (rp_contract_leaves proof)) d3 = Inr d4"
    using d4 by (auto simp: insert_contract_leaves_def Let_def zip split: if_splits)
  with d5 d6 have leaves: "insert_leaves P (proof_leaves P proof reads) d3 = Inr d6"
    by (simp add: proof_leaves_def insert_leaves_append insert_storage_leaves_def insert_compiled_class_leaves_def)
  obtain v where v: "dummy_text P v" "fills P v d6 d7" using add_dummy_nodes_fills [OF d7] by blast
  have "fills P v d7 d8" using add_dummy_nodes_fills [OF d8] v(1) by (auto simp: dummy_text_def)
  with v(2) for_each_dummy_fills [OF d9 v(1)] have "fills P v d6 d" by (blast intro: fills_trans)
  with nodes leaves v(1) show ?thesis by blast
qed

text \<open>C25. In the facts database built from a proof whose hashes determine their nodes, every node of the proof is found under its key with its own serialisation, every child of a node that is no node of the proof has under its inner key exactly the dummy node, so a dummy never replaces a real node, and every contract state of the proof and every storage value and compiled class hash of the initial reads is found under its leaf key with its own serialisation. Assumed: the keys of inner nodes are injective and apart from leaf keys, and leaves with the same key are the same leaf.\<close>
theorem facts_db_complete:
  assumes "db_key_laws P" "consistent N (proof_nodes proof)" "keys_determine P (proof_leaves P proof reads)"
    and "create_facts_db_from_storage_proof P proof query reads = Inr d"
  shows "list_all (\<lambda>(h, n). \<exists>v. p_serialize P (FilledRpc h n) = Inr v \<and> d (inner_key P h) = Some v) (proof_nodes proof) \<and>
         (\<exists>dummy. p_serialize P (FilledBinary (x_zero P) (x_zero P) (x_zero P)) = Inr dummy \<and>
            list_all (\<lambda>c. c \<in> fst ` set (proof_nodes proof) \<or> d (inner_key P c) = Some dummy) (all_children (proof_nodes proof))) \<and>
         list_all (leaf_stored P d) (proof_leaves P proof reads)"
proof -
  note steps = create_facts_db_steps [OF assms(1,2,4)]
  then have stored: "stored P (proof_nodes proof) d" by blast
  obtain d3 d6 dummy where d3: "for_each (insert_inner_nodes P) (proof_tries proof) Map.empty = Inr d3"
    and d6: "insert_leaves P (proof_leaves P proof reads) d3 = Inr d6"
    and dummy: "dummy_text P dummy" "fills P dummy d6 d" using create_facts_db_parts [OF assms(4)] by blast
  have "d (inner_key P c) = Some dummy"
    if c: "c \<in> set (all_children (proof_nodes proof))" "c \<notin> fst ` set (proof_nodes proof)" for c
  proof -
    from c(1) obtain ns where ns: "ns \<in> set (proof_tries proof)" "c \<in> set (all_children ns)"
      by (auto simp: proof_nodes_def all_children_def)
    from ns(1) c(2) have "c \<notin> fst ` set ns" by (auto simp: proof_nodes_def)
    with steps ns have some: "d (inner_key P c) \<noteq> None" by blast
    have "inner_key P c \<notin> inner_key P ` fst ` set (concat (proof_tries proof))"
    proof
      assume "inner_key P c \<in> inner_key P ` fst ` set (concat (proof_tries proof))"
      then have "c \<in> fst ` set (concat (proof_tries proof))" using assms(1) unfolding db_key_laws_def by blast
      with c(2) show False by (simp add: proof_nodes_def)
    qed
    from for_each_insert_other [OF d3 this] have "d6 (inner_key P c) = None"
      by (simp add: insert_leaves_other [OF assms(1) d6])
    with dummy(2) some show ?thesis unfolding fills_def by metis
  qed
  then have children: "list_all (\<lambda>c. c \<in> fst ` set (proof_nodes proof) \<or> d (inner_key P c) = Some dummy) (all_children (proof_nodes proof))"
    by (auto simp: list_all_iff)
  have "list_all (leaf_stored P d6) (proof_leaves P proof reads)"
    using insert_leaves_stored [OF d6, of "[]"] assms(3) by simp
  moreover have "d (leaf_key P x) = d6 (leaf_key P x)" for x
    using dummy(2) assms(1) unfolding fills_def db_key_laws_def leaf_key_def by metis
  ultimately have "list_all (leaf_stored P d) (proof_leaves P proof reads)" by (simp add: list_all_iff leaf_stored_def)
  with children stored dummy(1) show ?thesis unfolding dummy_text_def by (auto simp: list_all_iff stored_def)
qed

text \<open>When the codec accepts every node, only a length mismatch makes the construction fail.\<close>

lemma for_each_total: "(\<And>x d. \<exists>d'. f x d = Inr d') \<Longrightarrow> \<exists>d'. for_each f xs d = Inr d'"
proof (induction xs arbitrary: d)
  case Nil
  then show ?case by simp
next
  case (Cons x xs)
  from Cons.prems [of x d] obtain d1 where "f x d = Inr d1" by blast
  with Cons.IH [of d1] Cons.prems show ?case by simp
qed

lemma create_facts_db_total:
  assumes tot: "\<And>n. \<exists>v. p_serialize P n = Inr v"
    and len: "length (rp_contract_leaves proof) = length (q_contract_addresses query)"
  shows "\<exists>d. create_facts_db_from_storage_proof P proof query reads = Inr d"
proof -
  have inner: "\<exists>d'. insert_inner_nodes P ns d = Inr d'" for ns d
  proof (induction ns arbitrary: d)
    case Nil
    then show ?case by simp
  next
    case (Cons hn ns)
    obtain h n where hn: "hn = (h, n)" by (cases hn)
    from tot [of "FilledRpc h n"] obtain v where "p_serialize P (FilledRpc h n) = Inr v" by blast
    with Cons show ?case by (simp add: hn)
  qed
  have leaf: "\<exists>d'. insert_leaf_node P h l ctx d = Inr d'" for h l ctx d
    using tot [of "FilledLeaf h l"] by (auto simp: insert_leaf_node_def Let_def)
  have leaves: "\<exists>d'. insert_leaves P ls d = Inr d'" for ls d
  proof (induction ls arbitrary: d)
    case Nil
    then show ?case by simp
  next
    case (Cons lc ls)
    obtain l ctx where lc: "lc = (l, ctx)" by (cases lc)
    from leaf [of "p_leaf_hash P l" l ctx d] obtain d1 where "insert_leaf_node P (p_leaf_hash P l) l ctx d = Inr d1" by blast
    with Cons [of d1] show ?case by (simp add: lc)
  qed
  have dummy: "\<exists>d'. add_dummy_nodes_for_orphan_hashes P ns d = Inr d'" for ns d
    using tot [of "FilledBinary (x_zero P) (x_zero P) (x_zero P)"]
    by (auto simp: add_dummy_nodes_for_orphan_hashes_def Let_def)
  have ok: "bindR m f = Inr d \<longleftrightarrow> (\<exists>x. m = Inr x \<and> f x = Inr d)" for m :: "proof_provider_error + db" and f d
    by (rule bindR_Inr_iff)
  show ?thesis
    unfolding create_facts_db_from_storage_proof_def ok insert_contract_leaves_def insert_storage_leaves_def
      insert_compiled_class_leaves_def Let_def
    using inner leaves dummy for_each_total [of "insert_inner_nodes P", OF inner]
      for_each_total [of "add_dummy_nodes_for_orphan_hashes P", OF dummy] len
    by (simp split: if_splits) meson
qed

text \<open>An instance: keys are a prefix and the hex digits of the hash, values are texts.\<close>

definition ref_facts_ext :: "(nat, unit) facts_ext" where
  "ref_facts_ext = ext.extend (ref_ext\<lparr>x_to_bytes_be := hex_digits\<rparr>)
     (facts_ext.fields
        (\<lambda>n. case n of FilledBinary h l r \<Rightarrow> Inr (''b'' @ fmt_hex l @ fmt_hex r)
                     | FilledRpc h m \<Rightarrow> Inr (''n'' @ fmt_hex h)
                     | FilledLeaf h l \<Rightarrow> Inr (''l'' @ fmt_hex h))
        (\<lambda>p s b. p @ s @ b) ''inner'' '':'' (\<lambda>l ctx b. ''leaf:'' @ b)
        (\<lambda>l. case l of ContractState n c r \<Rightarrow> ref_hash [n, c, r] | StorageValue v \<Rightarrow> v | CompiledClassLeaf v \<Rightarrow> ref_hash [v])
        (\<lambda>st. map (\<lambda>((a, k), v). (a, [(k, v)])) st)
        (\<lambda>diff roots d. Inr ()) (\<lambda>forest d. Inr d) (\<lambda>forest. 1) (\<lambda>forest. 2) fmt_hex fmt_hex (\<lambda>m. ''{}''))"

lemma ext_extend_sel [simp]:
  "x_to_bytes_be (ext.extend r m) = x_to_bytes_be r" "x_zero (ext.extend r m) = x_zero r"
  by (simp_all add: ext.defs)

lemma facts_fields_sel [simp]:
  "p_serialize (ext.extend r (facts_ext.fields a b c d e f g h i j k l m n)) = a"
  "p_create_db_key (ext.extend r (facts_ext.fields a b c d e f g h i j k l m n)) = b"
  "p_inner_prefix (ext.extend r (facts_ext.fields a b c d e f g h i j k l m n)) = c"
  "p_separator (ext.extend r (facts_ext.fields a b c d e f g h i j k l m n)) = d"
  "p_leaf_db_key (ext.extend r (facts_ext.fields a b c d e f g h i j k l m n)) = e"
  by (simp_all add: ext.defs facts_ext.defs)

lemma ref_facts_simps [simp]:
  "p_serialize ref_facts_ext = (\<lambda>n. case n of FilledBinary h l r \<Rightarrow> Inr (''b'' @ fmt_hex l @ fmt_hex r)
                     | FilledRpc h m \<Rightarrow> Inr (''n'' @ fmt_hex h)
                     | FilledLeaf h l \<Rightarrow> Inr (''l'' @ fmt_hex h))"
  "p_create_db_key ref_facts_ext = (\<lambda>p s b. p @ s @ b)"
  "p_inner_prefix ref_facts_ext = ''inner''" "p_separator ref_facts_ext = '':''"
  "p_leaf_db_key ref_facts_ext = (\<lambda>l ctx b. ''leaf:'' @ b)"
  "x_to_bytes_be ref_facts_ext = hex_digits" "x_zero ref_facts_ext = 0"
  by (simp_all add: ref_facts_ext_def) (simp add: ref_ext_def)

lemma ref_db_key_laws: "db_key_laws ref_facts_ext"
proof -
  have "hex_digits a = hex_digits b \<Longrightarrow> a = b" for a b
    by (metis hex_nat_hex_digits option.inject)
  then show ?thesis by (auto simp: db_key_laws_def inner_key_def)
qed

definition sample_proof :: "nat rpc_storage_proof" where
  "sample_proof =
     \<lparr>rp_classes_proof = [(20, EdgeNode 3 2 21)], rp_contract_nodes = [(10, BinaryNode 11 12), (11, EdgeNode 1 4 13)],
      rp_contract_leaves = [\<lparr>leaf_nonce = 1, leaf_class_hash = 7, leaf_storage_root = None\<rparr>],
      rp_storage_proofs = [[(30, BinaryNode 31 32)]],
      rp_global_roots = \<lparr>contracts_tree_root = 10, classes_tree_root = 20, roots_block_hash = 99\<rparr>\<rparr>"

definition one_contract_query :: "nat storage_query" where
  "one_contract_query =
     \<lparr>q_class_hashes = [7], q_contract_addresses = [1],
      q_contract_storage_keys = [\<lparr>csk_address = 1, csk_keys = [5]\<rparr>]\<rparr>"

theorem facts_db_complete_witness:
  "\<exists>d. create_facts_db_from_storage_proof ref_facts_ext sample_proof one_contract_query
          (empty_state_maps\<lparr>sm_storage := [((1, 5), 6)]\<rparr>) = Inr d \<and>
       d (inner_key ref_facts_ext 11) = Some (''n'' @ fmt_hex 11) \<and> d (inner_key ref_facts_ext 32) \<noteq> None"
proof -
  let ?N = "\<lambda>h. map_of (proof_nodes sample_proof) h"
  have c: "consistent ?N (proof_nodes sample_proof)"
    by (simp add: consistent_def proof_nodes_def proof_tries_def sample_proof_def)
  have "\<exists>d. create_facts_db_from_storage_proof ref_facts_ext sample_proof one_contract_query
          (empty_state_maps\<lparr>sm_storage := [((1, 5), 6)]\<rparr>) = Inr d"
    by (simp add: create_facts_db_from_storage_proof_def sample_proof_def one_contract_query_def
        insert_contract_leaves_def insert_storage_leaves_def insert_compiled_class_leaves_def
        add_dummy_nodes_for_orphan_hashes_def insert_leaf_node_def leaf_contract_state_def empty_state_maps_def Let_def)
  then obtain d where d: "create_facts_db_from_storage_proof ref_facts_ext sample_proof one_contract_query
          (empty_state_maps\<lparr>sm_storage := [((1, 5), 6)]\<rparr>) = Inr d" by blast
  let ?reads = "empty_state_maps\<lparr>sm_storage := [((1, 5), 6)]\<rparr> :: nat state_maps"
  have hash: "p_leaf_hash ref_facts_ext = (\<lambda>l. case l of ContractState n c r \<Rightarrow> ref_hash [n, c, r] | StorageValue v \<Rightarrow> v
      | CompiledClassLeaf v \<Rightarrow> ref_hash [v])" "x_zero ref_facts_ext = 0"
    by (simp_all add: ref_facts_ext_def ext.defs facts_ext.defs) (simp add: ref_ext_def)
  have "ref_hash [1, 7, 0] \<noteq> 6" by (simp add: ref_hash_def felt_prime_def)
  then have ne: "hex_digits (ref_hash [1, 7, 0]) \<noteq> hex_digits 6" by (metis hex_nat_hex_digits option.inject)
  have leaves: "proof_leaves ref_facts_ext sample_proof ?reads = [(ContractState 1 7 0, None), (StorageValue 6, Some 1)]"
    by (simp add: proof_leaves_def leaf_contract_state_def sample_proof_def hash(2) empty_state_maps_def)
  have "leaf_key ref_facts_ext (ContractState 1 7 0, None) = ''leaf:'' @ hex_digits (ref_hash [1, 7, 0])"
    "leaf_key ref_facts_ext (StorageValue 6, Some 1) = ''leaf:'' @ hex_digits 6"
    by (simp_all only: leaf_key_def ref_facts_simps hash(1) leaf.case fst_conv)
  then have keys: "leaf_key ref_facts_ext (ContractState 1 7 0, None) \<noteq> leaf_key ref_facts_ext (StorageValue 6, Some 1)"
    using ne by (simp only: same_append_eq) simp
  have k: "keys_determine ref_facts_ext (proof_leaves ref_facts_ext sample_proof ?reads)"
    unfolding keys_determine_def leaves using keys by (simp only: set_simps ball_simps insert_iff) metis
  note complete = facts_db_complete [OF ref_db_key_laws c k d]
  have "(11, EdgeNode 1 4 13) \<in> set (proof_nodes sample_proof)" "32 \<in> set (all_children (proof_nodes sample_proof))"
    "32 \<notin> fst ` set (proof_nodes sample_proof)"
    by (simp_all add: proof_nodes_def proof_tries_def all_children_def sample_proof_def)
  moreover from this(1) complete have "d (inner_key ref_facts_ext 11) = Some (''n'' @ fmt_hex 11)"
    unfolding list_all_iff by fastforce
  moreover from calculation(2,3) complete have "d (inner_key ref_facts_ext 32) \<noteq> None" unfolding list_all_iff by blast
  ultimately show ?thesis using d by blast
qed

end
