(* ===== verification/Storage_Provider.thy ===== *)
theory Storage_Provider
  imports Facts_Db
begin

text \<open>
  The storage-proof provider, \<open>RpcStorageProofsProvider\<close> in
  \<open>starknet_transaction_prover/src/running/storage_proofs.rs\<close>: preparing the query from the
  state an execution read, fetching the proof in chunks of at most \<open>MAX_KEYS_PER_REQUEST\<close> keys,
  and turning it into commitment infos with or without state changes. The node is a function of
  the number of requests made so far and the request; the world is the list of requests. The
  interface \<open>storage_proof_provider\<close> states what a client of the trait may rely on, and is
  interpreted on the RPC provider.
\<close>

record ('f, 'o) storage_ext = "('f, 'o) facts_ext" +
  p_contract_addresses :: "'f state_maps \<Rightarrow> 'f list"
  p_addr_le :: "'f \<Rightarrow> 'f \<Rightarrow> bool"
  p_contract_address_try_from :: "'f \<Rightarrow> string + 'f"
  p_preimage :: "'f merkle_node \<Rightarrow> 'o"
  p_flatten_preimages :: "('f \<times> 'o) list \<Rightarrow> ('f \<times> 'f list) list"
  p_state_keys :: "'f state_maps \<Rightarrow> 'o"
  p_create_commitment_infos :: "'f state_roots \<Rightarrow> 'f state_roots \<Rightarrow> db \<Rightarrow> 'o \<Rightarrow> string + 'f state_commitment_infos"
  p_actual_height :: nat

type_synonym 'f proof_node = "nat \<Rightarrow> u64 \<Rightarrow> 'f storage_query \<Rightarrow> string + 'f rpc_storage_proof"
type_synonym 'f proof_trace = "(u64 \<times> 'f storage_query) list"

definition MAX_KEYS_PER_REQUEST :: nat where
  "MAX_KEYS_PER_REQUEST = 100"

record storage_proof_config =
  include_state_changes :: bool

definition default_storage_proof_config :: storage_proof_config where
  "default_storage_proof_config = \<lparr>include_state_changes = True\<rparr>"

record 'f storage_proofs =
  extended_initial_reads :: "'f state_maps"
  commitment_infos :: "'f state_commitment_infos"

section \<open>The query\<close>

definition storage_by_address :: "(('f \<times> 'f) \<times> 'f) list \<Rightarrow> ('f \<times> 'f list) list" where
  "storage_by_address st =
     foldl (\<lambda>m ((a, k), v). AList.update a ((case map_of m a of Some ks \<Rightarrow> ks | None \<Rightarrow> []) @ [k]) m) [] st"

definition prepare_query :: "('f, 'o, 'x) storage_ext_scheme \<Rightarrow> ('f, 'o) execution_data \<Rightarrow> 'f storage_query" where
  "prepare_query P ed =
     (let class_hashes = ed_executed_class_hashes ed;
          initial_reads = ed_initial_reads ed;
          contract_addresses = sort_by (p_addr_le P) (p_contract_addresses P initial_reads);
          by_address = storage_by_address (sm_storage initial_reads)
      in \<lparr>q_class_hashes = class_hashes, q_contract_addresses = contract_addresses,
          q_contract_storage_keys =
            map (\<lambda>a. \<lparr>csk_address = a, csk_keys = (case map_of by_address a of Some ks \<Rightarrow> ks | None \<Rightarrow> [])\<rparr>)
                contract_addresses\<rparr>)"

section \<open>Fetching\<close>

definition fetch_single_proof ::
  "'f proof_node \<Rightarrow> u64 \<Rightarrow> 'f storage_query \<Rightarrow> 'f proof_trace \<Rightarrow> (proof_provider_error + 'f rpc_storage_proof) \<times> 'f proof_trace"
where
  "fetch_single_proof N bn q w = (map_err ProofRpc (N (length w) bn q), w @ [(bn, q)])"

fun fetch_chunks ::
  "'f proof_node \<Rightarrow> u64 \<Rightarrow> 'f storage_query list \<Rightarrow> 'f proof_trace
   \<Rightarrow> (proof_provider_error + 'f rpc_storage_proof list) \<times> 'f proof_trace"
where
  "fetch_chunks N bn [] = returnW []"
| "fetch_chunks N bn (c # cs) =
     bindW (fetch_single_proof N bn c) (\<lambda>p. bindW (fetch_chunks N bn cs) (\<lambda>ps. returnW (p # ps)))"

text \<open>\<open>None\<close> is a panic of \<open>split_query\<close> or \<open>merge_storage_proofs\<close>.\<close>

definition fetch_proofs ::
  "'f proof_node \<Rightarrow> u64 \<Rightarrow> 'f storage_query \<Rightarrow> 'f proof_trace
   \<Rightarrow> (proof_provider_error + 'f rpc_storage_proof option) \<times> 'f proof_trace"
where
  "fetch_proofs N bn q =
     (if count_total_keys q \<le> MAX_KEYS_PER_REQUEST
      then bindW (fetch_single_proof N bn q) (\<lambda>p. returnW (Some p))
      else case split_query q MAX_KEYS_PER_REQUEST of
             None \<Rightarrow> returnW None
           | Some cs \<Rightarrow> bindW (fetch_chunks N bn cs) (\<lambda>ps. returnW (merge_storage_proofs ps cs q)))"

section \<open>Commitment infos\<close>

definition rpc_nodes_to_preimage_map ::
  "('f, 'o, 'x) storage_ext_scheme \<Rightarrow> 'f node_map \<Rightarrow> ('f \<times> 'o) list"
where
  "rpc_nodes_to_preimage_map P nodes = map (\<lambda>(h, n). (h, p_preimage P n)) nodes"

definition same_root_info :: "('f, 'o, 'x) storage_ext_scheme \<Rightarrow> 'f \<Rightarrow> 'f node_map \<Rightarrow> 'f commitment_info" where
  "same_root_info P root nodes =
     \<lparr>ci_previous_root = root, ci_updated_root = root, ci_tree_height = p_actual_height P,
      ci_commitment_facts = p_flatten_preimages P (rpc_nodes_to_preimage_map P nodes)\<rparr>"

definition storage_commitment_info ::
  "('f, 'o, 'x) storage_ext_scheme \<Rightarrow> ('f \<rightharpoonup> 'f contract_leaf) \<Rightarrow> 'f contract_storage_keys \<Rightarrow> 'f node_map
   \<Rightarrow> proof_provider_error + 'f \<times> 'f commitment_info"
where
  "storage_commitment_info P addr_to_leaf csk storage_proof =
     bindR (map_err (\<lambda>e. InvalidProofResponse (''Invalid contract address in storage keys: '' @ e))
              (p_contract_address_try_from P (csk_address csk))) (\<lambda>addr.
     bindR (ok_or (InvalidProofResponse (''Contract address '' @ p_debug_felt P addr @
                     '' in storage_keys not found in contract_addresses'')) (addr_to_leaf addr)) (\<lambda>leaf.
     let storage_root = (case leaf_storage_root leaf of Some r \<Rightarrow> r | None \<Rightarrow> x_zero P)
     in Inr (addr, same_root_info P storage_root storage_proof)))"

definition build_storage_commitment_infos ::
  "('f, 'o, 'x) storage_ext_scheme \<Rightarrow> 'f rpc_storage_proof \<Rightarrow> 'f storage_query
   \<Rightarrow> proof_provider_error + ('f \<times> 'f commitment_info) list"
where
  "build_storage_commitment_infos P proof query =
     (let storage_proofs = rp_storage_proofs proof
      in if length storage_proofs \<noteq> length (q_contract_storage_keys query)
         then Inl (InvalidProofResponse
                (''Storage proofs length mismatch: expected '' @ fmt_dec (length (q_contract_storage_keys query)) @
                 '' proofs for contracts with storage keys, got '' @ fmt_dec (length storage_proofs)))
         else let addr_to_leaf = map_of (rev (zip (q_contract_addresses query) (rp_contract_leaves proof)))
              in map_ok (im_extend [])
                   (collectR (map (\<lambda>(csk, sp). storage_commitment_info P addr_to_leaf csk sp)
                                  (zip (q_contract_storage_keys query) storage_proofs))))"

definition create_commitment_infos_without_state_changes ::
  "('f, 'o, 'x) storage_ext_scheme \<Rightarrow> 'f rpc_storage_proof \<Rightarrow> 'f storage_query
   \<Rightarrow> proof_provider_error + 'f state_commitment_infos"
where
  "create_commitment_infos_without_state_changes P proof query =
     (let contracts_root = contracts_tree_root (rp_global_roots proof);
          classes_root = classes_tree_root (rp_global_roots proof)
      in bindR (build_storage_commitment_infos P proof query) (\<lambda>storage_infos.
           Inr \<lparr>contracts_trie_info = same_root_info P contracts_root (rp_contract_nodes proof),
                classes_trie_info = same_root_info P classes_root (rp_classes_proof proof),
                storage_tries_infos = storage_infos\<rparr>))"

definition extend_classes_facts ::
  "('f \<times> 'f list) list \<Rightarrow> 'f state_commitment_infos \<Rightarrow> 'f state_commitment_infos"
where
  "extend_classes_facts facts infos =
     infos\<lparr>classes_trie_info := (classes_trie_info infos)
             \<lparr>ci_commitment_facts := im_extend (ci_commitment_facts (classes_trie_info infos)) facts\<rparr>\<rparr>"

definition create_commitment_infos_with_state_changes ::
  "('f, 'o, 'x) storage_ext_scheme \<Rightarrow> 'f rpc_storage_proof \<Rightarrow> 'f storage_query \<Rightarrow> 'f state_maps \<Rightarrow> 'f state_maps
   \<Rightarrow> proof_provider_error + 'f state_commitment_infos"
where
  "create_commitment_infos_with_state_changes P proof query reads state_diff =
     bindR (create_facts_db_from_storage_proof P proof query reads) (\<lambda>facts_db.
     let contracts_root = contracts_tree_root (rp_global_roots proof);
         classes_root = classes_tree_root (rp_global_roots proof);
         committer_state_diff = state_maps_to_committer_state_diff P state_diff
     in bindR (validate_virtual_os_state_diff P committer_state_diff) (\<lambda>_.
        bindR (commit_state_diff P contracts_root classes_root committer_state_diff facts_db) (\<lambda>(new_roots, facts_db').
        let previous_roots = \<lparr>contracts_trie_root_hash = contracts_root, classes_trie_root_hash = classes_root\<rparr>
        in bindR (map_err BlockCommitmentError
                   (p_create_commitment_infos P previous_roots new_roots facts_db' (p_state_keys P reads))) (\<lambda>infos.
           Inr (extend_classes_facts
                  (p_flatten_preimages P (rpc_nodes_to_preimage_map P (rp_classes_proof proof))) infos)))))"

section \<open>The provider\<close>

definition extend_reads ::
  "'f rpc_storage_proof \<Rightarrow> 'f storage_query \<Rightarrow> 'f state_maps \<Rightarrow> 'f state_maps"
where
  "extend_reads proof query reads =
     (let leaves = zip (rp_contract_leaves proof) (q_contract_addresses query)
      in empty_state_maps
           \<lparr>sm_class_hashes := im_extend [] (map (\<lambda>(l, a). (a, leaf_class_hash l)) leaves),
            sm_nonces := im_extend [] (map (\<lambda>(l, a). (a, leaf_nonce l)) leaves),
            sm_storage := im_extend [] (sm_storage reads)\<rparr>)"

definition proofs_of_response ::
  "('f, 'o, 'x) storage_ext_scheme \<Rightarrow> ('f, 'o) execution_data \<Rightarrow> storage_proof_config \<Rightarrow> 'f storage_query
   \<Rightarrow> 'f rpc_storage_proof \<Rightarrow> proof_provider_error + 'f storage_proofs"
where
  "proofs_of_response P ed config query proof =
     (let leaves_len = length (rp_contract_leaves proof);
          addresses_len = length (q_contract_addresses query)
      in if leaves_len \<noteq> addresses_len
         then Inl (InvalidProofResponse (''Contract leaves length mismatch: expected '' @ fmt_dec addresses_len @
                '' leaves for requested contracts, got '' @ fmt_dec leaves_len))
         else let reads = extend_reads proof query (ed_initial_reads ed)
              in bindR (if include_state_changes config
                        then create_commitment_infos_with_state_changes P proof query reads (ed_state_diff ed)
                        else create_commitment_infos_without_state_changes P proof query) (\<lambda>infos.
                   Inr \<lparr>extended_initial_reads = reads, commitment_infos = infos\<rparr>))"

text \<open>The outer \<open>option\<close> is \<open>None\<close> when a panic unwinds through the call.\<close>

definition get_storage_proofs ::
  "('f, 'o, 'x) storage_ext_scheme \<Rightarrow> 'f proof_node \<Rightarrow> u64 \<Rightarrow> ('f, 'o) execution_data \<Rightarrow> storage_proof_config
   \<Rightarrow> 'f proof_trace \<Rightarrow> (proof_provider_error + 'f storage_proofs option) \<times> 'f proof_trace"
where
  "get_storage_proofs P N bn ed config =
     (let query = prepare_query P ed
      in bindW (fetch_proofs N bn query) (\<lambda>r.
           case r of
             None \<Rightarrow> returnW None
           | Some proof \<Rightarrow> liftW (map_ok Some (proofs_of_response P ed config query proof))))"

section \<open>The prepared query\<close>

lemma storage_by_address_lookup:
  "(case map_of (storage_by_address st) a of Some ks \<Rightarrow> ks | None \<Rightarrow> [])
   = concat (map (\<lambda>((b, k), v). if b = a then [k] else []) st)"
proof (induction st rule: rev_induct)
  case Nil
  then show ?case by (simp add: storage_by_address_def)
next
  case (snoc x st)
  obtain b k v where x: "x = ((b, k), v)" by (metis surj_pair)
  from snoc show ?case by (auto simp: storage_by_address_def x update_conv')
qed

lemma prepare_query_fields:
  "q_class_hashes (prepare_query P ed) = ed_executed_class_hashes ed"
  "set (q_contract_addresses (prepare_query P ed)) = set (p_contract_addresses P (ed_initial_reads ed))"
  "map csk_address (q_contract_storage_keys (prepare_query P ed)) = q_contract_addresses (prepare_query P ed)"
  "csk \<in> set (q_contract_storage_keys (prepare_query P ed)) \<Longrightarrow>
     csk_keys csk = concat (map (\<lambda>((b, k), v). if b = csk_address csk then [k] else []) (sm_storage (ed_initial_reads ed)))"
  by (auto simp: prepare_query_def Let_def comp_def storage_by_address_lookup)

theorem prepare_query_covers_reads:
  assumes "distinct (p_contract_addresses P (ed_initial_reads ed))"
    and "fst ` fst ` set (sm_storage (ed_initial_reads ed)) \<subseteq> set (p_contract_addresses P (ed_initial_reads ed))"
  shows "q_class_hashes (prepare_query P ed) = ed_executed_class_hashes ed \<and>
         distinct (q_contract_addresses (prepare_query P ed)) \<and>
         set (q_contract_addresses (prepare_query P ed)) = set (p_contract_addresses P (ed_initial_reads ed)) \<and>
         {(a, k). QStorageKey a k \<in> set (flatten_query (prepare_query P ed))} = fst ` set (sm_storage (ed_initial_reads ed))"
proof -
  let ?q = "prepare_query P ed" and ?st = "sm_storage (ed_initial_reads ed)"
  have d: "distinct (q_contract_addresses ?q)"
    using assms(1) by (simp add: prepare_query_def Let_def)
  have "QStorageKey a k \<in> set (flatten_query ?q) \<longleftrightarrow> (a, k) \<in> fst ` set ?st" for a k
  proof
    assume "QStorageKey a k \<in> set (flatten_query ?q)"
    then obtain csk where csk: "csk \<in> set (q_contract_storage_keys ?q)" "csk_address csk = a" "k \<in> set (csk_keys csk)"
      by (auto simp: flatten_query_mem flatten_csks_mem)
    then show "(a, k) \<in> fst ` set ?st"
      by (force simp: prepare_query_fields(4) split: if_splits)
  next
    assume ak: "(a, k) \<in> fst ` set ?st"
    with assms(2) have "a \<in> set (q_contract_addresses ?q)" by (force simp: prepare_query_fields(2))
    then obtain csk where csk: "csk \<in> set (q_contract_storage_keys ?q)" "csk_address csk = a"
      unfolding prepare_query_fields(3) [symmetric] by auto
    with ak have "k \<in> set (csk_keys csk)" by (force simp: prepare_query_fields(4))
    with csk show "QStorageKey a k \<in> set (flatten_query ?q)"
      by (auto simp: flatten_query_mem flatten_csks_mem)
  qed
  then show ?thesis using d by (auto simp: prepare_query_fields(1,2))
qed

section \<open>Fetching never panics and respects the limit\<close>

lemma addr_index_dom: "a \<in> csk_address ` set csks \<Longrightarrow> addr_index csks a \<noteq> None"
proof -
  assume "a \<in> csk_address ` set csks"
  then obtain i where "i < length csks" "csk_address (csks ! i) = a" by (metis (no_types) imageE in_set_conv_nth)
  then have "(a, i) \<in> set (zip (map csk_address csks) [0..<length csks])" by (force simp: in_set_zip)
  then have "a \<in> fst ` set (zip (map csk_address csks) [0..<length csks])" by force
  then show ?thesis by (simp only: addr_index_def map_of_eq_None_iff set_rev not_not simp_thms)
qed

lemma merge_tries_total:
  "\<forall>csk \<in> set cs. idx (csk_address csk) \<noteq> None \<Longrightarrow> merge_tries idx (zip cs ms) acc \<noteq> None"
proof (induction cs arbitrary: ms acc)
  case Nil
  then show ?case by simp
next
  case (Cons c cs)
  then show ?case by (cases ms) auto
qed

lemma merge_loop_total:
  "\<forall>c \<in> set cs. \<forall>csk \<in> set (q_contract_storage_keys c). idx (csk_address csk) \<noteq> None \<Longrightarrow>
     merge_loop idx (zip cs ps) acc \<noteq> None"
proof (induction cs arbitrary: ps acc)
  case Nil
  then show ?case by simp
next
  case (Cons c cs)
  show ?case
  proof (cases ps)
    case Nil
    then show ?thesis by simp
  next
    case (Cons p ps')
    have "\<forall>csk \<in> set (q_contract_storage_keys c). idx (csk_address csk) \<noteq> None" using Cons.prems by simp
    from merge_tries_total [OF this, of "rp_storage_proofs p" "rp_storage_proofs acc"] obtain sps where
      "merge_tries idx (zip (q_contract_storage_keys c) (rp_storage_proofs p)) (rp_storage_proofs acc) = Some sps" by blast
    then show ?thesis using Cons.IH Cons.prems by (simp add: \<open>ps = p # ps'\<close>)
  qed
qed

lemma split_query_merge_total:
  assumes "split_query q n = Some cs" "length ps = length cs" "ps \<noteq> []"
  shows "merge_storage_proofs ps cs q \<noteq> None"
proof -
  have "\<forall>c \<in> set cs. \<forall>csk \<in> set (q_contract_storage_keys c). addr_index (q_contract_storage_keys q) (csk_address csk) \<noteq> None"
    using split_query_parts [OF assms(1)] addr_index_dom by (metis image_subset_iff)
  from merge_loop_total [OF this] show ?thesis
    using assms(2,3) by (simp add: merge_storage_proofs_def)
qed

lemma fetch_chunks_trace:
  "fetch_chunks N bn cs w = (r, w') \<Longrightarrow>
     (\<exists>n \<le> length cs. w' = w @ map (\<lambda>c. (bn, c)) (take n cs)) \<and> (\<forall>ps. r = Inr ps \<longrightarrow> length ps = length cs)"
proof (induction cs arbitrary: w r w')
  case Nil
  then show ?case by (auto simp: returnW_def)
next
  case (Cons c cs)
  obtain r1 where r1: "fetch_single_proof N bn c w = (r1, w @ [(bn, c)])" by (simp add: fetch_single_proof_def)
  show ?case
  proof (cases r1)
    case (Inl e)
    with Cons.prems r1 show ?thesis by (auto simp: bindW_def intro!: exI [of _ 1])
  next
    case (Inr p)
    obtain r2 w2 where r2: "fetch_chunks N bn cs (w @ [(bn, c)]) = (r2, w2)" by fastforce
    from Cons.IH [OF r2] obtain n where n: "n \<le> length cs" "w2 = (w @ [(bn, c)]) @ map (\<lambda>c. (bn, c)) (take n cs)"
      "\<forall>ps. r2 = Inr ps \<longrightarrow> length ps = length cs" by blast
    from Cons.prems r1 Inr r2 have w': "w' = w2" and r: "\<forall>ps. r = Inr ps \<longrightarrow> (\<exists>qs. r2 = Inr qs \<and> ps = p # qs)"
      by (auto simp: bindW_def returnW_def split: sum.splits)
    from n(1,2) w' have "\<exists>n \<le> length (c # cs). w' = w @ map (\<lambda>c. (bn, c)) (take n (c # cs))"
      by (intro exI [of _ "Suc n"]) simp
    with r n(3) show ?thesis by auto
  qed
qed

lemma split_query_bounds:
  assumes "split_query q n = Some cs" "c \<in> set cs"
  shows "count_total_keys c \<le> n"
proof -
  from assms have "flatten_query c \<in> set (map flatten_query cs)" by simp
  then show ?thesis by (auto simp: split_query_flatten [OF assms(1)] count_flatten dest: chunks_size)
qed

lemma fetch_proofs_requests:
  "fst (fetch_proofs N bn q w) \<noteq> Inr None \<and>
   (\<exists>reqs. snd (fetch_proofs N bn q w) = w @ reqs \<and>
           list_all (\<lambda>(b, c). b = bn \<and> count_total_keys c \<le> MAX_KEYS_PER_REQUEST) reqs)"
proof (cases "count_total_keys q \<le> MAX_KEYS_PER_REQUEST")
  case True
  then show ?thesis
    by (auto simp: fetch_proofs_def bindW_def returnW_def fetch_single_proof_def split: sum.splits)
next
  case False
  obtain cs where cs: "split_query q MAX_KEYS_PER_REQUEST = Some cs"
    by (simp add: split_query_def MAX_KEYS_PER_REQUEST_def)
  obtain r w' where f: "fetch_chunks N bn cs w = (r, w')" by fastforce
  from fetch_chunks_trace [OF f] obtain n where n: "w' = w @ map (\<lambda>c. (bn, c)) (take n cs)"
    and len: "\<forall>ps. r = Inr ps \<longrightarrow> length ps = length cs" by blast
  have reqs: "list_all (\<lambda>(b, c). b = bn \<and> count_total_keys c \<le> MAX_KEYS_PER_REQUEST) (map (\<lambda>c. (bn, c)) (take n cs))"
    using split_query_bounds [OF cs] by (auto simp: list_all_iff dest: in_set_takeD)
  have "cs \<noteq> []"
  proof
    assume "cs = []"
    then have "flatten_query q = []"
      using split_query_flatten [OF cs] concat_chunks [of MAX_KEYS_PER_REQUEST "flatten_query q"]
      by (simp add: MAX_KEYS_PER_REQUEST_def)
    with False show False by (simp add: count_flatten)
  qed
  then have "merge_storage_proofs ps cs q \<noteq> None" if "r = Inr ps" for ps
    using split_query_merge_total [OF cs, of ps] len that by fastforce
  with False cs f n reqs show ?thesis
    by (auto simp: fetch_proofs_def bindW_def returnW_def split: sum.splits)
qed

text \<open>C4. Whatever the node answers, fetch_proofs does not panic (the assertions of split_query and merge_storage_proofs hold, every chunk address is found) and each request it sends has at most MAX_KEYS_PER_REQUEST keys of the block asked for.\<close>
theorem fetch_proofs_safe:
  "case fetch_proofs N bn q w of (r, w') \<Rightarrow>
     r \<noteq> Inr None \<and>
     (\<exists>reqs. w' = w @ reqs \<and> list_all (\<lambda>(b, c). b = bn \<and> count_total_keys c \<le> MAX_KEYS_PER_REQUEST) reqs)"
  using fetch_proofs_requests [of N bn q w] by (simp add: case_prod_unfold)

section \<open>An honest node\<close>

lemma fetch_chunks_honest:
  assumes "\<And>k c. count_total_keys c \<le> MAX_KEYS_PER_REQUEST \<Longrightarrow> \<exists>p. N k bn c = Inr p \<and> honest_answer T c p"
  shows "\<forall>c \<in> set cs. count_total_keys c \<le> MAX_KEYS_PER_REQUEST \<Longrightarrow>
     \<exists>ps w'. fetch_chunks N bn cs w = (Inr ps, w') \<and> list_all2 (honest_answer T) cs ps"
proof (induction cs arbitrary: w)
  case Nil
  then show ?case by (simp add: returnW_def)
next
  case (Cons c cs)
  from Cons.prems have "count_total_keys c \<le> MAX_KEYS_PER_REQUEST" by simp
  with assms [of c "length w"] obtain p where p: "N (length w) bn c = Inr p" "honest_answer T c p" by blast
  from Cons.prems have "\<forall>c \<in> set cs. count_total_keys c \<le> MAX_KEYS_PER_REQUEST" by simp
  from Cons.IH [OF this, of "w @ [(bn, c)]"] obtain ps w' where
    "fetch_chunks N bn cs (w @ [(bn, c)]) = (Inr ps, w')" "list_all2 (honest_answer T) cs ps" by blast
  with p show ?case by (simp add: bindW_def fetch_single_proof_def returnW_def)
qed

text \<open>C3. If the node answers honestly every query within its limit of keys, fetch_proofs answers a query of any size honestly, when the contracts of its storage keys are distinct (as those prepare_query collects are): the chunked and merged proof holds exactly the nodes on the paths of the keys of the whole query, the leaves and the storage tries in the order of the query.\<close>
theorem fetch_proofs_honest:
  assumes "\<And>k c. count_total_keys c \<le> MAX_KEYS_PER_REQUEST \<Longrightarrow> \<exists>p. N k bn c = Inr p \<and> honest_answer T c p"
    and "distinct (map csk_address (q_contract_storage_keys q))"
  shows "\<exists>p. fst (fetch_proofs N bn q w) = Inr (Some p) \<and> honest_answer T q p"
proof (cases "count_total_keys q \<le> MAX_KEYS_PER_REQUEST")
  case True
  with assms(1) [of q "length w"] obtain p where "N (length w) bn q = Inr p" "honest_answer T q p" by blast
  with True show ?thesis by (simp add: fetch_proofs_def bindW_def fetch_single_proof_def returnW_def)
next
  case False
  obtain cs where cs: "split_query q MAX_KEYS_PER_REQUEST = Some cs"
    by (simp add: split_query_def MAX_KEYS_PER_REQUEST_def)
  then have "\<forall>c \<in> set cs. count_total_keys c \<le> MAX_KEYS_PER_REQUEST" by (simp add: split_query_bounds)
  from fetch_chunks_honest [of N bn T, OF assms(1) this] obtain ps w' where
    ps: "fetch_chunks N bn cs w = (Inr ps, w')" "list_all2 (honest_answer T) cs ps" by blast
  have "flatten_query q \<noteq> []" using False by (auto simp: count_flatten)
  from merge_honest [OF assms(2) cs this ps(2)] ps(1) cs False show ?thesis
    by (auto simp: fetch_proofs_def bindW_def returnW_def)
qed

text \<open>A node whose class trie is a root over each class: a query of 150 classes needs two chunks.\<close>

definition sample_tries :: "nat tries" where
  "sample_tries =
     \<lparr>tr_node = (\<lambda>h. Some (BinaryNode h 0)), tr_class_path = (\<lambda>h. {h}), tr_contract_path = (\<lambda>a. {}),
      tr_storage_path = (\<lambda>a k. {}), tr_leaf = (\<lambda>a. \<lparr>leaf_nonce = a, leaf_class_hash = 1, leaf_storage_root = None\<rparr>),
      tr_roots = \<lparr>contracts_tree_root = 1, classes_tree_root = 2, roots_block_hash = 3\<rparr>\<rparr>"

definition sample_node :: "nat proof_node" where
  "sample_node k bn q =
     Inr \<lparr>rp_classes_proof = im_extend [] (map (\<lambda>h. (h, BinaryNode h 0)) (q_class_hashes q)), rp_contract_nodes = [],
          rp_contract_leaves = map (tr_leaf sample_tries) (q_contract_addresses q),
          rp_storage_proofs = replicate (length (q_contract_storage_keys q)) [],
          rp_global_roots = tr_roots sample_tries\<rparr>"

lemma sample_node_honest: "\<exists>p. sample_node k bn c = Inr p \<and> honest_answer sample_tries c p"
proof -
  have "map_of (rev (map (\<lambda>h. (h, BinaryNode h 0)) hs)) = (\<lambda>h. Some (BinaryNode h 0)) |` set hs" for hs :: "nat list"
    by (induction hs rule: rev_induct) (auto simp: fun_eq_iff restrict_map_def)
  then show ?thesis
    by (simp add: sample_node_def honest_answer_def nodes_on_def distinct_im_extend map_of_im_extend)
      (simp add: sample_tries_def list_all2_conv_all_nth)
qed

definition large_query :: "nat storage_query" where
  "large_query = \<lparr>q_class_hashes = [0..<150], q_contract_addresses = [], q_contract_storage_keys = []\<rparr>"

theorem fetch_proofs_honest_witness:
  "\<exists>p. fst (fetch_proofs sample_node 5 large_query []) = Inr (Some p) \<and> honest_answer sample_tries large_query p"
  by (rule fetch_proofs_honest [OF sample_node_honest]) (simp add: large_query_def)

section \<open>What the provider returns\<close>

lemma extend_reads_maps:
  assumes "length (rp_contract_leaves proof) = length (q_contract_addresses query)"
  shows "fst ` set (sm_nonces (extend_reads proof query reads)) = set (q_contract_addresses query)"
    and "fst ` set (sm_class_hashes (extend_reads proof query reads)) = set (q_contract_addresses query)"
    and "map_of (sm_storage (extend_reads proof query reads)) = map_of (rev (sm_storage reads))"
    and "sm_declared_contracts (extend_reads proof query reads) = []"
    and "sm_compiled_class_hashes (extend_reads proof query reads) = []"
proof -
  have fst1: "fst ` set (map (\<lambda>(l, a). (a, f l)) (zip ls as)) = set as" if "length ls = length as"
    for f :: "'f contract_leaf \<Rightarrow> 'f" and ls as
    using that by (induction ls as rule: list_induct2) auto
  show "fst ` set (sm_nonces (extend_reads proof query reads)) = set (q_contract_addresses query)"
    "fst ` set (sm_class_hashes (extend_reads proof query reads)) = set (q_contract_addresses query)"
    using fst1 [OF assms] by (simp_all add: extend_reads_def Let_def empty_state_maps_def dom_im_extend)
  show "map_of (sm_storage (extend_reads proof query reads)) = map_of (rev (sm_storage reads))"
    "sm_declared_contracts (extend_reads proof query reads) = []"
    "sm_compiled_class_hashes (extend_reads proof query reads) = []"
    by (simp_all add: extend_reads_def Let_def empty_state_maps_def map_of_im_extend)
qed

lemma get_storage_proofs_Some:
  assumes "get_storage_proofs P N bn ed cfg w = (Inr (Some sp), w')"
  shows "\<exists>proof. fetch_proofs N bn (prepare_query P ed) w = (Inr (Some proof), w') \<and>
                 proofs_of_response P ed cfg (prepare_query P ed) proof = Inr sp"
  using assms
  by (auto simp: get_storage_proofs_def Let_def bindW_def liftW_def returnW_def map_ok_Inr_iff
      split: prod.splits sum.splits option.splits)

lemma get_storage_proofs_snd:
  "snd (get_storage_proofs P N bn ed cfg w) = snd (fetch_proofs N bn (prepare_query P ed) w)"
  by (auto simp: get_storage_proofs_def Let_def bindW_def liftW_def returnW_def
      split: prod.splits sum.splits option.splits)

lemma get_storage_proofs_no_panic: "fst (get_storage_proofs P N bn ed cfg w) \<noteq> Inr None"
  using fetch_proofs_requests [of N bn "prepare_query P ed" w]
  by (auto simp: get_storage_proofs_def Let_def bindW_def liftW_def returnW_def map_ok_Inr_iff
      split: prod.splits sum.splits option.splits)

lemma proofs_of_response_Inr:
  assumes "proofs_of_response P ed cfg query proof = Inr sp"
  shows "length (rp_contract_leaves proof) = length (q_contract_addresses query)"
    and "extended_initial_reads sp = extend_reads proof query (ed_initial_reads ed)"
    and "include_state_changes cfg \<Longrightarrow>
           create_commitment_infos_with_state_changes P proof query (extended_initial_reads sp) (ed_state_diff ed) = Inr (commitment_infos sp)"
    and "\<not> include_state_changes cfg \<Longrightarrow>
           create_commitment_infos_without_state_changes P proof query = Inr (commitment_infos sp)"
  using assms by (auto simp: proofs_of_response_def Let_def result_simps split: if_splits)

text \<open>
  The interface \<open>StorageProofProvider\<close>: the call returns without a panic, asks the node for at
  most the allowed number of keys at a time, and on success gives the nonce and the class hash
  of every contract the execution touched and the storage values it read.
\<close>

locale storage_proof_provider =
  fixes get_proofs :: "u64 \<Rightarrow> ('f, 'o) execution_data \<Rightarrow> storage_proof_config \<Rightarrow> 'f proof_trace
      \<Rightarrow> (proof_provider_error + 'f storage_proofs option) \<times> 'f proof_trace"
    and accessed :: "'f state_maps \<Rightarrow> 'f list"
  assumes no_panic: "fst (get_proofs bn ed cfg w) \<noteq> Inr None"
    and small_requests: "\<exists>reqs. snd (get_proofs bn ed cfg w) = w @ reqs \<and>
        list_all (\<lambda>(b, c). b = bn \<and> count_total_keys c \<le> MAX_KEYS_PER_REQUEST) reqs"
    and covers: "get_proofs bn ed cfg w = (Inr (Some sp), w') \<Longrightarrow>
        fst ` set (sm_nonces (extended_initial_reads sp)) = set (accessed (ed_initial_reads ed)) \<and>
        fst ` set (sm_class_hashes (extended_initial_reads sp)) = set (accessed (ed_initial_reads ed))"
    and keeps_storage: "get_proofs bn ed cfg w = (Inr (Some sp), w') \<Longrightarrow>
        map_of (sm_storage (extended_initial_reads sp)) = map_of (rev (sm_storage (ed_initial_reads ed)))"
    and no_classes: "get_proofs bn ed cfg w = (Inr (Some sp), w') \<Longrightarrow>
        sm_compiled_class_hashes (extended_initial_reads sp) = []"
begin

lemma returns: "\<exists>r. get_proofs bn ed cfg w = (r, snd (get_proofs bn ed cfg w)) \<and> (\<exists>e. r = Inl e) \<or>
    (\<exists>sp. get_proofs bn ed cfg w = (Inr (Some sp), snd (get_proofs bn ed cfg w)))"
  using no_panic [of bn ed cfg w]
  by (cases "get_proofs bn ed cfg w"; cases "fst (get_proofs bn ed cfg w)") auto

end

interpretation rpc_proofs: storage_proof_provider "get_storage_proofs P N" "p_contract_addresses P" for P N
proof
  fix bn ed cfg w sp w'
  show "fst (get_storage_proofs P N bn ed cfg w) \<noteq> Inr None" by (rule get_storage_proofs_no_panic)
  show "\<exists>reqs. snd (get_storage_proofs P N bn ed cfg w) = w @ reqs \<and>
        list_all (\<lambda>(b, c). b = bn \<and> count_total_keys c \<le> MAX_KEYS_PER_REQUEST) reqs"
    using fetch_proofs_requests [of N bn "prepare_query P ed" w] by (simp add: get_storage_proofs_snd)
  assume "get_storage_proofs P N bn ed cfg w = (Inr (Some sp), w')"
  from get_storage_proofs_Some [OF this] obtain pr where
    "proofs_of_response P ed cfg (prepare_query P ed) pr = Inr sp" by blast
  from proofs_of_response_Inr(1,2) [OF this] extend_reads_maps [of pr "prepare_query P ed" "ed_initial_reads ed"]
  show "fst ` set (sm_nonces (extended_initial_reads sp)) = set (p_contract_addresses P (ed_initial_reads ed)) \<and>
        fst ` set (sm_class_hashes (extended_initial_reads sp)) = set (p_contract_addresses P (ed_initial_reads ed))"
    "map_of (sm_storage (extended_initial_reads sp)) = map_of (rev (sm_storage (ed_initial_reads ed)))"
    "sm_compiled_class_hashes (extended_initial_reads sp) = []"
    by (simp_all add: prepare_query_fields(2))
qed

section \<open>State changes\<close>

theorem proofs_with_changes_validated:
  assumes "get_storage_proofs P N bn ed cfg w = (Inr (Some sp), w')" and "include_state_changes cfg"
  shows "sm_class_hashes (ed_state_diff ed) = [] \<and> sm_compiled_class_hashes (ed_state_diff ed) = [] \<and>
         list_all (\<lambda>(a, kvs). x_zero P \<notin> snd ` set kvs) (p_storage_diff P (sm_storage (ed_state_diff ed)))"
proof -
  from get_storage_proofs_Some [OF assms(1)] obtain pr where
    "proofs_of_response P ed cfg (prepare_query P ed) pr = Inr sp" by blast
  from proofs_of_response_Inr(3) [OF this assms(2)]
  have "validate_virtual_os_state_diff P (state_maps_to_committer_state_diff P (ed_state_diff ed)) = Inr ()"
    by (auto simp: create_commitment_infos_with_state_changes_def Let_def result_simps)
  then have "acceptable_state_diff P (state_maps_to_committer_state_diff P (ed_state_diff ed))"
    by (simp only: validate_acceptable)
  then show ?thesis by (auto simp: acceptable_state_diff_def state_maps_to_committer_state_diff_def list_all_iff)
qed

lemma storage_commitment_info_Inr:
  assumes "storage_commitment_info P leaf_of csk sp = Inr (a, info)"
  shows "\<exists>l. p_contract_address_try_from P (csk_address csk) = Inr a \<and> leaf_of a = Some l \<and>
     info = same_root_info P (case leaf_storage_root l of Some r \<Rightarrow> r | None \<Rightarrow> x_zero P) sp"
  using assms by (auto simp: storage_commitment_info_def Let_def result_simps)

definition unchanged :: "'f commitment_info \<Rightarrow> bool" where
  "unchanged info \<longleftrightarrow> ci_updated_root info = ci_previous_root info"

lemma build_storage_infos_unchanged:
  assumes "build_storage_commitment_infos P pr query = Inr infos"
  shows "(\<forall>(a, info) \<in> set infos. unchanged info) \<and>
     fst ` set infos = {a. \<exists>csk \<in> set (q_contract_storage_keys query). p_contract_address_try_from P (csk_address csk) = Inr a}"
proof -
  let ?leaf = "map_of (rev (zip (q_contract_addresses query) (rp_contract_leaves pr)))"
  let ?z = "zip (q_contract_storage_keys query) (rp_storage_proofs pr)"
  from assms obtain kvs where len: "length (rp_storage_proofs pr) = length (q_contract_storage_keys query)"
    and kvs: "map (\<lambda>(csk, sp). storage_commitment_info P ?leaf csk sp) ?z = map Inr kvs"
    and infos: "infos = im_extend [] kvs"
    by (auto simp: build_storage_commitment_infos_def Let_def result_simps split: if_splits)
  have step: "\<exists>csk sp. (csk, sp) \<in> set ?z \<and> storage_commitment_info P ?leaf csk sp = Inr kv" if "kv \<in> set kvs" for kv
  proof -
    from that have "Inr kv \<in> set (map (\<lambda>(csk, sp). storage_commitment_info P ?leaf csk sp) ?z)" unfolding kvs by simp
    then obtain csk sp where "(csk, sp) \<in> set ?z" "Inr kv = storage_commitment_info P ?leaf csk sp" by auto
    then show ?thesis by metis
  qed
  have info: "unchanged (snd kv)" if "kv \<in> set kvs" for kv
    using step [OF that] by (cases kv) (auto dest!: storage_commitment_info_Inr simp: unchanged_def same_root_info_def)
  have d: "distinct (map fst infos)" by (simp add: infos distinct_im_extend)
  have "unchanged i" if "(a, i) \<in> set infos" for a i
  proof -
    from that d have "map_of infos a = Some i" by simp
    then have "(a, i) \<in> set kvs" by (auto simp: infos map_of_im_extend dest: map_of_SomeD)
    with info show ?thesis by fastforce
  qed
  moreover have "fst ` set infos = {a. \<exists>csk \<in> set (q_contract_storage_keys query). p_contract_address_try_from P (csk_address csk) = Inr a}"
  proof (intro set_eqI iffI)
    fix a
    assume "a \<in> fst ` set infos"
    then obtain i where "(a, i) \<in> set kvs" by (auto simp: infos dom_im_extend)
    from step [OF this] show "a \<in> {a. \<exists>csk \<in> set (q_contract_storage_keys query). p_contract_address_try_from P (csk_address csk) = Inr a}"
      by (auto dest!: storage_commitment_info_Inr dest: set_zip_leftD)
  next
    fix a
    assume "a \<in> {a. \<exists>csk \<in> set (q_contract_storage_keys query). p_contract_address_try_from P (csk_address csk) = Inr a}"
    then obtain csk where csk: "csk \<in> set (q_contract_storage_keys query)" "p_contract_address_try_from P (csk_address csk) = Inr a" by blast
    with len obtain sp where z: "(csk, sp) \<in> set ?z" by (metis in_set_impl_in_set_zip1)
    then have "storage_commitment_info P ?leaf csk sp \<in> set (map (\<lambda>(csk, sp). storage_commitment_info P ?leaf csk sp) ?z)" by force
    then obtain kv where kv: "kv \<in> set kvs" "storage_commitment_info P ?leaf csk sp = Inr kv" unfolding kvs by auto
    with csk(2) have "fst kv = a" by (cases kv) (auto dest!: storage_commitment_info_Inr)
    with kv(1) show "a \<in> fst ` set infos" by (auto simp: infos dom_im_extend)
  qed
  ultimately show ?thesis by auto
qed

text \<open>C27. Without state changes every commitment info has the same previous and updated root, and exactly the contracts the execution accessed have a storage commitment info.\<close>
theorem proofs_without_changes_keep_roots:
  assumes "get_storage_proofs P N bn ed cfg w = (Inr (Some sp), w')" and "\<not> include_state_changes cfg"
    and "\<forall>a \<in> set (p_contract_addresses P (ed_initial_reads ed)). p_contract_address_try_from P a = Inr a"
  shows "unchanged (contracts_trie_info (commitment_infos sp)) \<and> unchanged (classes_trie_info (commitment_infos sp)) \<and>
         list_all (\<lambda>(a, info). unchanged info) (storage_tries_infos (commitment_infos sp)) \<and>
         fst ` set (storage_tries_infos (commitment_infos sp)) = set (p_contract_addresses P (ed_initial_reads ed))"
proof -
  let ?q = "prepare_query P ed"
  from get_storage_proofs_Some [OF assms(1)] obtain pr where
    "proofs_of_response P ed cfg ?q pr = Inr sp" by blast
  from proofs_of_response_Inr(4) [OF this assms(2)] obtain infos where
    infos: "build_storage_commitment_infos P pr ?q = Inr infos" and
    eq: "\<lparr>contracts_trie_info = same_root_info P (contracts_tree_root (rp_global_roots pr)) (rp_contract_nodes pr),
      classes_trie_info = same_root_info P (classes_tree_root (rp_global_roots pr)) (rp_classes_proof pr),
      storage_tries_infos = infos\<rparr> = commitment_infos sp"
    by (auto simp: create_commitment_infos_without_state_changes_def Let_def result_simps)
  from eq [symmetric] have ci: "storage_tries_infos (commitment_infos sp) = infos"
    "unchanged (contracts_trie_info (commitment_infos sp))" "unchanged (classes_trie_info (commitment_infos sp))"
    by (simp_all add: unchanged_def same_root_info_def)
  let ?A = "set (p_contract_addresses P (ed_initial_reads ed))"
  have A: "csk_address ` set (q_contract_storage_keys ?q) = ?A"
    using prepare_query_fields(2,3) [of P ed] by (metis list.set_map)
  have "{a. \<exists>csk \<in> set (q_contract_storage_keys ?q). p_contract_address_try_from P (csk_address csk) = Inr a}
      = {a. \<exists>b \<in> csk_address ` set (q_contract_storage_keys ?q). p_contract_address_try_from P b = Inr a}"
    by blast
  also have "\<dots> = ?A" unfolding A using assms(3) by fastforce
  finally have "{a. \<exists>csk \<in> set (q_contract_storage_keys ?q). p_contract_address_try_from P (csk_address csk) = Inr a} = ?A" .
  with build_storage_infos_unchanged [OF infos] ci show ?thesis by (simp add: list_all_iff)
qed

section \<open>Instances\<close>

definition ref_storage_ext :: "(nat, unit) storage_ext" where
  "ref_storage_ext = facts_ext.extend ref_facts_ext
     (storage_ext.fields
        (\<lambda>m. remdups (map fst (sm_nonces m) @ map (fst \<circ> fst) (sm_storage m)))
        (\<le>) Inr (\<lambda>n. ()) (map (\<lambda>(h, p). (h, [h]))) (\<lambda>m. ())
        (\<lambda>r0 r1 d k. Inr
           \<lparr>contracts_trie_info = \<lparr>ci_previous_root = contracts_trie_root_hash r0, ci_updated_root = contracts_trie_root_hash r1,
                                   ci_tree_height = 251, ci_commitment_facts = []\<rparr>,
            classes_trie_info = \<lparr>ci_previous_root = classes_trie_root_hash r0, ci_updated_root = classes_trie_root_hash r1,
                                 ci_tree_height = 251, ci_commitment_facts = []\<rparr>,
            storage_tries_infos = []\<rparr>)
        251)"

lemma facts_extend_sel [simp]:
  "p_serialize (facts_ext.extend r m) = p_serialize r" "p_create_db_key (facts_ext.extend r m) = p_create_db_key r"
  "p_inner_prefix (facts_ext.extend r m) = p_inner_prefix r" "p_separator (facts_ext.extend r m) = p_separator r"
  "p_leaf_db_key (facts_ext.extend r m) = p_leaf_db_key r" "p_leaf_hash (facts_ext.extend r m) = p_leaf_hash r"
  "p_storage_diff (facts_ext.extend r m) = p_storage_diff r" "p_commit_block (facts_ext.extend r m) = p_commit_block r"
  "p_write_forest (facts_ext.extend r m) = p_write_forest r" "p_contract_root (facts_ext.extend r m) = p_contract_root r"
  "p_class_root (facts_ext.extend r m) = p_class_root r"
  "x_to_bytes_be (facts_ext.extend r m) = x_to_bytes_be r" "x_zero (facts_ext.extend r m) = x_zero r"
  by (simp_all add: facts_ext.defs)

lemma storage_fields_sel [simp]:
  "p_contract_addresses (facts_ext.extend r (storage_ext.fields a b c d e f g h)) = a"
  "p_addr_le (facts_ext.extend r (storage_ext.fields a b c d e f g h)) = b"
  "p_contract_address_try_from (facts_ext.extend r (storage_ext.fields a b c d e f g h)) = c"
  "p_create_commitment_infos (facts_ext.extend r (storage_ext.fields a b c d e f g h)) = g"
  by (simp_all add: facts_ext.defs storage_ext.defs)

definition sample_execution :: "(nat, unit) execution_data" where
  "sample_execution =
     \<lparr>ed_execution_outputs = [], ed_initial_reads = empty_state_maps\<lparr>sm_nonces := [(2, 0)], sm_storage := [((1, 5), 6)]\<rparr>,
      ed_state_diff = empty_state_maps\<lparr>sm_storage := [((1, 5), 7)]\<rparr>, ed_executed_class_hashes = [7],
      ed_l2_to_l1_messages = [], ed_base_block_info = undefined\<rparr>"

lemma sample_contract_addresses: "p_contract_addresses ref_storage_ext (ed_initial_reads sample_execution) = [2, 1]"
  by (simp add: ref_storage_ext_def sample_execution_def)

theorem prepare_query_covers_reads_witness:
  "{(a, k). QStorageKey a k \<in> set (flatten_query (prepare_query ref_storage_ext sample_execution))} = {(1, 5)}"
proof -
  have "distinct (p_contract_addresses ref_storage_ext (ed_initial_reads sample_execution))"
    "fst ` fst ` set (sm_storage (ed_initial_reads sample_execution))
       \<subseteq> set (p_contract_addresses ref_storage_ext (ed_initial_reads sample_execution))"
    by (simp_all add: sample_contract_addresses) (simp add: sample_execution_def)
  from prepare_query_covers_reads [OF this] show ?thesis by (simp add: sample_execution_def)
qed

lemma sample_query_eq:
  "prepare_query ref_storage_ext sample_execution =
     \<lparr>q_class_hashes = [7], q_contract_addresses = [1, 2],
      q_contract_storage_keys = [\<lparr>csk_address = 1, csk_keys = [5]\<rparr>, \<lparr>csk_address = 2, csk_keys = []\<rparr>]\<rparr>"
  by (simp add: prepare_query_def Let_def sample_contract_addresses)
    (simp add: ref_storage_ext_def sort_by_def storage_by_address_def sample_execution_def)

lemma ref_facts_fields [simp]:
  "p_leaf_hash ref_facts_ext (StorageValue v) = v"
  "p_storage_diff ref_facts_ext = (\<lambda>st. map (\<lambda>((a, k), v). (a, [(k, v)])) st)"
  "p_commit_block ref_facts_ext = (\<lambda>diff roots d. Inr ())"
  "p_write_forest ref_facts_ext = (\<lambda>forest d. Inr d)"
  "p_contract_root ref_facts_ext = (\<lambda>forest. 1)" "p_class_root ref_facts_ext = (\<lambda>forest. 2)"
  by (simp_all add: ref_facts_ext_def ext.defs facts_ext.defs)

definition sample_response :: "nat rpc_storage_proof" where
  "sample_response =
     \<lparr>rp_classes_proof = [(7, BinaryNode 7 0)], rp_contract_nodes = [],
      rp_contract_leaves = [\<lparr>leaf_nonce = 1, leaf_class_hash = 1, leaf_storage_root = None\<rparr>,
                            \<lparr>leaf_nonce = 2, leaf_class_hash = 1, leaf_storage_root = None\<rparr>],
      rp_storage_proofs = [[], []], rp_global_roots = tr_roots sample_tries\<rparr>"

lemma sample_fetch:
  "fetch_proofs sample_node 5 (prepare_query ref_storage_ext sample_execution) []
   = (Inr (Some sample_response), [(5, prepare_query ref_storage_ext sample_execution)])"
  by (simp add: sample_query_eq fetch_proofs_def count_total_keys_def MAX_KEYS_PER_REQUEST_def bindW_def
      fetch_single_proof_def returnW_def sample_node_def sample_response_def)
    (simp add: sample_tries_def numeral_eq_Suc)

lemma sample_response_proofs:
  "is_ok (proofs_of_response ref_storage_ext sample_execution \<lparr>include_state_changes = b\<rparr>
            (prepare_query ref_storage_ext sample_execution) sample_response)"
proof (cases b)
  case True
  have "\<exists>v. p_serialize ref_storage_ext n = Inr v" for n
    by (cases n) (simp_all add: ref_storage_ext_def)
  from create_facts_db_total [OF this, of sample_response "prepare_query ref_storage_ext sample_execution"
      "extend_reads sample_response (prepare_query ref_storage_ext sample_execution) (ed_initial_reads sample_execution)"]
  obtain d where d: "create_facts_db_from_storage_proof ref_storage_ext sample_response
      (prepare_query ref_storage_ext sample_execution)
      (extend_reads sample_response (prepare_query ref_storage_ext sample_execution) (ed_initial_reads sample_execution)) = Inr d"
    by (auto simp: sample_response_def sample_query_eq)
  have v: "validate_virtual_os_state_diff ref_storage_ext
      (state_maps_to_committer_state_diff ref_storage_ext (ed_state_diff sample_execution)) = Inr ()"
    by (simp add: validate_virtual_os_state_diff_def state_maps_to_committer_state_diff_def sample_execution_def
        empty_state_maps_def) (simp add: ref_storage_ext_def)
  have "length (rp_contract_leaves sample_response) = length (q_contract_addresses (prepare_query ref_storage_ext sample_execution))"
    by (simp add: sample_response_def sample_query_eq)
  then show ?thesis
    using True d v
    by (simp add: proofs_of_response_def Let_def create_commitment_infos_with_state_changes_def commit_state_diff_def)
      (simp add: ref_storage_ext_def)
next
  case False
  then show ?thesis
    by (simp add: proofs_of_response_def sample_query_eq sample_response_def Let_def
        create_commitment_infos_without_state_changes_def build_storage_commitment_infos_def
        storage_commitment_info_def numeral_eq_Suc)
      (simp add: ref_storage_ext_def)
qed

lemma sample_proofs_ok:
  "\<exists>sp w'. get_storage_proofs ref_storage_ext sample_node 5 sample_execution \<lparr>include_state_changes = b\<rparr> [] = (Inr (Some sp), w')"
  using sample_response_proofs [of b]
  by (auto simp: get_storage_proofs_def Let_def bindW_def sample_fetch liftW_def is_ok_iff)

theorem proofs_with_changes_validated_witness:
  "list_all (\<lambda>(a, kvs). x_zero ref_storage_ext \<notin> snd ` set kvs)
     (p_storage_diff ref_storage_ext (sm_storage (ed_state_diff sample_execution)))"
  using sample_proofs_ok [of True] proofs_with_changes_validated [of ref_storage_ext sample_node 5 sample_execution "\<lparr>include_state_changes = True\<rparr>" "[]"]
  by auto

theorem proofs_without_changes_keep_roots_witness:
  "\<exists>sp w'. get_storage_proofs ref_storage_ext sample_node 5 sample_execution \<lparr>include_state_changes = False\<rparr> [] = (Inr (Some sp), w') \<and>
     fst ` set (storage_tries_infos (commitment_infos sp)) = {1, 2}"
proof -
  obtain sp w' where sp: "get_storage_proofs ref_storage_ext sample_node 5 sample_execution \<lparr>include_state_changes = False\<rparr> [] = (Inr (Some sp), w')"
    using sample_proofs_ok [of False] by blast
  have "\<forall>a \<in> set (p_contract_addresses ref_storage_ext (ed_initial_reads sample_execution)).
      p_contract_address_try_from ref_storage_ext a = Inr a" by (simp add: ref_storage_ext_def)
  from proofs_without_changes_keep_roots [OF sp _ this] sp show ?thesis
    by (auto simp: sample_contract_addresses)
qed

end
