(* ===== verification/Classes_Provider.thy ===== *)
theory Classes_Provider
  imports Storage_Provider
begin

text \<open>
  The classes provider, \<open>starknet_transaction_prover/src/running/classes_provider.rs\<close>: the
  conversion of a compiled class, one fetch per executed class in a blocking task, and the two
  maps. A panic inside a task (\<open>None\<close>) comes back as a join error. The interface
  \<open>classes_provider\<close> says that a successful call covers every executed class and is interpreted
  on the RPC provider.
\<close>

datatype ('f, 'o) maybe_relocatable = MInt 'f | MRelocatable 'o

record ('f, 'o) compiled_class_v1 =
  cv_program_data :: "('f, 'o) maybe_relocatable list"
  cv_hints_collection :: 'o
  cv_segment_felt_sizes :: 'o
  cv_entry_points_by_type :: 'o

datatype ('f, 'o) runnable_class =
    RunnableV0 'o
  | RunnableV1 "('f, 'o) compiled_class_v1"
  | RunnableV1Native 'o

record 'o casm_class =
  casm_prime :: nat
  casm_compiler_version :: string
  casm_bytecode :: "nat list"
  casm_segment_lengths :: "'o option"
  casm_hints :: 'o
  casm_pythonic_hints :: "'o option"
  casm_entry_points :: 'o

text \<open>The state reader and contract manager the fetches go through.\<close>

record ('f, 'o) class_manager =
  cm_compiled_class :: "'f \<Rightarrow> string + ('f, 'o) runnable_class"
  cm_compiled_class_hash_v2 :: "'f \<Rightarrow> ('f, 'o) runnable_class \<Rightarrow> string + 'f"

record ('f, 'o) classes_ext = "('f, 'o) storage_ext" +
  p_prime :: nat
  p_to_biguint :: "'f \<Rightarrow> nat"
  p_segment_lengths :: "'o \<Rightarrow> 'o"
  p_program_hints_to_casm_hints :: "'o \<Rightarrow> string + 'o"
  p_casm_entry_points :: "'o \<Rightarrow> 'o"
  p_cairo_native :: bool
  p_native_casm :: "'o \<Rightarrow> ('f, 'o) compiled_class_v1"
  p_join_error :: string

record ('f, 'o) classes_input =
  compiled_classes :: "('f \<times> 'o casm_class) list"
  class_hash_to_compiled_class_hash :: "('f \<times> 'f) list"

section \<open>Fetching\<close>

fun bytecode_element ::
  "('f, 'o, 'x) classes_ext_scheme \<Rightarrow> ('f, 'o) maybe_relocatable \<Rightarrow> 'f classes_provider_error + nat"
where
  "bytecode_element P (MInt f) = Inr (p_to_biguint P f)"
| "bytecode_element P (MRelocatable r) = Inl InvalidBytecodeElement"

definition compiled_class_v1_to_casm ::
  "('f, 'o, 'x) classes_ext_scheme \<Rightarrow> ('f, 'o) compiled_class_v1 \<Rightarrow> 'f classes_provider_error + 'o casm_class"
where
  "compiled_class_v1_to_casm P c =
     bindR (collectR (map (bytecode_element P) (cv_program_data c))) (\<lambda>bytecode.
     bindR (map_err HintsConversionError (p_program_hints_to_casm_hints P (cv_hints_collection c))) (\<lambda>hints.
     Inr \<lparr>casm_prime = p_prime P, casm_compiler_version = [], casm_bytecode = bytecode,
          casm_segment_lengths = Some (p_segment_lengths P (cv_segment_felt_sizes c)), casm_hints = hints,
          casm_pythonic_hints = None, casm_entry_points = p_casm_entry_points P (cv_entry_points_by_type c)\<rparr>))"

definition class_casm ::
  "('f, 'o, 'x) classes_ext_scheme \<Rightarrow> 'f \<Rightarrow> ('f, 'o) runnable_class
   \<Rightarrow> ('f classes_provider_error + 'o casm_class) option"
where
  "class_casm P class_hash c =
     (case c of
        RunnableV0 v0 \<Rightarrow> Some (Inl (DeprecatedContractError class_hash))
      | RunnableV1 v1 \<Rightarrow> Some (compiled_class_v1_to_casm P v1)
      | RunnableV1Native n \<Rightarrow>
          if p_cairo_native P then Some (compiled_class_v1_to_casm P (p_native_casm P n)) else None)"

definition fetch_class ::
  "('f, 'o, 'x) classes_ext_scheme \<Rightarrow> ('f, 'o) class_manager \<Rightarrow> 'f
   \<Rightarrow> ('f classes_provider_error + 'f \<times> 'o casm_class) option"
where
  "fetch_class P mgr class_hash =
     (case cm_compiled_class mgr class_hash of
        Inl e \<Rightarrow> Some (Inl (StateError e))
      | Inr c \<Rightarrow>
          (case cm_compiled_class_hash_v2 mgr class_hash c of
             Inl e \<Rightarrow> Some (Inl (StateError e))
           | Inr compiled_hash \<Rightarrow> map_option (map_ok (\<lambda>casm. (compiled_hash, casm))) (class_casm P class_hash c)))"

fun collect_classes ::
  "('f \<times> ('f classes_provider_error + 'f \<times> 'o casm_class)) list \<Rightarrow> ('f, 'o) classes_input
   \<Rightarrow> 'f classes_provider_error + ('f, 'o) classes_input"
where
  "collect_classes [] acc = Inr acc"
| "collect_classes ((class_hash, result) # rest) acc =
     bindR result (\<lambda>(compiled_hash, casm).
       collect_classes rest
         (acc\<lparr>compiled_classes := AList.update compiled_hash casm (compiled_classes acc),
              class_hash_to_compiled_class_hash :=
                AList.update class_hash compiled_hash (class_hash_to_compiled_class_hash acc)\<rparr>))"

definition get_classes ::
  "('f, 'o, 'x) classes_ext_scheme \<Rightarrow> ('f, 'o) class_manager \<Rightarrow> 'f list
   \<Rightarrow> 'f classes_provider_error + ('f, 'o) classes_input"
where
  "get_classes P mgr executed_class_hashes =
     (case those (map (fetch_class P mgr) executed_class_hashes) of
        None \<Rightarrow> Inl (GetClassesError (''Task join error: '' @ p_join_error P))
      | Some results \<Rightarrow>
          collect_classes (zip executed_class_hashes results)
            \<lparr>compiled_classes = [], class_hash_to_compiled_class_hash = []\<rparr>)"

section \<open>What a successful call holds\<close>

lemma those_Some_iff: "those xs = Some ys \<longleftrightarrow> xs = map Some ys"
proof (induction xs arbitrary: ys)
  case Nil
  then show ?case by auto
next
  case (Cons x xs)
  show ?case
  proof (cases x)
    case None
    then show ?thesis by (cases ys) auto
  next
    case (Some a)
    then show ?thesis using Cons by (cases ys) auto
  qed
qed

text \<open>The maps hold one entry per fetched class, and nothing else.\<close>

lemma collect_classes_ok:
  "collect_classes kvs acc = Inr ci \<Longrightarrow>
     (\<forall>(h, r) \<in> set kvs. is_ok r) \<and>
     fst ` set (class_hash_to_compiled_class_hash ci)
       = fst ` set (class_hash_to_compiled_class_hash acc) \<union> fst ` set kvs \<and>
     fst ` set (compiled_classes ci) = fst ` set (compiled_classes acc) \<union> {c. \<exists>h m. (h, Inr (c, m)) \<in> set kvs}"
proof (induction kvs arbitrary: acc)
  case Nil
  then show ?case by simp
next
  case (Cons kv kvs)
  obtain h r where kv: "kv = (h, r)" by (cases kv)
  from Cons.prems obtain c m where r: "r = Inr (c, m)"
    by (auto simp: kv result_simps)
  from Cons.IH [of "acc\<lparr>compiled_classes := AList.update c m (compiled_classes acc),
      class_hash_to_compiled_class_hash := AList.update h c (class_hash_to_compiled_class_hash acc)\<rparr>"] Cons.prems
  show ?case by (auto simp: kv r dom_update)
qed

lemma collect_classes_lookup:
  "collect_classes kvs acc = Inr ci \<Longrightarrow> distinct (map fst kvs) \<Longrightarrow>
     map_of (class_hash_to_compiled_class_hash ci) h
     = (case map_of kvs h of Some (Inr (c, m)) \<Rightarrow> Some c | _ \<Rightarrow> map_of (class_hash_to_compiled_class_hash acc) h)"
proof (induction kvs arbitrary: acc)
  case Nil
  then show ?case by simp
next
  case (Cons kv kvs)
  obtain h' r where kv: "kv = (h', r)" by (cases kv)
  from Cons.prems(1) obtain c m where r: "r = Inr (c, m)"
    by (auto simp: kv result_simps)
  have new: "map_of kvs h' = None" using Cons.prems(2) by (simp add: kv map_of_eq_None_iff)
  from Cons.IH [of "acc\<lparr>compiled_classes := AList.update c m (compiled_classes acc),
      class_hash_to_compiled_class_hash := AList.update h' c (class_hash_to_compiled_class_hash acc)\<rparr>"] Cons.prems
  show ?case using new by (auto simp: kv r update_conv' split: option.splits sum.splits)
qed

lemma collect_classes_values:
  "collect_classes kvs acc = Inr ci \<Longrightarrow>
     snd ` set (class_hash_to_compiled_class_hash acc) \<subseteq> fst ` set (compiled_classes acc) \<Longrightarrow>
     snd ` set (class_hash_to_compiled_class_hash ci) \<subseteq> fst ` set (compiled_classes ci)"
proof (induction kvs arbitrary: acc)
  case Nil
  then show ?case by simp
next
  case (Cons kv kvs)
  obtain h r where kv: "kv = (h, r)" by (cases kv)
  from Cons.prems obtain c m where r: "r = Inr (c, m)"
    by (auto simp: kv result_simps)
  have upd: "snd ` set (AList.update h c xs) \<subseteq> insert c (snd ` set xs)" for xs
    by (induction xs) auto
  from upd [of "class_hash_to_compiled_class_hash acc"] Cons.prems(2)
  have "snd ` set (AList.update h c (class_hash_to_compiled_class_hash acc)) \<subseteq> fst ` set (AList.update c m (compiled_classes acc))"
    by (auto simp: dom_update)
  with Cons.IH [of "acc\<lparr>compiled_classes := AList.update c m (compiled_classes acc),
      class_hash_to_compiled_class_hash := AList.update h c (class_hash_to_compiled_class_hash acc)\<rparr>"] Cons.prems(1)
  show ?case by (simp add: kv r)
qed

definition fetched :: "('f, 'o, 'x) classes_ext_scheme \<Rightarrow> ('f, 'o) class_manager \<Rightarrow> 'f \<Rightarrow> 'f \<Rightarrow> bool" where
  "fetched P mgr h c \<longleftrightarrow> (\<exists>m. fetch_class P mgr h = Some (Inr (c, m)))"

lemma get_classes_results:
  assumes "get_classes P mgr hs = Inr ci"
  shows "\<exists>rs. map (fetch_class P mgr) hs = map Some rs \<and>
     collect_classes (zip hs rs) \<lparr>compiled_classes = [], class_hash_to_compiled_class_hash = []\<rparr> = Inr ci"
  using assms by (auto simp: get_classes_def those_Some_iff split: option.splits)

lemma zip_results:
  assumes "map f hs = map Some rs"
  shows "(h, r) \<in> set (zip hs rs) \<longleftrightarrow> h \<in> set hs \<and> f h = Some r"
  using assms by (induction hs arbitrary: rs) (auto simp: Cons_eq_map_conv)

lemma map_of_zip_results:
  assumes "map f hs = map Some rs" "h \<in> set hs"
  shows "map_of (zip hs rs) h = f h"
  using assms by (induction hs arbitrary: rs) (auto simp: Cons_eq_map_conv)

lemma get_classes_ok:
  assumes "get_classes P mgr hs = Inr ci"
  shows "fst ` set (class_hash_to_compiled_class_hash ci) = set hs"
    and "fst ` set (compiled_classes ci) = {c. \<exists>h \<in> set hs. fetched P mgr h c}"
    and "distinct hs \<Longrightarrow> h \<in> set hs \<Longrightarrow>
           \<exists>c. map_of (class_hash_to_compiled_class_hash ci) h = Some c \<and> fetched P mgr h c"
proof -
  from get_classes_results [OF assms] obtain rs where rs: "map (fetch_class P mgr) hs = map Some rs"
    and cc: "collect_classes (zip hs rs) \<lparr>compiled_classes = [], class_hash_to_compiled_class_hash = []\<rparr> = Inr ci" by blast
  have len: "length rs = length hs" using rs by (metis length_map)
  have "fst ` set (zip hs rs) = set hs" using len by (metis list.set_map map_fst_zip)
  with collect_classes_ok [OF cc] show "fst ` set (class_hash_to_compiled_class_hash ci) = set hs" by simp
  from collect_classes_ok [OF cc] show "fst ` set (compiled_classes ci) = {c. \<exists>h \<in> set hs. fetched P mgr h c}"
    by (auto simp: zip_results [OF rs] fetched_def)
  assume d: "distinct hs" and h: "h \<in> set hs"
  have "fetch_class P mgr h \<in> set (map (fetch_class P mgr) hs)" using h by simp
  then obtain r where r: "fetch_class P mgr h = Some r" unfolding rs by auto
  then have "(h, r) \<in> set (zip hs rs)" using h by (simp add: zip_results [OF rs])
  from bspec [OF conjunct1 [OF collect_classes_ok [OF cc]] this] have "is_ok r" by simp
  then obtain c m where "r = Inr (c, m)" by (auto simp: is_ok_iff)
  moreover have "map_of (zip hs rs) h = Some r" using map_of_zip_results [OF rs h] r by simp
  ultimately show "\<exists>c. map_of (class_hash_to_compiled_class_hash ci) h = Some c \<and> fetched P mgr h c"
    using collect_classes_lookup [OF cc, of h] d len r by (auto simp: fetched_def)
qed

text \<open>
  The interface \<open>ClassesProvider\<close>: a successful call maps exactly the executed classes, and every
  compiled class hash it maps them to comes with its class.
\<close>

locale classes_provider =
  fixes classes_of :: "'f list \<Rightarrow> 'f classes_provider_error + ('f, 'o) classes_input"
  assumes maps_executed: "classes_of hs = Inr ci \<Longrightarrow> fst ` set (class_hash_to_compiled_class_hash ci) = set hs"
    and values_have_class: "classes_of hs = Inr ci \<Longrightarrow> (h, c) \<in> set (class_hash_to_compiled_class_hash ci) \<Longrightarrow>
        c \<in> fst ` set (compiled_classes ci)"

interpretation rpc_classes: classes_provider "get_classes P mgr" for P mgr
proof
  fix hs ci h c
  assume ci: "get_classes P mgr hs = Inr ci"
  show "fst ` set (class_hash_to_compiled_class_hash ci) = set hs" by (rule get_classes_ok(1) [OF ci])
  assume "(h, c) \<in> set (class_hash_to_compiled_class_hash ci)"
  with get_classes_results [OF ci] show "c \<in> fst ` set (compiled_classes ci)"
    using collect_classes_values [of _ "\<lparr>compiled_classes = [], class_hash_to_compiled_class_hash = []\<rparr>" ci] by force
qed

section \<open>The recorded classes\<close>

text \<open>Of several classes with one compiled class hash, the last fetched is recorded.\<close>

lemma map_of_rev_last:
  "map_of (rev (map f hs)) c = Some r \<Longrightarrow>
     \<exists>pre h post. hs = pre @ h # post \<and> f h = (c, r) \<and> list_all (\<lambda>g. fst (f g) \<noteq> c) post"
proof (induction hs)
  case (Cons h hs)
  show ?case
  proof (cases "map_of (rev (map f hs)) c")
    case None
    then have "list_all (\<lambda>g. fst (f g) \<noteq> c) hs" by (auto simp: map_of_eq_None_iff list_all_iff image_iff)
    moreover have "f h = (c, r)" using Cons.prems None
      by (cases "f h") (auto simp: map_of_append map_add_def split: if_splits option.splits)
    ultimately have "h # hs = [] @ h # hs \<and> f h = (c, r) \<and> list_all (\<lambda>g. fst (f g) \<noteq> c) hs" by simp
    then show ?thesis by blast
  next
    case (Some r')
    then have "r' = r" using Cons.prems by (auto simp: map_of_append map_add_def)
    with Cons.IH Some obtain pre g post where "hs = pre @ g # post" "f g = (c, r)" "list_all (\<lambda>g. fst (f g) \<noteq> c) post" by blast
    then have "h # hs = (h # pre) @ g # post \<and> f g = (c, r) \<and> list_all (\<lambda>g. fst (f g) \<noteq> c) post" by simp
    then show ?thesis by blast
  qed
qed simp

lemma collect_classes_recorded:
  "collect_classes (map (\<lambda>h. (h, Inr (f h))) hs) acc = Inr ci \<Longrightarrow>
     map_of (compiled_classes ci) = map_of (compiled_classes acc) ++ map_of (rev (map f hs))"
proof (induction hs arbitrary: acc)
  case (Cons h hs)
  obtain c m where f: "f h = (c, m)" by force
  from Cons.prems have "collect_classes (map (\<lambda>h. (h, Inr (f h))) hs)
      (acc\<lparr>compiled_classes := AList.update c m (compiled_classes acc),
           class_hash_to_compiled_class_hash := AList.update h c (class_hash_to_compiled_class_hash acc)\<rparr>) = Inr ci"
    by (simp add: f)
  from Cons.IH [OF this] show ?case
    by (simp add: f update_conv' map_of_append) (auto simp: fun_eq_iff map_add_def split: option.split)
qed simp

lemma get_classes_recorded:
  assumes "get_classes P mgr hs = Inr ci"
  shows "\<exists>f. list_all (\<lambda>h. fetch_class P mgr h = Some (Inr (f h))) hs \<and>
     map_of (compiled_classes ci) = map_of (rev (map f hs))"
proof -
  from get_classes_results [OF assms] obtain rs where rs: "map (fetch_class P mgr) hs = map Some rs"
    and cc: "collect_classes (zip hs rs) \<lparr>compiled_classes = [], class_hash_to_compiled_class_hash = []\<rparr> = Inr ci" by blast
  define f where "f h = (case fetch_class P mgr h of Some (Inr x) \<Rightarrow> x | _ \<Rightarrow> undefined)" for h
  have ok: "fetch_class P mgr h = Some (Inr (f h))" if "h \<in> set hs" for h
  proof -
    have "fetch_class P mgr h \<in> set (map Some rs)" using that unfolding rs [symmetric] by simp
    then obtain r where r: "fetch_class P mgr h = Some r" by auto
    then have "(h, r) \<in> set (zip hs rs)" using that by (simp add: zip_results [OF rs])
    from bspec [OF conjunct1 [OF collect_classes_ok [OF cc]] this] have "is_ok r" by simp
    then show ?thesis using r by (auto simp: is_ok_iff f_def)
  qed
  then have "map Some rs = map Some (map (\<lambda>h. Inr (f h)) hs)" unfolding rs [symmetric] by simp
  then have "rs = map (\<lambda>h. Inr (f h)) hs" by (simp only: inj_map_eq_map [OF inj_Some])
  then have "zip hs rs = map (\<lambda>h. (h, Inr (f h))) hs" by (simp add: zip_map2 zip_same_conv_map comp_def)
  with cc have "map_of (compiled_classes ci) = map_of (rev (map f hs))" using collect_classes_recorded [of f hs _ ci] by fastforce
  with ok show ?thesis by (auto simp: list_all_iff)
qed

text \<open>The class that is converted, and its conversion, field by field.\<close>

definition casm_source ::
  "('f, 'o, 'x) classes_ext_scheme \<Rightarrow> ('f, 'o) runnable_class \<Rightarrow> ('f, 'o) compiled_class_v1 option"
where
  "casm_source P cls =
     (case cls of
        RunnableV0 v \<Rightarrow> None
      | RunnableV1 v1 \<Rightarrow> Some v1
      | RunnableV1Native n \<Rightarrow> if p_cairo_native P then Some (p_native_casm P n) else None)"

definition converted :: "('f, 'o, 'x) classes_ext_scheme \<Rightarrow> ('f, 'o) compiled_class_v1 \<Rightarrow> 'o casm_class \<Rightarrow> bool" where
  "converted P src casm \<longleftrightarrow>
     (\<exists>felts. cv_program_data src = map MInt felts \<and> casm_bytecode casm = map (p_to_biguint P) felts) \<and>
     p_program_hints_to_casm_hints P (cv_hints_collection src) = Inr (casm_hints casm) \<and>
     casm_segment_lengths casm = Some (p_segment_lengths P (cv_segment_felt_sizes src)) \<and>
     casm_entry_points casm = p_casm_entry_points P (cv_entry_points_by_type src) \<and>
     casm_prime casm = p_prime P \<and> casm_compiler_version casm = [] \<and> casm_pythonic_hints casm = None"

lemma bytecode_felts: "collectR (map (bytecode_element P) data) = Inr bytecode \<Longrightarrow>
    \<exists>felts. data = map MInt felts \<and> bytecode = map (p_to_biguint P) felts"
proof (induction data arbitrary: bytecode)
  case Nil
  then show ?case by simp
next
  case (Cons e es)
  from Cons.prems obtain b bs where b: "bytecode_element P e = Inr b" "collectR (map (bytecode_element P) es) = Inr bs"
    "bytecode = b # bs" by (auto simp: bindR_Inr_iff)
  from b(1) obtain f where "e = MInt f" "b = p_to_biguint P f" by (cases e) simp_all
  moreover from Cons.IH [OF b(2)] obtain fs where "es = map MInt fs" "bs = map (p_to_biguint P) fs" by blast
  ultimately have "e # es = map MInt (f # fs) \<and> bytecode = map (p_to_biguint P) (f # fs)" using b(3) by simp
  then show ?case by (rule exI)
qed

lemma class_casm_converted: "class_casm P h cls = Some (Inr casm) \<Longrightarrow> \<exists>src. casm_source P cls = Some src \<and> converted P src casm"
  by (auto simp: class_casm_def casm_source_def compiled_class_v1_to_casm_def converted_def bindR_Inr_iff
      dest!: bytecode_felts split: runnable_class.splits if_splits)

lemma fetch_class_Inr:
  "fetch_class P mgr h = Some (Inr (c, casm)) \<Longrightarrow>
     \<exists>cls src. cm_compiled_class mgr h = Inr cls \<and> cm_compiled_class_hash_v2 mgr h cls = Inr c \<and>
       casm_source P cls = Some src \<and> converted P src casm"
  by (auto simp: fetch_class_def map_ok_Inr_iff split: sum.splits dest!: class_casm_converted)

text \<open>C10. For every requested class, when the requested hashes are distinct: the class manager gave a class, the recorded compiled class hash is the one it gave for that class, and the CASM fetched for it is the conversion of the CASM of the class, with its prime, bytecode, hints, bytecode segments and entry points, and with no pythonic hints and no compiler version. The compiled class recorded under that hash is the CASM fetched for the last requested class that has this compiled class hash.\<close>
theorem get_classes_complete:
  assumes "get_classes P mgr hs = Inr ci" and "distinct hs" and "h \<in> set hs"
  shows "\<exists>c casm cls src pre last post recorded.
     map_of (class_hash_to_compiled_class_hash ci) h = Some c \<and>
     cm_compiled_class mgr h = Inr cls \<and> cm_compiled_class_hash_v2 mgr h cls = Inr c \<and>
     casm_source P cls = Some src \<and> converted P src casm \<and> fetch_class P mgr h = Some (Inr (c, casm)) \<and>
     hs = pre @ last # post \<and> fetch_class P mgr last = Some (Inr (c, recorded)) \<and>
     list_all (\<lambda>g. \<not> fetched P mgr g c) post \<and> map_of (compiled_classes ci) c = Some recorded"
proof -
  from get_classes_ok(3) [OF assms] obtain c casm where c: "map_of (class_hash_to_compiled_class_hash ci) h = Some c"
    and f: "fetch_class P mgr h = Some (Inr (c, casm))" by (auto simp: fetched_def)
  from fetch_class_Inr [OF f] obtain cls src where cls: "cm_compiled_class mgr h = Inr cls"
    "cm_compiled_class_hash_v2 mgr h cls = Inr c" "casm_source P cls = Some src" "converted P src casm" by blast
  obtain fn where fn: "list_all (\<lambda>h. fetch_class P mgr h = Some (Inr (fn h))) hs"
    and m: "map_of (compiled_classes ci) = map_of (rev (map fn hs))" using get_classes_recorded [OF assms(1)] by blast
  have "fn h = (c, casm)" using fn f assms(3) by (auto simp: list_all_iff)
  then have "c \<in> fst ` set (rev (map fn hs))" using assms(3) by force
  then obtain recorded where r: "map_of (rev (map fn hs)) c = Some recorded" by (metis map_of_eq_None_iff option.exhaust)
  from map_of_rev_last [OF this] obtain pre g post where split: "hs = pre @ g # post" "fn g = (c, recorded)"
    "list_all (\<lambda>g. fst (fn g) \<noteq> c) post" by blast
  have "fetch_class P mgr g = Some (Inr (c, recorded))" "list_all (\<lambda>g. \<not> fetched P mgr g c) post"
    using fn split by (auto simp: list_all_iff fetched_def)
  with c f cls split(1) r m show ?thesis by (metis (no_types, lifting))
qed

section \<open>Instance\<close>

definition ref_classes_ext :: "(nat, unit) classes_ext" where
  "ref_classes_ext = storage_ext.extend ref_storage_ext
     (classes_ext.fields felt_prime (\<lambda>n. n) (\<lambda>n. n) Inr (\<lambda>n. n) False (\<lambda>n. undefined) ''task panicked'')"

lemma classes_fields_sel [simp]:
  "p_prime (storage_ext.extend r (classes_ext.fields a b c d e f g h)) = a"
  "p_to_biguint (storage_ext.extend r (classes_ext.fields a b c d e f g h)) = b"
  "p_program_hints_to_casm_hints (storage_ext.extend r (classes_ext.fields a b c d e f g h)) = d"
  by (simp_all add: storage_ext.defs classes_ext.defs)

definition sample_class :: "(nat, unit) compiled_class_v1" where
  "sample_class =
     \<lparr>cv_program_data = [MInt 4, MInt 5], cv_hints_collection = (), cv_segment_felt_sizes = (),
      cv_entry_points_by_type = ()\<rparr>"

definition sample_manager :: "(nat, unit) class_manager" where
  "sample_manager =
     \<lparr>cm_compiled_class = (\<lambda>h. Inr (RunnableV1 sample_class)), cm_compiled_class_hash_v2 = (\<lambda>h c. Inr (h + 100))\<rparr>"

lemma sample_get_classes: "\<exists>ci. get_classes ref_classes_ext sample_manager [7, 8] = Inr ci"
  by (simp add: get_classes_def fetch_class_def sample_manager_def class_casm_def compiled_class_v1_to_casm_def
      sample_class_def) (simp add: ref_classes_ext_def)

theorem get_classes_complete_witness:
  "\<exists>ci casm. get_classes ref_classes_ext sample_manager [7, 8] = Inr ci \<and>
        map_of (class_hash_to_compiled_class_hash ci) 8 = Some 108 \<and> map_of (compiled_classes ci) 108 = Some casm"
proof -
  obtain ci where ci: "get_classes ref_classes_ext sample_manager [7, 8] = Inr ci" using sample_get_classes by blast
  have distinct: "distinct [7, 8 :: nat]" "8 \<in> set [7, 8 :: nat]" by simp_all
  obtain c cls recorded where c: "map_of (class_hash_to_compiled_class_hash ci) 8 = Some c"
    "cm_compiled_class_hash_v2 sample_manager 8 cls = Inr c" "map_of (compiled_classes ci) c = Some recorded"
    using get_classes_complete [OF ci distinct] by (elim exE conjE) (rule that)
  then have "c = 108" by (simp add: sample_manager_def)
  with ci c show ?thesis by blast
qed

end
