(* ===== verification/Block_Executor.thy ===== *)
theory Block_Executor
  imports Classes_Provider
begin

text \<open>
  The virtual block executor, \<open>starknet_transaction_prover/src/running/virtual_block_executor.rs\<close>,
  with the conversion of \<open>serde_utils.rs\<close>. A state reader is the record of its read functions at
  one block; the record \<open>executor\<close> holds the required methods of the trait \<open>VirtualBlockExecutor\<close>,
  and \<open>execute\<close> is its provided method over them. The blockifier (running a list of transactions
  over a reader and a block context) is a parameter. The interface \<open>virtual_block_executor\<close>
  states what a successful execution promises and is interpreted on \<open>execute\<close>.
\<close>

section \<open>State readers\<close>

record ('f, 'o) state_reader =
  rd_storage_at :: "'f \<Rightarrow> 'f \<Rightarrow> string + 'f"
  rd_nonce_at :: "'f \<Rightarrow> string + 'f"
  rd_class_hash_at :: "'f \<Rightarrow> string + 'f"
  rd_compiled_class :: "'f \<Rightarrow> string + ('f, 'o) runnable_class"
  rd_compiled_class_hash :: "'f \<Rightarrow> string + 'f"
  rd_compiled_class_hash_v2 :: "'f \<Rightarrow> ('f, 'o) runnable_class \<Rightarrow> string + 'f"
  rd_compiled_classes :: "'f \<Rightarrow> string + 'o"
  rd_is_declared :: "'f \<Rightarrow> string + bool"

text \<open>A map lookup that falls back to the inner reader.\<close>

definition or_rpc :: "'v option \<Rightarrow> string + 'v \<Rightarrow> string + 'v" where
  "or_rpc found fallback = (case found of Some v \<Rightarrow> Inr v | None \<Rightarrow> fallback)"

definition simulated_reader :: "'f state_maps \<Rightarrow> ('f, 'o) state_reader \<Rightarrow> ('f, 'o) state_reader" where
  "simulated_reader m rpc =
     \<lparr>rd_storage_at = (\<lambda>a k. or_rpc (map_of (sm_storage m) (a, k)) (rd_storage_at rpc a k)),
      rd_nonce_at = (\<lambda>a. or_rpc (map_of (sm_nonces m) a) (rd_nonce_at rpc a)),
      rd_class_hash_at = (\<lambda>a. or_rpc (map_of (sm_class_hashes m) a) (rd_class_hash_at rpc a)),
      rd_compiled_class = rd_compiled_class rpc,
      rd_compiled_class_hash = rd_compiled_class_hash rpc,
      rd_compiled_class_hash_v2 = rd_compiled_class_hash_v2 rpc,
      rd_compiled_classes = rd_compiled_classes rpc,
      rd_is_declared = (\<lambda>h. or_rpc (map_of (sm_declared_contracts m) h) (rd_is_declared rpc h))\<rparr>"

text \<open>The \<open>initial_reads\<close> of the node and their conversion (\<open>serde_utils.rs\<close>).\<close>

record 'f storage_entry =
  se_contract_address :: 'f
  se_key :: 'f
  se_value :: 'f

record 'f nonce_entry =
  ne_contract_address :: 'f
  ne_nonce :: 'f

record 'f class_hash_entry =
  che_contract_address :: 'f
  che_class_hash :: 'f

record 'f declared_entry =
  dce_class_hash :: 'f
  dce_is_declared :: bool

record 'f rpc_initial_reads =
  ir_storage :: "'f storage_entry list"
  ir_nonces :: "'f nonce_entry list"
  ir_class_hashes :: "'f class_hash_entry list"
  ir_declared_contracts :: "'f declared_entry list"

definition state_maps_of_initial_reads :: "'f rpc_initial_reads \<Rightarrow> 'f state_maps" where
  "state_maps_of_initial_reads r =
     empty_state_maps
       \<lparr>sm_storage := im_extend [] (map (\<lambda>e. ((se_contract_address e, se_key e), se_value e)) (ir_storage r)),
        sm_nonces := im_extend [] (map (\<lambda>e. (ne_contract_address e, ne_nonce e)) (ir_nonces r)),
        sm_class_hashes := im_extend [] (map (\<lambda>e. (che_contract_address e, che_class_hash e)) (ir_class_hashes r)),
        sm_declared_contracts := im_extend [] (map (\<lambda>e. (dce_class_hash e, dce_is_declared e)) (ir_declared_contracts r))\<rparr>"

section \<open>The executor\<close>

text \<open>An invoke transaction: version 3 or older.\<close>

datatype 'o api_invoke = InvokeV3 'o | InvokeOld 'o

record execution_flags =
  ef_only_query :: bool
  ef_charge_fee :: bool
  ef_validate :: bool
  ef_strict_nonce_check :: bool

record ('f, 'o) block_header =
  bh_block_hash :: 'f
  bh_parent_hash :: 'f
  bh_transaction_commitment :: 'f
  bh_event_commitment :: 'f
  bh_receipt_commitment :: 'f
  bh_state_diff_commitment :: 'f
  bh_transaction_count :: nat
  bh_event_count :: nat
  bh_state_diff_length :: nat
  bh_l1_da_mode :: 'o
  bh_rest :: 'o

text \<open>What running the transactions leaves: their results, the state, the lock of the bouncer.\<close>

record ('f, 'o) block_run =
  br_results :: "(string + 'o execution_output) list"
  br_block_state :: "'o option"
  br_executed_class_hashes :: "string + 'f list"

record ('f, 'o) exec_ext = "('f, 'o) classes_ext" +
  p_latest_constants :: "'o versioned_constants"
  p_versioned_constants :: "string \<Rightarrow> string + 'o versioned_constants"
  p_block_info :: "('f, 'o) block_header \<Rightarrow> string + 'o block_info"
  p_concat_counts :: "nat \<Rightarrow> nat \<Rightarrow> nat \<Rightarrow> 'o \<Rightarrow> 'o"
  p_default_bouncer :: 'o
  p_resource_bounds :: "'o api_invoke \<Rightarrow> 'o"
  p_tip :: "'o api_invoke \<Rightarrow> u64"
  p_max_possible_fee :: "'o \<Rightarrow> u64 \<Rightarrow> u128"
  p_from_api :: "'o api_invoke \<Rightarrow> 'f \<Rightarrow> execution_flags \<Rightarrow> string + 'o"
  p_execute_txs :: "('f, 'o) state_reader \<Rightarrow> 'o \<Rightarrow> ('f, 'o) block_context \<Rightarrow> 'o list \<Rightarrow> ('f, 'o) block_run"
  p_initial_reads :: "'o \<Rightarrow> string + 'f state_maps"
  p_to_state_diff :: "'o \<Rightarrow> string + 'f state_maps"
  p_call_infos :: "'o \<Rightarrow> 'o list"
  p_sorted_messages :: "'o \<Rightarrow> 'o list"
  p_rpc_invoke_v3 :: "'o \<Rightarrow> string + json"
  p_block_id_json :: "'f block_id \<Rightarrow> json"
  p_deserialize_initial_reads :: "json \<Rightarrow> string + 'f rpc_initial_reads"

definition deserialize_rpc_initial_reads ::
  "('f, 'o, 'x) exec_ext_scheme \<Rightarrow> json \<Rightarrow> string + 'f state_maps"
where
  "deserialize_rpc_initial_reads P v = map_ok state_maps_of_initial_reads (p_deserialize_initial_reads P v)"

record 'o executor_config =
  exc_prefetch_state :: bool
  exc_bouncer_config :: 'o
  exc_use_latest_versioned_constants :: bool

definition default_executor_config :: "('f, 'o, 'x) exec_ext_scheme \<Rightarrow> 'o executor_config" where
  "default_executor_config P =
     \<lparr>exc_prefetch_state = True, exc_bouncer_config = p_default_bouncer P, exc_use_latest_versioned_constants = True\<rparr>"

definition base_block_info_new ::
  "('f, 'o, 'x) exec_ext_scheme \<Rightarrow> ('f, 'o) block_header \<Rightarrow> ('f, 'o) chain_info \<Rightarrow> bool
   \<Rightarrow> 'f virtual_block_executor_error + ('f, 'o) base_block_info"
where
  "base_block_info_new P header chain use_latest =
     (let commitments =
            \<lparr>hc_transaction = bh_transaction_commitment header, hc_event = bh_event_commitment header,
             hc_receipt = bh_receipt_commitment header, hc_state_diff = bh_state_diff_commitment header,
             hc_concatenated_counts = p_concat_counts P (bh_transaction_count header) (bh_event_count header)
               (bh_state_diff_length header) (bh_l1_da_mode header)\<rparr>
      in bindR (map_err (\<lambda>e. TransactionExecutionError (''Failed to convert block header to block info: '' @ e))
                  (p_block_info P header)) (\<lambda>block_info.
         bindR (if use_latest then Inr (p_latest_constants P)
                else map_err (\<lambda>e. TransactionExecutionError (''Failed to get versioned constants: '' @ e))
                       (p_versioned_constants P (bi_starknet_version block_info))) (\<lambda>constants.
         let vc = constants\<lparr>vc_enable_casm_hash_migration := False, vc_min_sierra_version := (0, 0, 1)\<rparr>
         in Inr \<lparr>bb_block_context = \<lparr>bc_block_info = block_info, bc_chain_info = chain,
                                     bc_versioned_constants = vc, bc_bouncer_config = p_default_bouncer P\<rparr>,
                 bb_block_hash = bh_block_hash header, bb_header_commitments = commitments,
                 bb_prev_block_hash = bh_parent_hash header\<rparr>)))"

text \<open>The required methods of the trait.\<close>

record ('f, 'o) executor =
  ex_base_block_info :: "'f block_id \<Rightarrow> 'f virtual_block_executor_error + ('f, 'o) base_block_info"
  ex_state_reader :: "'f block_id \<Rightarrow> ('o api_invoke \<times> 'f) list \<Rightarrow> 'f virtual_block_executor_error + ('f, 'o) state_reader"
  ex_validate_txs_enabled :: "'f virtual_block_executor_error + bool"

definition tx_flags :: "('f, 'o, 'x) exec_ext_scheme \<Rightarrow> bool \<Rightarrow> 'o api_invoke \<Rightarrow> execution_flags" where
  "tx_flags P validate tx =
     \<lparr>ef_only_query = False, ef_charge_fee = 0 < p_max_possible_fee P (p_resource_bounds P tx) (p_tip P tx),
      ef_validate = validate, ef_strict_nonce_check = False\<rparr>"

definition convert_invoke_txs ::
  "('f, 'o, 'x) exec_ext_scheme \<Rightarrow> ('f, 'o) executor \<Rightarrow> ('o api_invoke \<times> 'f) list
   \<Rightarrow> 'f virtual_block_executor_error + 'o list"
where
  "convert_invoke_txs P ex txs =
     collectR (map (\<lambda>(tx, h).
       bindR (ex_validate_txs_enabled ex) (\<lambda>validate.
         map_err TransactionExecutionError (p_from_api P tx h (tx_flags P validate tx)))) txs)"

fun first_revert :: "('o execution_output \<times> 'f) list \<Rightarrow> 'f virtual_block_executor_error + unit" where
  "first_revert [] = Inr ()"
| "first_revert ((output, tx_hash) # rest) =
     (case eo_revert_error output of
        Some e \<Rightarrow> Inl (TransactionReverted tx_hash e)
      | None \<Rightarrow> first_revert rest)"

definition output_messages :: "('f, 'o, 'x) exec_ext_scheme \<Rightarrow> 'o execution_output \<Rightarrow> 'o list" where
  "output_messages P output = concat (map (p_sorted_messages P) (p_call_infos P (eo_info output)))"

definition execute ::
  "('f, 'o, 'x) exec_ext_scheme \<Rightarrow> ('f, 'o) executor \<Rightarrow> 'f block_id \<Rightarrow> 'o \<Rightarrow> ('o api_invoke \<times> 'f) list
   \<Rightarrow> 'f virtual_block_executor_error + ('f, 'o) execution_data"
where
  "execute P ex block_id mgr txs =
     bindR (ex_base_block_info ex block_id) (\<lambda>base.
     bindR (ex_state_reader ex block_id txs) (\<lambda>reader.
     let tx_hashes = map snd txs
     in bindR (convert_invoke_txs P ex txs) (\<lambda>blockifier_txs.
        let run = p_execute_txs P reader mgr (bb_block_context base) blockifier_txs
        in bindR (collectR (map (map_err TransactionExecutionError) (br_results run))) (\<lambda>outputs.
           bindR (first_revert (zip outputs tx_hashes)) (\<lambda>_.
           bindR (ok_or StateUnavailable (br_block_state run)) (\<lambda>state.
           bindR (map_err ReexecutionError (p_initial_reads P state)) (\<lambda>reads.
           bindR (map_err (\<lambda>e. TransactionExecutionError (''Failed to get state diff: '' @ e))
                    (p_to_state_diff P state)) (\<lambda>diff.
           bindR (map_err BouncerLockError (br_executed_class_hashes run)) (\<lambda>hashes.
           Inr \<lparr>ed_execution_outputs = outputs, ed_initial_reads = reads, ed_state_diff = diff,
                ed_executed_class_hashes = hashes,
                ed_l2_to_l1_messages = concat (map (output_messages P) outputs),
                ed_base_block_info = base\<rparr>)))))))))"

section \<open>The RPC executor\<close>

record ('f, 'o) rpc_state_reader =
  rr_reader :: "('f, 'o) state_reader"
  rr_block_header :: "string + ('f, 'o) block_header"
  rr_send_request :: "string \<Rightarrow> json \<Rightarrow> string + json"
  rr_chain_info :: "('f, 'o) chain_info"

record ('f, 'o) rpc_executor =
  rx_state_reader :: "('f, 'o) rpc_state_reader"
  rx_validate_txs :: bool
  rx_config :: "'o executor_config"

definition rpc_executor_new :: "('f, 'o) rpc_state_reader \<Rightarrow> 'o executor_config \<Rightarrow> ('f, 'o) rpc_executor" where
  "rpc_executor_new rd config = \<lparr>rx_state_reader = rd, rx_validate_txs = True, rx_config = config\<rparr>"

definition simulate_and_get_initial_reads ::
  "('f, 'o, 'x) exec_ext_scheme \<Rightarrow> ('f, 'o) rpc_executor \<Rightarrow> 'f block_id \<Rightarrow> ('o api_invoke \<times> 'f) list
   \<Rightarrow> 'f virtual_block_executor_error + 'f state_maps"
where
  "simulate_and_get_initial_reads P self block_id txs =
     bindR (collectR (map (\<lambda>(tx, h).
       case tx of
         InvokeV3 v3 \<Rightarrow> map_err TransactionExecutionError (p_rpc_invoke_v3 P v3)
       | InvokeOld _ \<Rightarrow> Inl (TransactionExecutionError ''Only Invoke V3 transactions are supported for simulate'')) txs))
     (\<lambda>rpc_txs.
     let flags = [''RETURN_INITIAL_READS'']
                 @ (if \<not> rx_validate_txs self then [''SKIP_VALIDATE''] else []) @ [''SKIP_FEE_CHARGE''];
         params = JObj [(''block_id'', p_block_id_json P block_id), (''transactions'', JArr rpc_txs),
                        (''simulation_flags'', jstrs flags)]
     in bindR (map_err ReexecutionError
                 (rr_send_request (rx_state_reader self) ''starknet_simulateTransactions'' params)) (\<lambda>result.
        bindR (ok_or (TransactionExecutionError
                 (''simulateTransactions response missing initial_reads (ensure RETURN_INITIAL_READS '' @
                  ''and v0.10 endpoint)'')) (jget ''initial_reads'' result)) (\<lambda>v.
        map_err (\<lambda>e. TransactionExecutionError (''Failed to deserialize initial_reads: '' @ e))
          (deserialize_rpc_initial_reads P v))))"

definition rpc_base_block_info ::
  "('f, 'o, 'x) exec_ext_scheme \<Rightarrow> ('f, 'o) rpc_executor \<Rightarrow> 'f block_id
   \<Rightarrow> 'f virtual_block_executor_error + ('f, 'o) base_block_info"
where
  "rpc_base_block_info P self block_id =
     bindR (map_err ReexecutionError (rr_block_header (rx_state_reader self))) (\<lambda>header.
     bindR (base_block_info_new P header (rr_chain_info (rx_state_reader self))
              (exc_use_latest_versioned_constants (rx_config self))) (\<lambda>base.
     Inr (base\<lparr>bb_block_context := (bb_block_context base)\<lparr>bc_bouncer_config := exc_bouncer_config (rx_config self)\<rparr>\<rparr>)))"

definition rpc_reader_for ::
  "('f, 'o, 'x) exec_ext_scheme \<Rightarrow> ('f, 'o) rpc_executor \<Rightarrow> 'f block_id \<Rightarrow> ('o api_invoke \<times> 'f) list
   \<Rightarrow> 'f virtual_block_executor_error + ('f, 'o) state_reader"
where
  "rpc_reader_for P self block_id txs =
     (let rpc = rr_reader (rx_state_reader self)
      in if exc_prefetch_state (rx_config self)
         then bindR (simulate_and_get_initial_reads P self block_id txs) (\<lambda>maps. Inr (simulated_reader maps rpc))
         else Inr rpc)"

definition rpc_executor_of :: "('f, 'o, 'x) exec_ext_scheme \<Rightarrow> ('f, 'o) rpc_executor \<Rightarrow> ('f, 'o) executor" where
  "rpc_executor_of P self =
     \<lparr>ex_base_block_info = rpc_base_block_info P self, ex_state_reader = rpc_reader_for P self,
      ex_validate_txs_enabled = Inr (rx_validate_txs self)\<rparr>"

section \<open>A successful execution\<close>

lemma first_revert_Inr: "first_revert ohs = Inr () \<longleftrightarrow> list_all (\<lambda>(output, h). eo_revert_error output = None) ohs"
  by (induction ohs rule: first_revert.induct) (auto split: option.splits)

lemma first_revert_Inl:
  "first_revert ohs = Inl e \<longleftrightarrow>
     (\<exists>pre output h post r. ohs = pre @ (output, h) # post \<and> list_all (\<lambda>(output, h). eo_revert_error output = None) pre \<and>
        eo_revert_error output = Some r \<and> e = TransactionReverted h r)"
  (is "_ \<longleftrightarrow> ?R ohs")
proof (induction ohs rule: first_revert.induct)
  case 1
  then show ?case by simp
next
  case (2 out1 h rest)
  show ?case
  proof (cases "eo_revert_error out1")
    case None
    have "?R ((out1, h) # rest) \<longleftrightarrow> ?R rest"
    proof
      assume "?R ((out1, h) # rest)"
      then obtain pre o' h' post r where r: "(out1, h) # rest = pre @ (o', h') # post"
        "list_all (\<lambda>(output, h). eo_revert_error output = None) pre" "eo_revert_error o' = Some r"
        "e = TransactionReverted h' r" by blast
      with None obtain pre' where "pre = (out1, h) # pre'" by (cases pre) auto
      with r have "rest = pre' @ (o', h') # post" "list_all (\<lambda>(output, h). eo_revert_error output = None) pre'" by simp_all
      with r(3,4) show "?R rest" by blast
    next
      assume "?R rest"
      then obtain pre o' h' post r where r: "rest = pre @ (o', h') # post"
        "list_all (\<lambda>(output, h). eo_revert_error output = None) pre" "eo_revert_error o' = Some r"
        "e = TransactionReverted h' r" by blast
      with None have "(out1, h) # rest = ((out1, h) # pre) @ (o', h') # post"
        "list_all (\<lambda>(output, h). eo_revert_error output = None) ((out1, h) # pre)" by simp_all
      with r(3,4) show "?R ((out1, h) # rest)" by blast
    qed
    with None 2 show ?thesis by simp
  next
    case (Some r)
    have "?R ((out1, h) # rest) \<longleftrightarrow> e = TransactionReverted h r"
    proof
      assume "?R ((out1, h) # rest)"
      then obtain pre o' h' post r' where r: "(out1, h) # rest = pre @ (o', h') # post"
        "list_all (\<lambda>(output, h). eo_revert_error output = None) pre" "eo_revert_error o' = Some r'"
        "e = TransactionReverted h' r'" by blast
      with Some show "e = TransactionReverted h r" by (cases pre) auto
    next
      assume "e = TransactionReverted h r"
      moreover have "(out1, h) # rest = [] @ (out1, h) # rest"
        "list_all (\<lambda>(output, h). eo_revert_error output = None) []" by simp_all
      ultimately show "?R ((out1, h) # rest)" using Some by blast
    qed
    with Some show ?thesis by auto
  qed
qed

lemma execute_steps:
  assumes "execute P ex b mgr txs = Inr ed"
  shows "\<exists>reader btxs state.
     ex_base_block_info ex b = Inr (ed_base_block_info ed) \<and> ex_state_reader ex b txs = Inr reader \<and>
     convert_invoke_txs P ex txs = Inr btxs \<and>
     br_results (p_execute_txs P reader mgr (bb_block_context (ed_base_block_info ed)) btxs) = map Inr (ed_execution_outputs ed) \<and>
     first_revert (zip (ed_execution_outputs ed) (map snd txs)) = Inr () \<and>
     br_block_state (p_execute_txs P reader mgr (bb_block_context (ed_base_block_info ed)) btxs) = Some state \<and>
     p_initial_reads P state = Inr (ed_initial_reads ed) \<and> p_to_state_diff P state = Inr (ed_state_diff ed) \<and>
     br_executed_class_hashes (p_execute_txs P reader mgr (bb_block_context (ed_base_block_info ed)) btxs)
       = Inr (ed_executed_class_hashes ed) \<and>
     ed_l2_to_l1_messages ed = concat (map (output_messages P) (ed_execution_outputs ed))"
proof -
  have strip: "map (map_err f) rs = map Inr xs \<longleftrightarrow> rs = map Inr xs" for f :: "string \<Rightarrow> 'a virtual_block_executor_error" and rs and xs :: "'b execution_output list"
    by (induction rs arbitrary: xs) (auto simp: Cons_eq_map_conv)
  show ?thesis using assms
    by (auto simp: execute_def Let_def bindR_Inr_iff collectR_Inr_iff strip)
qed

text \<open>
  The interface \<open>VirtualBlockExecutor\<close>: no executed transaction of a successful run reverted, and
  the messages of the run are the sorted messages of its outputs, in order.
\<close>

locale virtual_block_executor =
  fixes exec :: "'f block_id \<Rightarrow> 'o \<Rightarrow> ('o api_invoke \<times> 'f) list \<Rightarrow> 'f virtual_block_executor_error + ('f, 'o) execution_data"
    and messages_of :: "'o execution_output \<Rightarrow> 'o list"
  assumes none_reverted: "exec b mgr txs = Inr ed \<Longrightarrow>
      list_all (\<lambda>(output, tx). eo_revert_error output = None) (zip (ed_execution_outputs ed) txs)"
    and all_messages: "exec b mgr txs = Inr ed \<Longrightarrow>
      ed_l2_to_l1_messages ed = concat (map messages_of (ed_execution_outputs ed))"

lemma zip_snd_revert:
  "list_all (\<lambda>(output, h). eo_revert_error output = None) (zip os (map snd txs)) \<longleftrightarrow>
   list_all (\<lambda>(output, tx). eo_revert_error output = None) (zip os txs)"
  by (induction os txs rule: list_induct2') auto

interpretation trait_executor: virtual_block_executor "execute P ex" "output_messages P" for P ex
proof
  fix b mgr txs ed
  assume "execute P ex b mgr txs = Inr ed"
  from execute_steps [OF this] show
    "list_all (\<lambda>(output, tx). eo_revert_error output = None) (zip (ed_execution_outputs ed) txs)"
    "ed_l2_to_l1_messages ed = concat (map (output_messages P) (ed_execution_outputs ed))"
    by (auto simp: first_revert_Inr zip_snd_revert)
qed

section \<open>Flags and constants of an execution\<close>

text \<open>
  The base block of a header: its block information, hashes and commitments, the chain, the
  constants of the block's version or the latest ones with two of them overridden, the bouncer of
  the configuration.
\<close>

definition base_block_of ::
  "('f, 'o, 'x) exec_ext_scheme \<Rightarrow> ('f, 'o) block_header \<Rightarrow> ('f, 'o) chain_info \<Rightarrow> 'o executor_config
   \<Rightarrow> ('f, 'o) base_block_info \<Rightarrow> bool"
where
  "base_block_of P header chain config base \<longleftrightarrow>
     (let ctx = bb_block_context base; vc = bc_versioned_constants ctx; hc = bb_header_commitments base
      in p_block_info P header = Inr (bc_block_info ctx) \<and> bc_chain_info ctx = chain \<and>
         bc_bouncer_config ctx = exc_bouncer_config config \<and>
         (\<exists>constants.
            (if exc_use_latest_versioned_constants config then constants = p_latest_constants P
             else p_versioned_constants P (bi_starknet_version (bc_block_info ctx)) = Inr constants) \<and>
            vc = constants\<lparr>vc_enable_casm_hash_migration := False, vc_min_sierra_version := (0, 0, 1)\<rparr>) \<and>
         bb_block_hash base = bh_block_hash header \<and> bb_prev_block_hash base = bh_parent_hash header \<and>
         hc_transaction hc = bh_transaction_commitment header \<and> hc_event hc = bh_event_commitment header \<and>
         hc_receipt hc = bh_receipt_commitment header \<and> hc_state_diff hc = bh_state_diff_commitment header \<and>
         hc_concatenated_counts hc = p_concat_counts P (bh_transaction_count header) (bh_event_count header)
           (bh_state_diff_length header) (bh_l1_da_mode header))"

lemma base_block_info_new_Inr:
  assumes "base_block_info_new P header chain latest = Inr new"
  shows "\<exists>bi constants. p_block_info P header = Inr bi \<and>
     (if latest then constants = p_latest_constants P else p_versioned_constants P (bi_starknet_version bi) = Inr constants) \<and>
     new = \<lparr>bb_block_context = \<lparr>bc_block_info = bi, bc_chain_info = chain,
              bc_versioned_constants = constants\<lparr>vc_enable_casm_hash_migration := False, vc_min_sierra_version := (0, 0, 1)\<rparr>,
              bc_bouncer_config = p_default_bouncer P\<rparr>,
            bb_block_hash = bh_block_hash header,
            bb_header_commitments =
              \<lparr>hc_transaction = bh_transaction_commitment header, hc_event = bh_event_commitment header,
               hc_receipt = bh_receipt_commitment header, hc_state_diff = bh_state_diff_commitment header,
               hc_concatenated_counts = p_concat_counts P (bh_transaction_count header) (bh_event_count header)
                 (bh_state_diff_length header) (bh_l1_da_mode header)\<rparr>,
            bb_prev_block_hash = bh_parent_hash header\<rparr>"
proof (cases "p_block_info P header")
  case (Inl e)
  with assms show ?thesis by (simp add: base_block_info_new_def Let_def)
next
  case (Inr bi)
  show ?thesis
  proof (cases latest)
    case True
    with assms Inr show ?thesis by (simp add: base_block_info_new_def Let_def eq_commute [of new])
  next
    case False
    with assms Inr show ?thesis
      by (cases "p_versioned_constants P (bi_starknet_version bi)")
        (simp_all add: base_block_info_new_def Let_def eq_commute [of new])
  qed
qed

lemma rpc_base_block_info_of:
  assumes "rpc_base_block_info P self b = Inr base"
  shows "\<exists>header. rr_block_header (rx_state_reader self) = Inr header \<and>
     base_block_of P header (rr_chain_info (rx_state_reader self)) (rx_config self) base"
proof -
  from assms obtain header new where h: "rr_block_header (rx_state_reader self) = Inr header"
    and new: "base_block_info_new P header (rr_chain_info (rx_state_reader self))
       (exc_use_latest_versioned_constants (rx_config self)) = Inr new"
    and base: "base = new\<lparr>bb_block_context := (bb_block_context new)\<lparr>bc_bouncer_config := exc_bouncer_config (rx_config self)\<rparr>\<rparr>"
    by (auto simp: rpc_base_block_info_def bindR_Inr_iff)
  obtain bi constants where bi: "p_block_info P header = Inr bi"
    and constants: "if exc_use_latest_versioned_constants (rx_config self) then constants = p_latest_constants P
      else p_versioned_constants P (bi_starknet_version bi) = Inr constants"
    and eq: "new = \<lparr>bb_block_context = \<lparr>bc_block_info = bi, bc_chain_info = rr_chain_info (rx_state_reader self),
              bc_versioned_constants = constants\<lparr>vc_enable_casm_hash_migration := False, vc_min_sierra_version := (0, 0, 1)\<rparr>,
              bc_bouncer_config = p_default_bouncer P\<rparr>,
            bb_block_hash = bh_block_hash header,
            bb_header_commitments =
              \<lparr>hc_transaction = bh_transaction_commitment header, hc_event = bh_event_commitment header,
               hc_receipt = bh_receipt_commitment header, hc_state_diff = bh_state_diff_commitment header,
               hc_concatenated_counts = p_concat_counts P (bh_transaction_count header) (bh_event_count header)
                 (bh_state_diff_length header) (bh_l1_da_mode header)\<rparr>,
            bb_prev_block_hash = bh_parent_hash header\<rparr>"
    using base_block_info_new_Inr [OF new] by (elim exE conjE) (rule that)
  have "base_block_of P header (rr_chain_info (rx_state_reader self)) (rx_config self) base"
    unfolding base_block_of_def Let_def base eq
    by (intro conjI exI [of _ constants]) (use constants in \<open>simp_all add: bi\<close>)
  with h show ?thesis by blast
qed

text \<open>
  What is assumed of the blockifier: a run of a list of transactions has at most one result for
  each of them, in their order. It may have fewer, a run stops when the block is full.
\<close>

definition results_bounded :: "('f, 'o, 'x) exec_ext_scheme \<Rightarrow> bool" where
  "results_bounded P \<longleftrightarrow> (\<forall>rd mgr ctx txs. length (br_results (p_execute_txs P rd mgr ctx txs)) \<le> length txs)"

lemma convert_invoke_txs_length: "convert_invoke_txs P ex txs = Inr btxs \<Longrightarrow> length btxs = length txs"
  unfolding convert_invoke_txs_def collectR_Inr_iff by (drule arg_cong [of _ _ length]) simp

lemma converted_flags:
  assumes "convert_invoke_txs P (rpc_executor_of P self) txs = Inr btxs"
  shows "list_all2 (\<lambda>(tx, h) bt. p_from_api P tx h
        \<lparr>ef_only_query = False, ef_charge_fee = (p_max_possible_fee P (p_resource_bounds P tx) (p_tip P tx) \<noteq> 0),
         ef_validate = rx_validate_txs self, ef_strict_nonce_check = False\<rparr> = Inr bt) txs btxs"
proof -
  note m = assms [unfolded convert_invoke_txs_def collectR_Inr_iff rpc_executor_of_def executor.simps bindR.simps]
  have pos: "(0 < w) = (w \<noteq> 0)" for w :: u128 by (simp add: word_neq_0_conv)
  have "list_all2 (\<lambda>(tx, h) bt. p_from_api P tx h (tx_flags P (rx_validate_txs self) tx) = Inr bt) txs btxs"
  proof (rule list_all2_all_nthI)
    show len: "length txs = length btxs" using convert_invoke_txs_length [OF assms] by simp
    fix i
    assume i: "i < length txs"
    from arg_cong [OF m, of "\<lambda>l. l ! i"] i len
    show "(\<lambda>(tx, h) bt. p_from_api P tx h (tx_flags P (rx_validate_txs self) tx) = Inr bt) (txs ! i) (btxs ! i)"
      by (auto split: prod.splits)
  qed
  then show ?thesis unfolding tx_flags_def pos .
qed

lemma zip_all_outputs:
  "length os \<le> length txs \<Longrightarrow>
     list_all (\<lambda>(output, tx). p output) (zip os txs) \<longleftrightarrow> list_all p os"
  by (induction os txs rule: list_induct2') auto

lemma no_output_reverted:
  assumes "results_bounded P" and "execute P ex b mgr txs = Inr ed"
  shows "length (ed_execution_outputs ed) \<le> length txs"
    and "list_all (\<lambda>output. eo_revert_error output = None) (ed_execution_outputs ed)"
proof -
  from execute_steps [OF assms(2)] obtain reader btxs where conv: "convert_invoke_txs P ex txs = Inr btxs"
    and run: "br_results (p_execute_txs P reader mgr (bb_block_context (ed_base_block_info ed)) btxs) = map Inr (ed_execution_outputs ed)"
    and rev: "first_revert (zip (ed_execution_outputs ed) (map snd txs)) = Inr ()" by blast
  from assms(1) have "length (br_results (p_execute_txs P reader mgr (bb_block_context (ed_base_block_info ed)) btxs)) \<le> length btxs"
    by (simp add: results_bounded_def)
  then show len: "length (ed_execution_outputs ed) \<le> length txs"
    using convert_invoke_txs_length [OF conv] by (simp add: run)
  show "list_all (\<lambda>output. eo_revert_error output = None) (ed_execution_outputs ed)"
    using rev len by (simp add: first_revert_Inr zip_snd_revert zip_all_outputs)
qed

text \<open>C8. When the virtual block executor succeeds, every transaction was run in order, not as a query, without the strict nonce check, validated as configured and charging a fee exactly when its maximal fee is not zero. The context is the one of the header of the block: its block info, the chain info of the reader, the latest constants or those of the version of the block, with the CASM hash migration off and the minimal Sierra version lowered, the configured bouncer, and the hashes, commitments and counts of the header. The state is that of the node, or the simulated reads before it when prefetching is on. The outputs are all the results of that run, no more than there are transactions (assumed of the blockifier), none reverted, and the reads, the diff and the messages are those of the run.\<close>
theorem rpc_execution_flags:
  assumes "results_bounded P" and "execute P (rpc_executor_of P self) b mgr txs = Inr ed"
  shows "\<exists>btxs header reader state.
     list_all2 (\<lambda>(tx, h) bt. p_from_api P tx h
        \<lparr>ef_only_query = False, ef_charge_fee = (p_max_possible_fee P (p_resource_bounds P tx) (p_tip P tx) \<noteq> 0),
         ef_validate = rx_validate_txs self, ef_strict_nonce_check = False\<rparr> = Inr bt) txs btxs \<and>
     rr_block_header (rx_state_reader self) = Inr header \<and>
     base_block_of P header (rr_chain_info (rx_state_reader self)) (rx_config self) (ed_base_block_info ed) \<and>
     (if exc_prefetch_state (rx_config self)
      then \<exists>m. simulate_and_get_initial_reads P self b txs = Inr m \<and>
               reader = simulated_reader m (rr_reader (rx_state_reader self))
      else reader = rr_reader (rx_state_reader self)) \<and>
     p_execute_txs P reader mgr (bb_block_context (ed_base_block_info ed)) btxs =
       \<lparr>br_results = map Inr (ed_execution_outputs ed), br_block_state = Some state,
        br_executed_class_hashes = Inr (ed_executed_class_hashes ed)\<rparr> \<and>
     length (ed_execution_outputs ed) \<le> length txs \<and>
     list_all (\<lambda>output. eo_revert_error output = None) (ed_execution_outputs ed) \<and>
     p_initial_reads P state = Inr (ed_initial_reads ed) \<and> p_to_state_diff P state = Inr (ed_state_diff ed) \<and>
     ed_l2_to_l1_messages ed = concat (map (output_messages P) (ed_execution_outputs ed))"
proof -
  let ?run = "\<lambda>reader btxs. p_execute_txs P reader mgr (bb_block_context (ed_base_block_info ed)) btxs"
  from execute_steps [OF assms(2)] obtain reader btxs state where
    base: "rpc_base_block_info P self b = Inr (ed_base_block_info ed)" and
    rd: "rpc_reader_for P self b txs = Inr reader" and
    conv: "convert_invoke_txs P (rpc_executor_of P self) txs = Inr btxs" and
    run: "br_results (?run reader btxs) = map Inr (ed_execution_outputs ed)"
      "br_block_state (?run reader btxs) = Some state"
      "br_executed_class_hashes (?run reader btxs) = Inr (ed_executed_class_hashes ed)" and
    rest: "p_initial_reads P state = Inr (ed_initial_reads ed)" "p_to_state_diff P state = Inr (ed_state_diff ed)"
      "ed_l2_to_l1_messages ed = concat (map (output_messages P) (ed_execution_outputs ed))"
    by (auto simp: rpc_executor_of_def)
  from rpc_base_block_info_of [OF base] obtain header where header: "rr_block_header (rx_state_reader self) = Inr header"
    "base_block_of P header (rr_chain_info (rx_state_reader self)) (rx_config self) (ed_base_block_info ed)" by blast
  from rd have reader: "if exc_prefetch_state (rx_config self)
      then \<exists>m. simulate_and_get_initial_reads P self b txs = Inr m \<and>
               reader = simulated_reader m (rr_reader (rx_state_reader self))
      else reader = rr_reader (rx_state_reader self)"
    by (auto simp: rpc_reader_for_def Let_def bindR_Inr_iff split: if_splits)
  have run_eq: "?run reader btxs =
       \<lparr>br_results = map Inr (ed_execution_outputs ed), br_block_state = Some state,
        br_executed_class_hashes = Inr (ed_executed_class_hashes ed)\<rparr>"
    using run by (cases "?run reader btxs") simp
  show ?thesis
    by (rule exI [of _ btxs], rule exI [of _ header], rule exI [of _ reader], rule exI [of _ state])
      (intro conjI converted_flags [OF conv] header reader run_eq no_output_reverted [OF assms] rest)
qed

section \<open>Prefetching\<close>

definition prefetch_agrees :: "'f state_maps \<Rightarrow> ('f, 'o) state_reader \<Rightarrow> bool" where
  "prefetch_agrees m rpc \<longleftrightarrow>
     (\<forall>a k v. map_of (sm_storage m) (a, k) = Some v \<longrightarrow> rd_storage_at rpc a k = Inr v) \<and>
     (\<forall>a v. map_of (sm_nonces m) a = Some v \<longrightarrow> rd_nonce_at rpc a = Inr v) \<and>
     (\<forall>a v. map_of (sm_class_hashes m) a = Some v \<longrightarrow> rd_class_hash_at rpc a = Inr v) \<and>
     (\<forall>h v. map_of (sm_declared_contracts m) h = Some v \<longrightarrow> rd_is_declared rpc h = Inr v)"

lemma or_rpc_agrees: "(\<And>v. found = Some v \<Longrightarrow> fallback = Inr v) \<Longrightarrow> or_rpc found fallback = fallback"
  by (cases found) (simp_all add: or_rpc_def)

lemma simulated_reader_agrees: "prefetch_agrees m rpc \<Longrightarrow> simulated_reader m rpc = rpc"
  by (cases rpc) (simp add: simulated_reader_def prefetch_agrees_def or_rpc_agrees)

text \<open>C9. If the simulated initial reads agree with the node, executing with prefetching gives the same result as executing without it.\<close>
theorem prefetch_transparent:
  assumes "simulate_and_get_initial_reads P self b txs = Inr m"
    and "prefetch_agrees m (rr_reader (rx_state_reader self))"
  shows "execute P (rpc_executor_of P self) b mgr txs =
         execute P (rpc_executor_of P (self\<lparr>rx_config := (rx_config self)\<lparr>exc_prefetch_state := False\<rparr>\<rparr>)) b mgr txs"
proof -
  let ?off = "self\<lparr>rx_config := (rx_config self)\<lparr>exc_prefetch_state := False\<rparr>\<rparr>"
  have reader: "rpc_reader_for P self b txs = rpc_reader_for P ?off b txs"
    using assms by (simp add: rpc_reader_for_def simulated_reader_agrees Let_def)
  have base: "rpc_base_block_info P self b = rpc_base_block_info P ?off b"
    by (simp add: rpc_base_block_info_def)
  have conv: "convert_invoke_txs P (rpc_executor_of P self) txs = convert_invoke_txs P (rpc_executor_of P ?off) txs"
    by (simp add: convert_invoke_txs_def rpc_executor_of_def)
  show ?thesis
    by (simp add: execute_def conv) (simp add: rpc_executor_of_def reader base)
qed

theorem initial_reads_last_entry:
  "map_of (sm_storage (state_maps_of_initial_reads r)) =
     map_of (rev (map (\<lambda>e. ((se_contract_address e, se_key e), se_value e)) (ir_storage r))) \<and>
   map_of (sm_nonces (state_maps_of_initial_reads r)) =
     map_of (rev (map (\<lambda>e. (ne_contract_address e, ne_nonce e)) (ir_nonces r))) \<and>
   map_of (sm_class_hashes (state_maps_of_initial_reads r)) =
     map_of (rev (map (\<lambda>e. (che_contract_address e, che_class_hash e)) (ir_class_hashes r))) \<and>
   map_of (sm_declared_contracts (state_maps_of_initial_reads r)) =
     map_of (rev (map (\<lambda>e. (dce_class_hash e, dce_is_declared e)) (ir_declared_contracts r))) \<and>
   sm_compiled_class_hashes (state_maps_of_initial_reads r) = []"
  by (simp add: state_maps_of_initial_reads_def empty_state_maps_def map_of_im_extend)

section \<open>Instance\<close>

text \<open>A blockifier that runs every transaction without a revert and reads nothing.\<close>

definition ref_exec_ext :: "(nat, unit) exec_ext" where
  "ref_exec_ext = classes_ext.extend ref_classes_ext
     (exec_ext.fields
        \<lparr>vc_enable_casm_hash_migration = True, vc_min_sierra_version = (1, 7, 0), vc_rest = ()\<rparr>
        (\<lambda>v. Inl ''unknown version'')
        (\<lambda>h. Inr \<lparr>bi_block_number = 5, bi_starknet_version = ''0.14.0'', bi_rest = ()\<rparr>)
        (\<lambda>a b c d. ()) () (\<lambda>tx. ()) (\<lambda>tx. 0) (\<lambda>b t. 0) (\<lambda>tx h fl. Inr ())
        (\<lambda>rd mgr ctx txs. \<lparr>br_results = map (\<lambda>t. Inr \<lparr>eo_revert_error = None, eo_info = ()\<rparr>) txs,
                            br_block_state = Some (), br_executed_class_hashes = Inr [7]\<rparr>)
        (\<lambda>st. Inr empty_state_maps) (\<lambda>st. Inr empty_state_maps) (\<lambda>i. [()]) (\<lambda>i. [()])
        (\<lambda>v3. Inr JNull) (\<lambda>b. JNull)
        (\<lambda>v. Inr \<lparr>ir_storage = [], ir_nonces = [\<lparr>ne_contract_address = 1, ne_nonce = 0\<rparr>], ir_class_hashes = [], ir_declared_contracts = []\<rparr>))"

lemma exec_fields_sel [simp]:
  "p_latest_constants (classes_ext.extend r0 (exec_ext.fields a b c d e f g h i j k l m n ob p q)) = a"
  "p_block_info (classes_ext.extend r0 (exec_ext.fields a b c d e f g h i j k l m n ob p q)) = c"
  "p_default_bouncer (classes_ext.extend r0 (exec_ext.fields a b c d e f g h i j k l m n ob p q)) = e"
  "p_max_possible_fee (classes_ext.extend r0 (exec_ext.fields a b c d e f g h i j k l m n ob p q)) = h"
  "p_from_api (classes_ext.extend r0 (exec_ext.fields a b c d e f g h i j k l m n ob p q)) = i"
  "p_execute_txs (classes_ext.extend r0 (exec_ext.fields a b c d e f g h i j k l m n ob p q)) = j"
  "p_initial_reads (classes_ext.extend r0 (exec_ext.fields a b c d e f g h i j k l m n ob p q)) = k"
  "p_to_state_diff (classes_ext.extend r0 (exec_ext.fields a b c d e f g h i j k l m n ob p q)) = l"
  "p_rpc_invoke_v3 (classes_ext.extend r0 (exec_ext.fields a b c d e f g h i j k l m n ob p q)) = ob"
  "p_deserialize_initial_reads (classes_ext.extend r0 (exec_ext.fields a b c d e f g h i j k l m n ob p q)) = q"
  by (simp_all add: classes_ext.defs exec_ext.defs)

definition sample_header :: "(nat, unit) block_header" where
  "sample_header =
     \<lparr>bh_block_hash = 77, bh_parent_hash = 76, bh_transaction_commitment = 1, bh_event_commitment = 2,
      bh_receipt_commitment = 3, bh_state_diff_commitment = 4, bh_transaction_count = 1, bh_event_count = 0,
      bh_state_diff_length = 2, bh_l1_da_mode = (), bh_rest = ()\<rparr>"

definition sample_reader :: "(nat, unit) state_reader" where
  "sample_reader =
     \<lparr>rd_storage_at = (\<lambda>a k. Inr 0), rd_nonce_at = (\<lambda>a. Inr 0), rd_class_hash_at = (\<lambda>a. Inr 7),
      rd_compiled_class = (\<lambda>h. Inr (RunnableV1 sample_class)), rd_compiled_class_hash = (\<lambda>h. Inr h),
      rd_compiled_class_hash_v2 = (\<lambda>h c. Inr h), rd_compiled_classes = (\<lambda>h. Inr ()), rd_is_declared = (\<lambda>h. Inr True)\<rparr>"

definition sample_executor :: "(nat, unit) rpc_executor" where
  "sample_executor = rpc_executor_new
     \<lparr>rr_reader = sample_reader, rr_block_header = Inr sample_header,
      rr_send_request = (\<lambda>meth params. Inr (JObj [(''initial_reads'', JNull)])),
      rr_chain_info = \<lparr>chi_chain_id = ''SN_SEPOLIA'', chi_strk_fee_token = 9, chi_rest = ()\<rparr>\<rparr>
     \<lparr>exc_prefetch_state = True, exc_bouncer_config = (), exc_use_latest_versioned_constants = True\<rparr>"

lemma sample_simulate:
  "\<exists>m. simulate_and_get_initial_reads ref_exec_ext sample_executor b [(InvokeV3 (), 42)] = Inr m \<and>
       prefetch_agrees m sample_reader"
  by (simp add: simulate_and_get_initial_reads_def sample_executor_def rpc_executor_new_def ref_exec_ext_def
      deserialize_rpc_initial_reads_def state_maps_of_initial_reads_def empty_state_maps_def prefetch_agrees_def
      sample_reader_def)

lemma sample_execute_off:
  "\<exists>ed. execute ref_exec_ext (rpc_executor_of ref_exec_ext
      (sample_executor\<lparr>rx_config := (rx_config sample_executor)\<lparr>exc_prefetch_state := False\<rparr>\<rparr>)) b () [(InvokeV3 (), 42)] = Inr ed"
  by (simp add: execute_def rpc_executor_of_def sample_executor_def rpc_executor_new_def rpc_base_block_info_def
      base_block_info_new_def rpc_reader_for_def convert_invoke_txs_def Let_def) (simp add: ref_exec_ext_def)

theorem prefetch_transparent_witness:
  "\<exists>ed. execute ref_exec_ext (rpc_executor_of ref_exec_ext sample_executor) BlockLatest () [(InvokeV3 (), 42)] = Inr ed"
proof -
  obtain m where "simulate_and_get_initial_reads ref_exec_ext sample_executor BlockLatest [(InvokeV3 (), 42)] = Inr m"
    "prefetch_agrees m (rr_reader (rx_state_reader sample_executor))"
    using sample_simulate [of BlockLatest] by (auto simp: sample_executor_def rpc_executor_new_def)
  from prefetch_transparent [OF this, of "()"] sample_execute_off [of BlockLatest] show ?thesis by simp
qed

lemma ref_results_bounded: "results_bounded ref_exec_ext"
  by (simp add: results_bounded_def ref_exec_ext_def)

theorem rpc_execution_flags_witness:
  "\<exists>ed. execute ref_exec_ext (rpc_executor_of ref_exec_ext
      (sample_executor\<lparr>rx_config := (rx_config sample_executor)\<lparr>exc_prefetch_state := False\<rparr>\<rparr>)) BlockLatest () [(InvokeV3 (), 42)] = Inr ed \<and>
     bb_block_hash (ed_base_block_info ed) = 77"
proof -
  obtain ed where ed: "execute ref_exec_ext (rpc_executor_of ref_exec_ext
      (sample_executor\<lparr>rx_config := (rx_config sample_executor)\<lparr>exc_prefetch_state := False\<rparr>\<rparr>)) BlockLatest () [(InvokeV3 (), 42)] = Inr ed"
    using sample_execute_off [of BlockLatest] by blast
  from rpc_execution_flags [OF ref_results_bounded ed] have "bb_block_hash (ed_base_block_info ed) = 77"
    by (auto simp: sample_executor_def rpc_executor_new_def sample_header_def base_block_of_def Let_def)
  with ed show ?thesis by blast
qed

text \<open>A run that stops before its first transaction is a successful execution without outputs.\<close>

theorem short_run_accepted:
  "\<exists>ed. execute (ref_exec_ext\<lparr>p_execute_txs := \<lambda>rd mgr ctx txs.
        \<lparr>br_results = [], br_block_state = Some (), br_executed_class_hashes = Inr []\<rparr>\<rparr>)
      \<lparr>ex_base_block_info = \<lambda>b. Inr base, ex_state_reader = \<lambda>b txs. Inr sample_reader,
       ex_validate_txs_enabled = Inr True\<rparr> b () [(InvokeV3 (), 42)] = Inr ed \<and> ed_execution_outputs ed = []"
  by (simp add: execute_def convert_invoke_txs_def) (simp add: ref_exec_ext_def exec_ext.defs classes_ext.defs)

end
