(* ===== verification/Os_Runner.thy ===== *)
theory Os_Runner
  imports Block_Executor
begin

text \<open>
  The runner, \<open>starknet_transaction_prover/src/running/runner.rs\<close>: \<open>create_virtual_os_hints\<close> joins
  the classes and the storage proofs of an execution into the input of the Starknet OS,
  \<open>run_virtual_os\<close> hashes, executes, builds the hints and runs the OS, and the factory wires the
  RPC implementations. \<open>Runner\<close> is generic over the three provider traits: its client lemmas are
  proved once in the locale \<open>os_runner\<close>, which extends the three interfaces, and the locale is
  interpreted on the RPC providers. \<open>None\<close> stands for a panic.
\<close>

section \<open>The input of the OS\<close>

record ('f, 'o) os_chain_info =
  oci_chain_id :: string
  oci_strk_fee_token :: 'f

record ('f, 'o) virtual_os_block_input =
  vob_contract_state_commitment :: "'f commitment_info"
  vob_storage_commitments :: "('f \<times> 'f commitment_info) list"
  vob_contract_class_commitment :: "'f commitment_info"
  vob_chain_info :: "('f, 'o) os_chain_info"
  vob_transactions :: "('o api_invoke \<times> 'f) list"
  vob_tx_execution_infos :: "'o list"
  vob_block_info :: "'o block_info"
  vob_initial_reads :: "'f state_maps"
  vob_base_block_hash :: 'f
  vob_header_commitments :: "('f, 'o) header_commitments"
  vob_prev_block_hash :: 'f
  vob_compiled_classes :: "('f \<times> 'o casm_class) list"

record ('f, 'o) executable_invoke =
  ei_tx :: "'o api_invoke"
  ei_tx_hash :: 'f

record ('f, 'o) os_block_input =
  obi_block_hash_commitments :: "('f, 'o) header_commitments"
  obi_contract_state_commitment :: "'f commitment_info"
  obi_storage_commitments :: "('f \<times> 'f commitment_info) list"
  obi_contract_class_commitment :: "'f commitment_info"
  obi_transactions :: "('f, 'o) executable_invoke list"
  obi_tx_execution_infos :: "'o list"
  obi_prev_block_hash :: 'f
  obi_block_info :: "'o block_info"
  obi_initial_reads :: "'f state_maps"
  obi_declared_class_components :: "('f \<times> 'o) list"
  obi_new_block_hash :: 'f
  obi_old_block_number_and_hash :: "(u64 \<times> 'f) option"
  obi_class_hashes_to_migrate :: "('f \<times> 'f) list"

record ('f, 'o) os_hints =
  oh_block_inputs :: "('f, 'o) os_block_input list"
  oh_deprecated_compiled_classes :: "('f \<times> 'o) list"
  oh_compiled_classes :: "('f \<times> 'o casm_class) list"
  oh_debug_mode :: bool
  oh_full_output :: bool
  oh_use_kzg_da :: bool
  oh_chain_info :: "('f, 'o) os_chain_info"
  oh_public_keys :: "'f list option"
  oh_rng_seed_salt :: "'f option"

definition os_hints_of :: "('f, 'o) virtual_os_block_input \<Rightarrow> ('f, 'o) os_hints" where
  "os_hints_of v =
     \<lparr>oh_block_inputs =
        [\<lparr>obi_block_hash_commitments = vob_header_commitments v,
          obi_contract_state_commitment = vob_contract_state_commitment v,
          obi_storage_commitments = vob_storage_commitments v,
          obi_contract_class_commitment = vob_contract_class_commitment v,
          obi_transactions = map (\<lambda>(tx, h). \<lparr>ei_tx = tx, ei_tx_hash = h\<rparr>) (vob_transactions v),
          obi_tx_execution_infos = vob_tx_execution_infos v,
          obi_prev_block_hash = vob_prev_block_hash v, obi_block_info = vob_block_info v,
          obi_initial_reads = vob_initial_reads v, obi_declared_class_components = [],
          obi_new_block_hash = vob_base_block_hash v, obi_old_block_number_and_hash = None,
          obi_class_hashes_to_migrate = []\<rparr>],
      oh_deprecated_compiled_classes = [], oh_compiled_classes = vob_compiled_classes v,
      oh_debug_mode = False, oh_full_output = False, oh_use_kzg_da = False,
      oh_chain_info = vob_chain_info v, oh_public_keys = None, oh_rng_seed_salt = None\<rparr>"

section \<open>The runner\<close>

record 'o runner_config =
  rc_storage_proof_config :: storage_proof_config
  rc_executor_config :: "'o executor_config"

record 'o runner_output =
  ro_cairo_pie :: 'o
  ro_l2_to_l1_messages :: "'o list"

record ('f, 'o) runner_ext = "('f, 'o) exec_ext" +
  p_central_info :: "'o execution_output \<Rightarrow> 'o"
  p_tx_version :: "'o api_invoke \<Rightarrow> 'o"
  p_transaction_hash :: "'o api_invoke \<Rightarrow> string \<Rightarrow> 'o \<Rightarrow> string + 'f"
  p_run_virtual_os :: "('f, 'o) os_hints \<Rightarrow> string + 'o"
  p_cairo_pie :: "'o \<Rightarrow> 'o"
  p_rpc_state_reader :: "string \<Rightarrow> ('f, 'o) chain_info \<Rightarrow> 'f block_id \<Rightarrow> ('f, 'o) rpc_state_reader"
  p_class_manager :: "('f, 'o) rpc_state_reader \<Rightarrow> 'o \<Rightarrow> ('f, 'o) class_manager"
  p_proof_node :: "string \<Rightarrow> 'f proof_node"

text \<open>A runner's parts: the two providers, the executor and the block.\<close>

type_synonym ('f, 'o) classes_fn = "'f list \<Rightarrow> 'f classes_provider_error + ('f, 'o) classes_input"
type_synonym ('f, 'o) proofs_fn =
  "u64 \<Rightarrow> ('f, 'o) execution_data \<Rightarrow> storage_proof_config \<Rightarrow> 'f proof_trace
   \<Rightarrow> (proof_provider_error + 'f storage_proofs option) \<times> 'f proof_trace"
type_synonym ('f, 'o) exec_fn =
  "'f block_id \<Rightarrow> 'o \<Rightarrow> ('o api_invoke \<times> 'f) list \<Rightarrow> 'f virtual_block_executor_error + ('f, 'o) execution_data"

record ('f, 'o) snos_runner =
  rn_classes_provider :: "('f, 'o) classes_fn"
  rn_storage_proofs_provider :: "('f, 'o) proofs_fn"
  rn_virtual_block_executor :: "('f, 'o) exec_fn"
  rn_config :: "'o runner_config"
  rn_contract_class_manager :: 'o
  rn_block_id :: "'f block_id"
  rn_chain_id :: string

definition complete_reads :: "('f, 'o) classes_input \<Rightarrow> 'f state_maps \<Rightarrow> 'f state_maps" where
  "complete_reads classes reads =
     reads\<lparr>sm_compiled_class_hashes :=
             im_extend (sm_compiled_class_hashes reads) (class_hash_to_compiled_class_hash classes),
           sm_declared_contracts := []\<rparr>"

definition virtual_os_input ::
  "('f, 'o, 'x) runner_ext_scheme \<Rightarrow> ('f, 'o) execution_data \<Rightarrow> ('f, 'o) classes_input \<Rightarrow> 'f storage_proofs
   \<Rightarrow> ('o api_invoke \<times> 'f) list \<Rightarrow> ('f, 'o) virtual_os_block_input"
where
  "virtual_os_input P ed classes proofs txs =
     (let base = ed_base_block_info ed; ctx = bb_block_context base;
          chain = \<lparr>oci_chain_id = chi_chain_id (bc_chain_info ctx),
                   oci_strk_fee_token = chi_strk_fee_token (bc_chain_info ctx)\<rparr>
      in \<lparr>vob_contract_state_commitment = contracts_trie_info (commitment_infos proofs),
          vob_storage_commitments = storage_tries_infos (commitment_infos proofs),
          vob_contract_class_commitment = classes_trie_info (commitment_infos proofs),
          vob_chain_info = chain, vob_transactions = txs,
          vob_tx_execution_infos = map (p_central_info P) (ed_execution_outputs ed),
          vob_block_info = bc_block_info ctx,
          vob_initial_reads = complete_reads classes (extended_initial_reads proofs),
          vob_base_block_hash = bb_block_hash base, vob_header_commitments = bb_header_commitments base,
          vob_prev_block_hash = bb_prev_block_hash base, vob_compiled_classes = compiled_classes classes\<rparr>)"

definition create_virtual_os_hints ::
  "('f, 'o, 'x) runner_ext_scheme \<Rightarrow> ('f, 'o) execution_data \<Rightarrow> ('f, 'o) classes_fn \<Rightarrow> ('f, 'o) proofs_fn
   \<Rightarrow> storage_proof_config \<Rightarrow> ('o api_invoke \<times> 'f) list \<Rightarrow> 'f proof_trace
   \<Rightarrow> ('f runner_error + ('f, 'o) os_hints option) \<times> 'f proof_trace"
where
  "create_virtual_os_hints P ed classes_of get_proofs config txs w =
     (let block_number = bi_block_number (bc_block_info (bb_block_context (ed_base_block_info ed)));
          classes = classes_of (ed_executed_class_hashes ed);
          (proofs, w') = get_proofs block_number ed config w
      in if proofs = Inr None then (Inr None, w')
         else (bindR (map_err RunnerClassesProvider classes) (\<lambda>classes.
               bindR (map_err RunnerProofProvider proofs) (\<lambda>proofs.
               Inr (map_option (\<lambda>sp. os_hints_of (virtual_os_input P ed classes sp txs)) proofs))), w'))"

definition hash_txs ::
  "('f, 'o, 'x) runner_ext_scheme \<Rightarrow> string \<Rightarrow> 'o api_invoke list \<Rightarrow> 'f runner_error + ('o api_invoke \<times> 'f) list"
where
  "hash_txs P chain_id txs =
     collectR (map (\<lambda>tx. bindR (map_err TransactionHashError (p_transaction_hash P tx chain_id (p_tx_version P tx)))
                           (\<lambda>h. Inr (tx, h))) txs)"

definition run_virtual_os ::
  "('f, 'o, 'x) runner_ext_scheme \<Rightarrow> ('f, 'o) snos_runner \<Rightarrow> 'o api_invoke list \<Rightarrow> 'f proof_trace
   \<Rightarrow> ('f runner_error + 'o runner_output option) \<times> 'f proof_trace"
where
  "run_virtual_os P rn txs =
     bindW (liftW (hash_txs P (rn_chain_id rn) txs)) (\<lambda>txs_with_hashes.
     bindW (liftW (map_err RunnerVirtualBlockExecutor
              (rn_virtual_block_executor rn (rn_block_id rn) (rn_contract_class_manager rn) txs_with_hashes))) (\<lambda>ed.
     bindW (create_virtual_os_hints P ed (rn_classes_provider rn) (rn_storage_proofs_provider rn)
              (rc_storage_proof_config (rn_config rn)) txs_with_hashes) (\<lambda>hints.
     case hints of
       None \<Rightarrow> returnW None
     | Some os_hints \<Rightarrow>
         liftW (bindR (map_err OsExecution (p_run_virtual_os P os_hints)) (\<lambda>out.
           Inr (Some \<lparr>ro_cairo_pie = p_cairo_pie P out, ro_l2_to_l1_messages = ed_l2_to_l1_messages ed\<rparr>))))))"

section \<open>The factory\<close>

record ('f, 'o) rpc_runner_factory =
  rf_node_url :: string
  rf_chain_info :: "('f, 'o) chain_info"
  rf_contract_class_manager :: 'o
  rf_runner_config :: "'o runner_config"

definition create_runner ::
  "('f, 'o, 'x) runner_ext_scheme \<Rightarrow> ('f, 'o) rpc_runner_factory \<Rightarrow> 'f block_id \<Rightarrow> ('f, 'o) snos_runner"
where
  "create_runner P self block_id =
     (let executor = rpc_executor_new (p_rpc_state_reader P (rf_node_url self) (rf_chain_info self) block_id)
            (rc_executor_config (rf_runner_config self));
          node = p_proof_node P (rf_node_url self);
          rpc_state_reader = p_rpc_state_reader P (rf_node_url self) (rf_chain_info self) block_id;
          manager = p_class_manager P rpc_state_reader (rf_contract_class_manager self)
      in \<lparr>rn_classes_provider = get_classes P manager, rn_storage_proofs_provider = get_storage_proofs P node,
          rn_virtual_block_executor = execute P (rpc_executor_of P executor),
          rn_config = rf_runner_config self, rn_contract_class_manager = rf_contract_class_manager self,
          rn_block_id = block_id, rn_chain_id = chi_chain_id (rf_chain_info self)\<rparr>)"

definition factory_run_virtual_os ::
  "('f, 'o, 'x) runner_ext_scheme \<Rightarrow> ('f, 'o) rpc_runner_factory \<Rightarrow> 'f block_id \<Rightarrow> 'o api_invoke list \<Rightarrow> 'f proof_trace
   \<Rightarrow> ('f runner_error + 'o runner_output option) \<times> 'f proof_trace"
where
  "factory_run_virtual_os P self block_id txs = run_virtual_os P (create_runner P self block_id) txs"

section \<open>Client of the three interfaces\<close>

text \<open>A runner whose parts are the three providers.\<close>

definition uses_providers ::
  "('f, 'o) classes_fn \<Rightarrow> ('f, 'o) proofs_fn \<Rightarrow> ('f, 'o) exec_fn \<Rightarrow> ('f, 'o) snos_runner \<Rightarrow> bool"
where
  "uses_providers classes_of get_proofs exec rn \<longleftrightarrow>
     rn_classes_provider rn = classes_of \<and> rn_storage_proofs_provider rn = get_proofs \<and>
     rn_virtual_block_executor rn = exec"

locale os_runner = classes_provider classes_of + storage_proof_provider get_proofs accessed +
  virtual_block_executor exec messages_of
  for classes_of :: "('f, 'o) classes_fn" and get_proofs :: "('f, 'o) proofs_fn"
    and accessed :: "'f state_maps \<Rightarrow> 'f list" and exec :: "('f, 'o) exec_fn"
    and messages_of :: "'o execution_output \<Rightarrow> 'o list"
begin

lemma hints_no_panic: "fst (create_virtual_os_hints P ed classes_of get_proofs cfg txs w) \<noteq> Inr None"
  using no_panic
  by (auto simp: create_virtual_os_hints_def Let_def bindR_Inr_iff split: prod.splits) (metis fst_conv)

lemma hints_not_none: "create_virtual_os_hints P ed classes_of get_proofs cfg txs w \<noteq> (Inr None, w')"
  by (metis fst_conv hints_no_panic)

lemma hints_requests: "\<exists>reqs. snd (create_virtual_os_hints P ed classes_of get_proofs cfg txs w) = w @ reqs \<and>
    list_all (\<lambda>(b, c). count_total_keys c \<le> MAX_KEYS_PER_REQUEST) reqs"
proof -
  let ?bn = "bi_block_number (bc_block_info (bb_block_context (ed_base_block_info ed)))"
  have "snd (create_virtual_os_hints P ed classes_of get_proofs cfg txs w) = snd (get_proofs ?bn ed cfg w)"
    by (simp add: create_virtual_os_hints_def Let_def split: prod.split)
  with small_requests [of ?bn ed cfg w] show ?thesis by (auto simp: list_all_iff)
qed

lemma hints_parts:
  assumes "create_virtual_os_hints P ed classes_of get_proofs cfg txs w = (Inr (Some h), w')"
  shows "\<exists>ci sp. classes_of (ed_executed_class_hashes ed) = Inr ci \<and>
     get_proofs (bi_block_number (bc_block_info (bb_block_context (ed_base_block_info ed)))) ed cfg w = (Inr (Some sp), w') \<and>
     h = os_hints_of (virtual_os_input P ed ci sp txs)"
  using assms
  by (auto simp: create_virtual_os_hints_def Let_def bindR_Inr_iff split: prod.splits if_splits)

lemma hints_cover_execution:
  assumes "create_virtual_os_hints P ed classes_of get_proofs cfg txs w = (Inr (Some h), w')"
    and "distinct (ed_executed_class_hashes ed)"
  shows "\<exists>blk. oh_block_inputs h = [blk] \<and>
     map (\<lambda>t. (ei_tx t, ei_tx_hash t)) (obi_transactions blk) = txs \<and>
     obi_new_block_hash blk = bb_block_hash (ed_base_block_info ed) \<and>
     obi_prev_block_hash blk = bb_prev_block_hash (ed_base_block_info ed) \<and>
     length (obi_tx_execution_infos blk) = length (ed_execution_outputs ed) \<and>
     sm_declared_contracts (obi_initial_reads blk) = [] \<and>
     fst ` set (sm_nonces (obi_initial_reads blk)) = set (accessed (ed_initial_reads ed)) \<and>
     fst ` set (sm_class_hashes (obi_initial_reads blk)) = set (accessed (ed_initial_reads ed)) \<and>
     map_of (sm_storage (obi_initial_reads blk)) = map_of (rev (sm_storage (ed_initial_reads ed))) \<and>
     fst ` set (sm_compiled_class_hashes (obi_initial_reads blk)) = set (ed_executed_class_hashes ed) \<and>
     snd ` set (sm_compiled_class_hashes (obi_initial_reads blk)) \<subseteq> fst ` set (oh_compiled_classes h)"
proof -
  from hints_parts [OF assms(1)] obtain ci sp where ci: "classes_of (ed_executed_class_hashes ed) = Inr ci"
    and sp: "get_proofs (bi_block_number (bc_block_info (bb_block_context (ed_base_block_info ed)))) ed cfg w = (Inr (Some sp), w')"
    and h: "h = os_hints_of (virtual_os_input P ed ci sp txs)" by blast
  let ?m = "im_extend [] (class_hash_to_compiled_class_hash ci)"
  have keys: "fst ` set ?m = set (ed_executed_class_hashes ed)"
    by (simp add: dom_im_extend maps_executed [OF ci])
  have vals: "snd ` set ?m \<subseteq> fst ` set (compiled_classes ci)"
  proof
    fix c
    assume "c \<in> snd ` set ?m"
    then obtain k where k: "(k, c) \<in> set ?m" by auto
    then have m: "map_of ?m k = Some c" by (simp add: distinct_im_extend)
    then have "(k, c) \<in> set (class_hash_to_compiled_class_hash ci)"
      by (auto simp: map_of_im_extend dest: map_of_SomeD)
    then show "c \<in> fst ` set (compiled_classes ci)" by (rule values_have_class [OF ci])
  qed
  have blk: "oh_block_inputs h = [hd (oh_block_inputs h)]"
    "oh_compiled_classes h = compiled_classes ci"
    "obi_transactions (hd (oh_block_inputs h)) = map (\<lambda>(tx, h). \<lparr>ei_tx = tx, ei_tx_hash = h\<rparr>) txs"
    "obi_initial_reads (hd (oh_block_inputs h)) = complete_reads ci (extended_initial_reads sp)"
    "obi_new_block_hash (hd (oh_block_inputs h)) = bb_block_hash (ed_base_block_info ed)"
    "obi_prev_block_hash (hd (oh_block_inputs h)) = bb_prev_block_hash (ed_base_block_info ed)"
    "length (obi_tx_execution_infos (hd (oh_block_inputs h))) = length (ed_execution_outputs ed)"
    by (simp_all add: h os_hints_of_def virtual_os_input_def Let_def)
  have txs: "map (\<lambda>t. (ei_tx t, ei_tx_hash t)) (map (\<lambda>(tx, h). \<lparr>ei_tx = tx, ei_tx_hash = h\<rparr>) txs) = txs"
    by (simp add: comp_def case_prod_unfold)
  show ?thesis
    using blk covers [OF sp] keeps_storage [OF sp] no_classes [OF sp] keys vals txs
    by (intro exI [of _ "hd (oh_block_inputs h)"]) (simp add: complete_reads_def)
qed

lemma run_no_panic: "uses_providers classes_of get_proofs exec rn \<Longrightarrow> fst (run_virtual_os P rn txs w) \<noteq> Inr None"
  using hints_not_none [of P]
  by (auto simp: run_virtual_os_def uses_providers_def bindW_def liftW_def returnW_def bindR_Inr_iff
      split: sum.splits prod.splits option.splits)

lemma run_parts:
  assumes "uses_providers classes_of get_proofs exec rn" and "run_virtual_os P rn txs w = (Inr (Some out), w')"
  shows "\<exists>hs ed h o'. hash_txs P (rn_chain_id rn) txs = Inr hs \<and>
     exec (rn_block_id rn) (rn_contract_class_manager rn) hs = Inr ed \<and>
     create_virtual_os_hints P ed classes_of get_proofs (rc_storage_proof_config (rn_config rn)) hs w = (Inr (Some h), w') \<and>
     p_run_virtual_os P h = Inr o' \<and> ro_cairo_pie out = p_cairo_pie P o' \<and>
     ro_l2_to_l1_messages out = concat (map messages_of (ed_execution_outputs ed))"
proof -
  from assms obtain hs ed h o' where r: "hash_txs P (rn_chain_id rn) txs = Inr hs"
    "exec (rn_block_id rn) (rn_contract_class_manager rn) hs = Inr ed"
    "create_virtual_os_hints P ed classes_of get_proofs (rc_storage_proof_config (rn_config rn)) hs w = (Inr (Some h), w')"
    "p_run_virtual_os P h = Inr o'"
    "out = \<lparr>ro_cairo_pie = p_cairo_pie P o', ro_l2_to_l1_messages = ed_l2_to_l1_messages ed\<rparr>"
    by (auto simp: run_virtual_os_def uses_providers_def bindW_def liftW_def returnW_def bindR_Inr_iff
        split: sum.splits prod.splits option.splits)
  with all_messages [OF r(2)] show ?thesis by auto
qed

end

interpretation rpc_runner: os_runner "get_classes P mgr" "get_storage_proofs P N" "p_contract_addresses P"
    "execute P ex" "output_messages P" for P mgr N ex
  by unfold_locales

section \<open>The RPC runner\<close>

text \<open>The executor and the class manager that the factory gives to the runner of a block.\<close>

definition factory_executor ::
  "('f, 'o, 'x) runner_ext_scheme \<Rightarrow> ('f, 'o) rpc_runner_factory \<Rightarrow> 'f block_id \<Rightarrow> ('f, 'o) rpc_executor"
where
  "factory_executor P f b =
     rpc_executor_new (p_rpc_state_reader P (rf_node_url f) (rf_chain_info f) b)
       (rc_executor_config (rf_runner_config f))"

definition factory_classes ::
  "('f, 'o, 'x) runner_ext_scheme \<Rightarrow> ('f, 'o) rpc_runner_factory \<Rightarrow> 'f block_id \<Rightarrow> ('f, 'o) class_manager"
where
  "factory_classes P f b =
     p_class_manager P (p_rpc_state_reader P (rf_node_url f) (rf_chain_info f) b) (rf_contract_class_manager f)"

lemma create_runner_parts:
  "rn_classes_provider (create_runner P f b) = get_classes P (factory_classes P f b)"
  "rn_storage_proofs_provider (create_runner P f b) = get_storage_proofs P (p_proof_node P (rf_node_url f))"
  "rn_virtual_block_executor (create_runner P f b) = execute P (rpc_executor_of P (factory_executor P f b))"
  "rn_config (create_runner P f b) = rf_runner_config f"
  "rn_contract_class_manager (create_runner P f b) = rf_contract_class_manager f"
  "rn_block_id (create_runner P f b) = b"
  "rn_chain_id (create_runner P f b) = chi_chain_id (rf_chain_info f)"
  by (simp_all add: create_runner_def factory_executor_def factory_classes_def Let_def)

lemma create_runner_uses:
  "uses_providers (get_classes P (factory_classes P f b)) (get_storage_proofs P (p_proof_node P (rf_node_url f)))
     (execute P (rpc_executor_of P (factory_executor P f b))) (create_runner P f b)"
  by (simp add: uses_providers_def create_runner_parts)

lemma factory_run_returns: "fst (factory_run_virtual_os P self b txs w) \<noteq> Inr None"
  unfolding factory_run_virtual_os_def by (rule rpc_runner.run_no_panic [OF create_runner_uses])

text \<open>
  What is assumed of the blockifier: the executed class hashes come from a set, so the list of
  them has no repetition.
\<close>

definition executed_classes_distinct :: "('f, 'o, 'x) runner_ext_scheme \<Rightarrow> bool" where
  "executed_classes_distinct P \<longleftrightarrow>
     (\<forall>rd mgr ctx txs hs. br_executed_class_hashes (p_execute_txs P rd mgr ctx txs) = Inr hs \<longrightarrow> distinct hs)"

text \<open>
  The run of a factory on a block: the hashed transactions \<open>hs\<close>, their execution \<open>ed\<close> on that block
  of the node, and the input \<open>h\<close> of the OS, built from the classes of that execution and from its
  storage proofs, whose requests extend the trace \<open>w\<close> to \<open>w'\<close>.
\<close>

definition os_input_built ::
  "('f, 'o, 'x) runner_ext_scheme \<Rightarrow> ('f, 'o) rpc_runner_factory \<Rightarrow> 'f block_id \<Rightarrow> ('o api_invoke \<times> 'f) list
   \<Rightarrow> ('f, 'o) execution_data \<Rightarrow> ('f, 'o) os_hints \<Rightarrow> 'f proof_trace \<Rightarrow> 'f proof_trace \<Rightarrow> bool"
where
  "os_input_built P f b hs ed h w w' \<longleftrightarrow>
     execute P (rpc_executor_of P (factory_executor P f b)) b (rf_contract_class_manager f) hs = Inr ed \<and>
     (\<exists>ci sp. get_classes P (factory_classes P f b) (ed_executed_class_hashes ed) = Inr ci \<and>
        get_storage_proofs P (p_proof_node P (rf_node_url f))
          (bi_block_number (bc_block_info (bb_block_context (ed_base_block_info ed)))) ed
          (rc_storage_proof_config (rf_runner_config f)) w = (Inr (Some sp), w') \<and>
        h = os_hints_of (virtual_os_input P ed ci sp hs))"

text \<open>The single block of such an input covers what the execution touched.\<close>

definition covers_execution ::
  "('f, 'o, 'x) runner_ext_scheme \<Rightarrow> ('o api_invoke \<times> 'f) list \<Rightarrow> ('f, 'o) execution_data \<Rightarrow> ('f, 'o) os_hints \<Rightarrow> bool"
where
  "covers_execution P hs ed h \<longleftrightarrow> (\<exists>blk. oh_block_inputs h = [blk] \<and>
     map (\<lambda>t. (ei_tx t, ei_tx_hash t)) (obi_transactions blk) = hs \<and>
     fst ` set (sm_nonces (obi_initial_reads blk)) = set (p_contract_addresses P (ed_initial_reads ed)) \<and>
     fst ` set (sm_class_hashes (obi_initial_reads blk)) = set (p_contract_addresses P (ed_initial_reads ed)) \<and>
     map_of (sm_storage (obi_initial_reads blk)) = map_of (rev (sm_storage (ed_initial_reads ed))) \<and>
     fst ` set (sm_compiled_class_hashes (obi_initial_reads blk)) = set (ed_executed_class_hashes ed) \<and>
     snd ` set (sm_compiled_class_hashes (obi_initial_reads blk)) \<subseteq> fst ` set (oh_compiled_classes h) \<and>
     sm_declared_contracts (obi_initial_reads blk) = [])"

lemma factory_run_sound:
  assumes "factory_run_virtual_os P f b txs w = (Inr (Some out), w')"
    and "executed_classes_distinct P" and "results_bounded P"
  shows "\<exists>hs (ed :: (_, _) execution_data) h o'.
     hash_txs P (chi_chain_id (rf_chain_info f)) txs = Inr hs \<and>
     os_input_built P f b hs ed h w w' \<and> covers_execution P hs ed h \<and>
     length (ed_execution_outputs ed) \<le> length hs \<and>
     list_all (\<lambda>output. eo_revert_error output = None) (ed_execution_outputs ed) \<and>
     p_run_virtual_os P h = Inr o' \<and> ro_cairo_pie out = p_cairo_pie P o' \<and>
     ro_l2_to_l1_messages out = concat (map (output_messages P) (ed_execution_outputs ed))"
proof -
  from rpc_runner.run_parts [OF create_runner_uses assms(1) [unfolded factory_run_virtual_os_def]]
  obtain hs ed h o' where hs: "hash_txs P (chi_chain_id (rf_chain_info f)) txs = Inr hs"
    and ex: "execute P (rpc_executor_of P (factory_executor P f b)) b (rf_contract_class_manager f) hs = Inr ed"
    and hints: "create_virtual_os_hints P ed (get_classes P (factory_classes P f b))
      (get_storage_proofs P (p_proof_node P (rf_node_url f))) (rc_storage_proof_config (rf_runner_config f)) hs w
         = (Inr (Some h), w')"
    and os: "p_run_virtual_os P h = Inr o'" "ro_cairo_pie out = p_cairo_pie P o'"
      "ro_l2_to_l1_messages out = concat (map (output_messages P) (ed_execution_outputs ed))"
    unfolding create_runner_parts by (elim exE conjE) (rule that)
  from execute_steps [OF ex] assms(2) have d: "distinct (ed_executed_class_hashes ed)"
    by (auto simp: executed_classes_distinct_def)
  have built: "os_input_built P f b hs ed h w w'"
    unfolding os_input_built_def using ex rpc_runner.hints_parts [OF hints] by blast
  have covers: "covers_execution P hs ed h"
    using rpc_runner.hints_cover_execution [OF hints d] unfolding covers_execution_def
    by (elim exE conjE) (intro exI conjI, assumption+)
  show ?thesis
    by (rule exI [of _ hs], rule exI [of _ ed], rule exI [of _ h], rule exI [of _ o'])
      (intro conjI hs built covers no_output_reverted [OF assms(3) ex] os)
qed

section \<open>Instance\<close>

definition ref_runner_ext :: "(nat, unit) runner_ext" where
  "ref_runner_ext = exec_ext.extend ref_exec_ext
     (runner_ext.fields (\<lambda>out. ()) (\<lambda>tx. ()) (\<lambda>tx chain v. Inr 42) (\<lambda>h. Inr ()) (\<lambda>out. ())
        (\<lambda>url chain b. rx_state_reader sample_executor) (\<lambda>rd mgr. sample_manager) (\<lambda>url. sample_node))"

lemma runner_fields_sel [simp]:
  "p_transaction_hash (exec_ext.extend r (runner_ext.fields a b c d e f g h)) = c"
  "p_run_virtual_os (exec_ext.extend r (runner_ext.fields a b c d e f g h)) = d"
  "p_rpc_state_reader (exec_ext.extend r (runner_ext.fields a b c d e f g h)) = f"
  "p_class_manager (exec_ext.extend r (runner_ext.fields a b c d e f g h)) = g"
  "p_proof_node (exec_ext.extend r (runner_ext.fields a b c d e f g h)) = h"
  by (simp_all add: exec_ext.defs runner_ext.defs)

definition sample_factory :: "(nat, unit) rpc_runner_factory" where
  "sample_factory =
     \<lparr>rf_node_url = ''http://node'', rf_chain_info = \<lparr>chi_chain_id = ''SN_SEPOLIA'', chi_strk_fee_token = 9, chi_rest = ()\<rparr>,
      rf_contract_class_manager = (),
      rf_runner_config = \<lparr>rc_storage_proof_config = \<lparr>include_state_changes = False\<rparr>,
        rc_executor_config = \<lparr>exc_prefetch_state = False, exc_bouncer_config = (), exc_use_latest_versioned_constants = True\<rparr>\<rparr>\<rparr>"

end
