(* ===== verification/Snos_Prover.thy ===== *)
theory Snos_Prover
  imports Os_Runner
begin

text \<open>
  The prover, \<open>starknet_transaction_prover/src/proving\<close> (\<open>virtual_snos_prover.rs\<close>, \<open>prover.rs\<close>),
  its configuration (\<open>config.rs\<close>) and the JSON entry point of \<open>lib.rs\<close>. \<open>prove_transaction\<close> is
  generic over the trait \<open>VirtualSnosRunner\<close>: its client lemmas are in the locale
  \<open>virtual_snos_runner\<close>, interpreted on the RPC factory. \<open>None\<close> is a panic (an \<open>unimplemented!\<close>
  build without the proving feature).
\<close>

record ('f, 'o) rpc_invoke_v3 =
  riv_proof :: string
  riv_proof_facts :: "'f list"
  riv_resource_bounds :: 'o
  riv_tip :: u64
  riv_body :: 'o

datatype ('f, 'o) rpc_transaction =
    RpcInvokeTx "('f, 'o) rpc_invoke_v3"
  | RpcDeclareTx 'o
  | RpcDeployAccountTx 'o

record ('f, 'o) prove_transaction_result =
  ptr_proof :: 'o
  ptr_proof_facts :: "'f list"
  ptr_l2_to_l1_messages :: "'o list"

record 'o prover_output =
  pout_proof :: 'o
  pout_program_output :: 'o

record ('f, 'o) prover_ext = "('f, 'o) runner_ext" +
  p_all_resources :: "'o \<Rightarrow> 'o"
  p_invoke_into :: "('f, 'o) rpc_invoke_v3 \<Rightarrow> 'o"
  p_fee_text :: "u128 \<Rightarrow> string"
  p_stwo_proving :: bool
  p_recursive_prove :: "'o \<Rightarrow> 'o \<Rightarrow> (string + 'o \<times> 'o) option"
  p_proof_from :: "'o \<Rightarrow> 'o"
  p_program_output_from :: "'o \<Rightarrow> 'o"
  p_try_into_proof_facts :: "'o \<Rightarrow> string + 'f list"
  p_url_parse :: "string \<Rightarrow> string + string"
  p_get_chain_info :: "string \<Rightarrow> 'f option \<Rightarrow> ('f, 'o) chain_info"
  p_class_manager_start :: "'o \<Rightarrow> 'o"
  p_precomputes :: "string + 'o"
  p_rpc_transaction_parse :: "json \<Rightarrow> string + ('f, 'o) rpc_transaction"
  p_proof_json :: "'o \<Rightarrow> string + json"
  p_proof_facts_json :: "'f list \<Rightarrow> string + json"
  p_message_json :: "'o \<Rightarrow> string + json"
  p_debug_hash :: "'f \<Rightarrow> string"
  p_display_class :: "'f \<Rightarrow> string"
  p_default_class_manager_config :: 'o

section \<open>Configuration\<close>

record ('f, 'o) prover_config =
  pc_contract_class_manager_config :: 'o
  pc_chain_id :: string
  pc_rpc_node_url :: string
  pc_runner_config :: "'o runner_config"
  pc_strk_fee_token_address :: "'f option"
  pc_validate_zero_fee_fields :: bool

definition default_runner_config :: "('f, 'o, 'x) exec_ext_scheme \<Rightarrow> 'o runner_config" where
  "default_runner_config P =
     \<lparr>rc_storage_proof_config = default_storage_proof_config, rc_executor_config = default_executor_config P\<rparr>"

definition default_prover_config :: "('f, 'o, 'x) prover_ext_scheme \<Rightarrow> ('f, 'o) prover_config" where
  "default_prover_config P =
     \<lparr>pc_contract_class_manager_config = p_default_class_manager_config P, pc_chain_id = ''SN_MAIN'',
      pc_rpc_node_url = [], pc_runner_config = default_runner_config P, pc_strk_fee_token_address = None,
      pc_validate_zero_fee_fields = True\<rparr>"

section \<open>Validation\<close>

fun extract_rpc_invoke_tx :: "('f, 'o) rpc_transaction \<Rightarrow> 'f virtual_snos_prover_error + ('f, 'o) rpc_invoke_v3" where
  "extract_rpc_invoke_tx (RpcInvokeTx tx) = Inr tx"
| "extract_rpc_invoke_tx (RpcDeclareTx tx) = Inl (InvalidTransactionType
     ''Declare transactions are not supported; only Invoke transactions are allowed'')"
| "extract_rpc_invoke_tx (RpcDeployAccountTx tx) = Inl (InvalidTransactionType
     ''DeployAccount transactions are not supported; only Invoke transactions are allowed'')"

definition validate_transaction_input ::
  "('f, 'o, 'x) prover_ext_scheme \<Rightarrow> ('f, 'o) rpc_invoke_v3 \<Rightarrow> bool \<Rightarrow> 'f virtual_snos_prover_error + unit"
where
  "validate_transaction_input P tx validate_zero_fee_fields =
     (if riv_proof tx \<noteq> [] then Inl (InvalidTransactionInput ''The proof field must be empty on input.'')
      else if riv_proof_facts tx \<noteq> [] then Inl (InvalidTransactionInput ''The proof_facts field must be empty on input.'')
      else if validate_zero_fee_fields
      then let max_fee = p_max_possible_fee P (p_all_resources P (riv_resource_bounds tx)) (riv_tip tx)
           in if max_fee \<noteq> 0
              then Inl (InvalidTransactionInput (''Max possible fee must be zero, got: '' @ p_fee_text P max_fee @ ''.''))
              else Inr ()
      else Inr ())"

section \<open>Proving\<close>

definition prove ::
  "('f, 'o, 'x) prover_ext_scheme \<Rightarrow> 'o \<Rightarrow> 'o \<Rightarrow> proving_error + 'o prover_output"
where
  "prove P cairo_pie precomputes =
     bindR (ok_or (ProvingTaskJoin (p_join_error P)) (p_recursive_prove P cairo_pie precomputes)) (\<lambda>r.
     bindR (map_err ProverExecution r) (\<lambda>(pr, output_preimage).
     Inr \<lparr>pout_proof = p_proof_from P pr, pout_program_output = p_program_output_from P output_preimage\<rparr>))"

definition prove_virtual_snos_run ::
  "('f, 'o, 'x) prover_ext_scheme \<Rightarrow> 'o \<Rightarrow> 'o runner_output
   \<Rightarrow> 'f virtual_snos_prover_error + ('f, 'o) prove_transaction_result option"
where
  "prove_virtual_snos_run P precomputes out =
     (if \<not> p_stwo_proving P then Inr None
      else bindR (map_err ProverProvingError (prove P (ro_cairo_pie out) precomputes)) (\<lambda>po.
           bindR (map_err ProgramOutputError (p_try_into_proof_facts P (pout_program_output po))) (\<lambda>facts.
           Inr (Some \<lparr>ptr_proof = pout_proof po, ptr_proof_facts = facts,
                      ptr_l2_to_l1_messages = ro_l2_to_l1_messages out\<rparr>))))"

type_synonym ('f, 'o) run_fn =
  "'f block_id \<Rightarrow> 'o api_invoke list \<Rightarrow> 'f proof_trace \<Rightarrow> ('f runner_error + 'o runner_output option) \<times> 'f proof_trace"

record ('f, 'o) snos_prover =
  vsp_runner :: "('f, 'o) run_fn"
  vsp_validate_zero_fee_fields :: bool
  vsp_precomputes :: 'o

definition pending_error :: string where
  "pending_error = ''Pending blocks are not supported; only finalized blocks can be proven.''"

definition prove_transaction ::
  "('f, 'o, 'x) prover_ext_scheme \<Rightarrow> ('f, 'o) snos_prover \<Rightarrow> 'f block_id \<Rightarrow> ('f, 'o) rpc_transaction \<Rightarrow> 'f proof_trace
   \<Rightarrow> ('f virtual_snos_prover_error + ('f, 'o) prove_transaction_result option) \<times> 'f proof_trace"
where
  "prove_transaction P self block_id transaction =
     (if block_id = BlockPending then throwW (ValidationError pending_error)
      else bindW (liftW (extract_rpc_invoke_tx transaction)) (\<lambda>invoke_v3.
           bindW (liftW (validate_transaction_input P invoke_v3 (vsp_validate_zero_fee_fields self))) (\<lambda>_.
           bindW (map_errW ProverRunnerError (vsp_runner self block_id [InvokeV3 (p_invoke_into P invoke_v3)])) (\<lambda>out.
           case out of
             None \<Rightarrow> returnW None
           | Some runner_output \<Rightarrow> liftW (prove_virtual_snos_run P (vsp_precomputes self) runner_output)))))"

text \<open>The constructors; \<open>None\<close> is a panic of an \<open>expect\<close>.\<close>

definition from_runner :: "('f, 'o, 'x) prover_ext_scheme \<Rightarrow> ('f, 'o) run_fn \<Rightarrow> ('f, 'o) snos_prover option" where
  "from_runner P run =
     map_option (\<lambda>pre. \<lparr>vsp_runner = run, vsp_validate_zero_fee_fields = True, vsp_precomputes = pre\<rparr>)
       (ok_opt (p_precomputes P))"

definition disable_fee_validation :: "('f, 'o) snos_prover \<Rightarrow> ('f, 'o) snos_prover" where
  "disable_fee_validation self = self\<lparr>vsp_validate_zero_fee_fields := False\<rparr>"

definition snos_prover_new ::
  "('f, 'o, 'x) prover_ext_scheme \<Rightarrow> ('f, 'o) prover_config \<Rightarrow> ('f, 'o) snos_prover option"
where
  "snos_prover_new P config =
     (let manager = p_class_manager_start P (pc_contract_class_manager_config config)
      in Option.bind (ok_opt (p_url_parse P (pc_rpc_node_url config))) (\<lambda>node_url.
         let chain_info = p_get_chain_info P (pc_chain_id config) (pc_strk_fee_token_address config);
             runner = \<lparr>rf_node_url = node_url, rf_chain_info = chain_info, rf_contract_class_manager = manager,
                       rf_runner_config = pc_runner_config config\<rparr>
         in map_option (\<lambda>pre. \<lparr>vsp_runner = factory_run_virtual_os P runner,
                               vsp_validate_zero_fee_fields = pc_validate_zero_fee_fields config,
                               vsp_precomputes = pre\<rparr>)
              (ok_opt (p_precomputes P))))"

text \<open>The derived serialisation of a result, field by field; the fields are types of other crates.\<close>

definition prove_transaction_result_json ::
  "('f, 'o, 'x) prover_ext_scheme \<Rightarrow> ('f, 'o) prove_transaction_result \<Rightarrow> string + json"
where
  "prove_transaction_result_json P result =
     bindR (p_proof_json P (ptr_proof result)) (\<lambda>proof_json.
     bindR (p_proof_facts_json P (ptr_proof_facts result)) (\<lambda>facts_json.
     bindR (collectR (map (p_message_json P) (ptr_l2_to_l1_messages result))) (\<lambda>messages.
     Inr (JObj [(''proof'', proof_json), (''proof_facts'', facts_json), (''l2_to_l1_messages'', JArr messages)]))))"

definition prove_transaction_json ::
  "('f, 'o, 'x) prover_ext_scheme \<Rightarrow> ('f, 'o) prover_config \<Rightarrow> u64 \<Rightarrow> json \<Rightarrow> 'f proof_trace
   \<Rightarrow> (string + json option) \<times> 'f proof_trace"
where
  "prove_transaction_json P config block_number transaction =
     bindW (liftW (p_rpc_transaction_parse P transaction)) (\<lambda>tx.
     case snos_prover_new P config of
       None \<Rightarrow> returnW None
     | Some prover \<Rightarrow>
         bindW (map_errW (snos_prover_error_display (p_debug_hash P) (p_display_class P))
                  (prove_transaction P prover (BlockNumberId block_number) tx)) (\<lambda>r.
         case r of
           None \<Rightarrow> returnW None
         | Some result \<Rightarrow> liftW (map_ok Some (prove_transaction_result_json P result))))"

section \<open>What is accepted\<close>

definition acceptable_input :: "('f, 'o, 'x) prover_ext_scheme \<Rightarrow> bool \<Rightarrow> ('f, 'o) rpc_invoke_v3 \<Rightarrow> bool" where
  "acceptable_input P check_fee tx \<longleftrightarrow>
     riv_proof tx = [] \<and> riv_proof_facts tx = [] \<and>
     (if check_fee then p_max_possible_fee P (p_all_resources P (riv_resource_bounds tx)) (riv_tip tx) = 0 else True)"

lemma validate_input_iff: "validate_transaction_input P tx v = Inr () \<longleftrightarrow> acceptable_input P v tx"
  by (auto simp: validate_transaction_input_def acceptable_input_def Let_def)

lemma validate_input_error: "validate_transaction_input P tx v = Inl e \<Longrightarrow> \<exists>m. e = InvalidTransactionInput m"
  by (auto simp: validate_transaction_input_def Let_def split: if_splits)

lemma extract_iff: "extract_rpc_invoke_tx t = Inr tx \<longleftrightarrow> t = RpcInvokeTx tx"
  by (cases t) auto

theorem validate_transaction_input_iff:
  "case validate_transaction_input P tx v of
     Inr u \<Rightarrow> acceptable_input P v tx
   | Inl e \<Rightarrow> \<not> acceptable_input P v tx \<and> (\<exists>m. e = InvalidTransactionInput m)"
  using validate_input_iff [of P tx v] validate_input_error [of P tx v]
  by (cases "validate_transaction_input P tx v") auto

section \<open>Client of the runner\<close>

text \<open>The interface \<open>VirtualSnosRunner\<close>: a run returns, with an output or an error.\<close>

locale virtual_snos_runner =
  fixes run :: "('f, 'o) run_fn"
  assumes run_returns: "fst (run b txs w) \<noteq> Inr None"
begin

lemma prove_returns:
  assumes "vsp_runner self = run" and "p_stwo_proving P"
  shows "fst (prove_transaction P self b t w) \<noteq> Inr None"
proof -
  have "run b txs w \<noteq> (Inr None, w')" for b txs w w' by (metis fst_conv run_returns)
  with assms show ?thesis
    by (auto simp: prove_transaction_def throwW_def bindW_def liftW_def returnW_def map_errW_def map_err_Inl_iff
        prove_virtual_snos_run_def bindR_Inr_iff split: sum.splits prod.splits option.splits)
qed

lemma prove_parts:
  assumes "vsp_runner self = run" and "prove_transaction P self b t w = (Inr (Some res), w')"
  shows "\<exists>tx out. t = RpcInvokeTx tx \<and> b \<noteq> BlockPending \<and> acceptable_input P (vsp_validate_zero_fee_fields self) tx \<and>
     run b [InvokeV3 (p_invoke_into P tx)] w = (Inr (Some out), w') \<and>
     prove_virtual_snos_run P (vsp_precomputes self) out = Inr (Some res)"
  using assms
  by (auto simp: prove_transaction_def bindW_Inr_iff liftW_eq returnW_eq map_errW_Inr_iff extract_iff
      validate_input_iff split: if_splits option.splits)

end

interpretation rpc_factory: virtual_snos_runner "factory_run_virtual_os P f" for P f
  by unfold_locales (rule factory_run_returns)

section \<open>End to end\<close>

definition admissible ::
  "('f, 'o, 'x) prover_ext_scheme \<Rightarrow> ('f, 'o) snos_prover \<Rightarrow> 'f block_id \<Rightarrow> ('f, 'o) rpc_transaction \<Rightarrow> bool"
where
  "admissible P self b t \<longleftrightarrow>
     b \<noteq> BlockPending \<and> (\<exists>tx. t = RpcInvokeTx tx \<and> acceptable_input P (vsp_validate_zero_fee_fields self) tx)"

text \<open>The error of a request that is refused: which check fails first says which.\<close>

definition refusal :: "'f block_id \<Rightarrow> ('f, 'o) rpc_transaction \<Rightarrow> 'f virtual_snos_prover_error \<Rightarrow> bool" where
  "refusal b t e \<longleftrightarrow>
     (if b = BlockPending then e = ValidationError pending_error
      else case t of RpcInvokeTx tx \<Rightarrow> \<exists>m. e = InvalidTransactionInput m | _ \<Rightarrow> \<exists>m. e = InvalidTransactionType m)"

text \<open>C7. A request is refused before anything is fetched, executed or proved exactly as follows: a pending block with the validation error for pending blocks, else a transaction that is not an invoke with an invalid-type error, else a proof, proof facts or, only while the prover checks fee fields, a maximal fee that is not zero, with an invalid-input error. A request that passes these checks never gets one of the three errors.\<close>
theorem prove_rejects_before_running:
  "if admissible P self b t
   then (\<nexists>m. fst (prove_transaction P self b t w) \<in>
          {Inl (ValidationError m), Inl (InvalidTransactionType m), Inl (InvalidTransactionInput m)})
   else \<exists>e. prove_transaction P self b t w = (Inl e, w) \<and> refusal b t e"
proof (cases "b = BlockPending")
  case True
  then show ?thesis by (simp add: admissible_def prove_transaction_def throwW_def refusal_def)
next
  case False
  show ?thesis
  proof (cases t)
    case (RpcInvokeTx tx)
    show ?thesis
    proof (cases "acceptable_input P (vsp_validate_zero_fee_fields self) tx")
      case True
      then have "validate_transaction_input P tx (vsp_validate_zero_fee_fields self) = Inr ()" by (simp add: validate_input_iff)
      moreover have "prove_virtual_snos_run P pre out \<noteq> Inl (ValidationError m)"
        "prove_virtual_snos_run P pre out \<noteq> Inl (InvalidTransactionType m)"
        "prove_virtual_snos_run P pre out \<noteq> Inl (InvalidTransactionInput m)" for pre out m
        by (auto simp: prove_virtual_snos_run_def bindR_Inl_iff map_err_Inl_iff)
      ultimately show ?thesis using False True
        by (auto simp: admissible_def RpcInvokeTx prove_transaction_def bindW_def liftW_def returnW_def map_errW_def map_err_Inl_iff
            split: sum.splits prod.splits option.splits)
    next
      case bad: False
      then obtain m where "validate_transaction_input P tx (vsp_validate_zero_fee_fields self) = Inl (InvalidTransactionInput m)"
        using validate_input_iff [of P tx "vsp_validate_zero_fee_fields self"] validate_input_error
        by (cases "validate_transaction_input P tx (vsp_validate_zero_fee_fields self)") fastforce+
      with False bad show ?thesis
        by (simp add: admissible_def RpcInvokeTx prove_transaction_def bindW_def liftW_def refusal_def)
    qed
  qed (use False in \<open>auto simp: admissible_def prove_transaction_def bindW_def liftW_def refusal_def\<close>)
qed

text \<open>
  The run of the OS that a result of a prover over the factory \<open>f\<close> comes from. The transaction is
  hashed for the chain of the factory, executed on the block \<open>b\<close> read from its node, and the OS runs
  on the input built from that execution.
\<close>

definition run_behind ::
  "('f, 'o, 'x) prover_ext_scheme \<Rightarrow> ('f, 'o) snos_prover \<Rightarrow> ('f, 'o) rpc_runner_factory \<Rightarrow> 'f block_id
   \<Rightarrow> ('f, 'o) rpc_transaction \<Rightarrow> 'f proof_trace \<Rightarrow> ('f, 'o) prove_transaction_result \<Rightarrow> 'f proof_trace \<Rightarrow> bool"
where
  "run_behind P self f b t w res w' \<longleftrightarrow>
     (\<exists>tx hash (ed :: ('f, 'o) execution_data) h out pr preimage.
     t = RpcInvokeTx tx \<and> b \<noteq> BlockPending \<and> acceptable_input P (vsp_validate_zero_fee_fields self) tx \<and>
     p_transaction_hash P (InvokeV3 (p_invoke_into P tx)) (chi_chain_id (rf_chain_info f))
       (p_tx_version P (InvokeV3 (p_invoke_into P tx))) = Inr hash \<and>
     os_input_built P f b [(InvokeV3 (p_invoke_into P tx), hash)] ed h w w' \<and>
     covers_execution P [(InvokeV3 (p_invoke_into P tx), hash)] ed h \<and>
     length (ed_execution_outputs ed) \<le> 1 \<and>
     list_all (\<lambda>output. eo_revert_error output = None) (ed_execution_outputs ed) \<and>
     p_run_virtual_os P h = Inr out \<and>
     p_recursive_prove P (p_cairo_pie P out) (vsp_precomputes self) = Some (Inr (pr, preimage)) \<and>
     ptr_proof res = p_proof_from P pr \<and>
     p_try_into_proof_facts P (p_program_output_from P preimage) = Inr (ptr_proof_facts res) \<and>
     ptr_l2_to_l1_messages res = concat (map (output_messages P) (ed_execution_outputs ed)))"

lemma result_has_run:
  assumes "vsp_runner self = factory_run_virtual_os P f" and "executed_classes_distinct P" and "results_bounded P"
    and "prove_transaction P self b t w = (Inr (Some res), w')"
  shows "run_behind P self f b t w res w'"
proof -
  from rpc_factory.prove_parts [OF assms(1,4)] obtain tx out where
    tx: "t = RpcInvokeTx tx" "b \<noteq> BlockPending" "acceptable_input P (vsp_validate_zero_fee_fields self) tx"
    and run: "factory_run_virtual_os P f b [InvokeV3 (p_invoke_into P tx)] w = (Inr (Some out), w')"
    and proved: "prove_virtual_snos_run P (vsp_precomputes self) out = Inr (Some res)"
    by (elim exE conjE) (rule that)
  obtain hs and ed :: "('a, 'b) execution_data" and h o' where
    hs: "hash_txs P (chi_chain_id (rf_chain_info f)) [InvokeV3 (p_invoke_into P tx)] = Inr hs"
    and built: "os_input_built P f b hs ed h w w'" "covers_execution P hs ed h"
    and len: "length (ed_execution_outputs ed) \<le> length hs"
    and rev: "list_all (\<lambda>output. eo_revert_error output = None) (ed_execution_outputs ed)"
    and os: "p_run_virtual_os P h = Inr o'" "ro_cairo_pie out = p_cairo_pie P o'"
      "ro_l2_to_l1_messages out = concat (map (output_messages P) (ed_execution_outputs ed))"
    using factory_run_sound [OF run assms(2,3)] by (elim exE conjE) (rule that)
  from hs obtain hash where hash: "p_transaction_hash P (InvokeV3 (p_invoke_into P tx)) (chi_chain_id (rf_chain_info f))
       (p_tx_version P (InvokeV3 (p_invoke_into P tx))) = Inr hash"
    and hs': "hs = [(InvokeV3 (p_invoke_into P tx), hash)]"
    by (auto simp: hash_txs_def bindR_Inr_iff)
  from len have len': "length (ed_execution_outputs ed) \<le> 1" by (simp add: hs')
  from proved obtain pr preimage where
    pr: "p_recursive_prove P (p_cairo_pie P o') (vsp_precomputes self) = Some (Inr (pr, preimage))"
    "ptr_proof res = p_proof_from P pr" "p_try_into_proof_facts P (p_program_output_from P preimage) = Inr (ptr_proof_facts res)"
    "ptr_l2_to_l1_messages res = ro_l2_to_l1_messages out"
    by (auto simp: prove_virtual_snos_run_def prove_def bindR_Inr_iff os(2) split: if_splits)
  show ?thesis unfolding run_behind_def
    by (rule exI [of _ tx], rule exI [of _ hash], rule exI [of _ ed], rule exI [of _ h],
        rule exI [of _ o'], rule exI [of _ pr], rule exI [of _ preimage])
      (intro conjI tx hash built [unfolded hs'] len' rev os(1) pr(1-3) pr(4) [unfolded os(3)])
qed

text \<open>C5. When prove_transaction of a prover over a runner factory returns a result, the transaction was an invoke, the block not pending, and the input passed the validation the prover is configured with. The transaction was hashed for the chain of the factory, and executed with that hash on the requested block read from the node of the factory; at most one output came out and none is reverted. The classes and the storage proofs are those asked for this execution, and the OS ran once, on the hints built from these: one block with exactly that transaction and its hash, a nonce and a class hash for every contract the execution read and no other, its storage reads, a compiled class hash for each executed class and for each of these hashes a compiled class. The proof, the proof facts and the messages of the result are those of that run and that execution. Assumed of the blockifier: the executed classes are a set, and a run has no more results than transactions.\<close>
theorem prove_transaction_end_to_end:
  assumes "vsp_runner self = factory_run_virtual_os P f" and "executed_classes_distinct P" and "results_bounded P"
    and "prove_transaction P self b t w = (Inr (Some res), w')"
  shows "\<exists>tx hash (ed :: (_, _) execution_data) ci sp h blk out pr preimage.
     t = RpcInvokeTx tx \<and> b \<noteq> BlockPending \<and> acceptable_input P (vsp_validate_zero_fee_fields self) tx \<and>
     p_transaction_hash P (InvokeV3 (p_invoke_into P tx)) (chi_chain_id (rf_chain_info f))
       (p_tx_version P (InvokeV3 (p_invoke_into P tx))) = Inr hash \<and>
     execute P (rpc_executor_of P (factory_executor P f b)) b (rf_contract_class_manager f)
       [(InvokeV3 (p_invoke_into P tx), hash)] = Inr ed \<and>
     length (ed_execution_outputs ed) \<le> 1 \<and>
     list_all (\<lambda>output. eo_revert_error output = None) (ed_execution_outputs ed) \<and>
     get_classes P (factory_classes P f b) (ed_executed_class_hashes ed) = Inr ci \<and>
     get_storage_proofs P (p_proof_node P (rf_node_url f))
       (bi_block_number (bc_block_info (bb_block_context (ed_base_block_info ed)))) ed
       (rc_storage_proof_config (rf_runner_config f)) w = (Inr (Some sp), w') \<and>
     h = os_hints_of (virtual_os_input P ed ci sp [(InvokeV3 (p_invoke_into P tx), hash)]) \<and>
     oh_block_inputs h = [blk] \<and>
     map (\<lambda>e. (ei_tx e, ei_tx_hash e)) (obi_transactions blk) = [(InvokeV3 (p_invoke_into P tx), hash)] \<and>
     fst ` set (sm_nonces (obi_initial_reads blk)) = set (p_contract_addresses P (ed_initial_reads ed)) \<and>
     fst ` set (sm_class_hashes (obi_initial_reads blk)) = set (p_contract_addresses P (ed_initial_reads ed)) \<and>
     map_of (sm_storage (obi_initial_reads blk)) = map_of (rev (sm_storage (ed_initial_reads ed))) \<and>
     fst ` set (sm_compiled_class_hashes (obi_initial_reads blk)) = set (ed_executed_class_hashes ed) \<and>
     snd ` set (sm_compiled_class_hashes (obi_initial_reads blk)) \<subseteq> fst ` set (oh_compiled_classes h) \<and>
     p_run_virtual_os P h = Inr out \<and>
     p_recursive_prove P (p_cairo_pie P out) (vsp_precomputes self) = Some (Inr (pr, preimage)) \<and>
     ptr_proof res = p_proof_from P pr \<and>
     p_try_into_proof_facts P (p_program_output_from P preimage) = Inr (ptr_proof_facts res) \<and>
     ptr_l2_to_l1_messages res = concat (map (output_messages P) (ed_execution_outputs ed))"
  using result_has_run [OF assms] unfolding run_behind_def os_input_built_def covers_execution_def
  by (elim exE conjE) (intro exI conjI, assumption+)

section \<open>Instance\<close>

definition sample_rpc_tx :: "(nat, unit) rpc_invoke_v3" where
  "sample_rpc_tx = \<lparr>riv_proof = [], riv_proof_facts = [], riv_resource_bounds = (), riv_tip = 0, riv_body = ()\<rparr>"

definition ref_prover_ext :: "(nat, unit) prover_ext" where
  "ref_prover_ext = runner_ext.extend ref_runner_ext
     (prover_ext.fields (\<lambda>b. b) (\<lambda>tx. ()) (\<lambda>fee. fmt_dec (unat fee)) True (\<lambda>pie pre. Some (Inr ((), ()))) (\<lambda>pr. ()) (\<lambda>o'. ())
        (\<lambda>o'. Inr [5]) Inr (\<lambda>c t. \<lparr>chi_chain_id = c, chi_strk_fee_token = 9, chi_rest = ()\<rparr>) (\<lambda>c. ()) (Inr ())
        (\<lambda>j. if j = JObj [] then Inr (RpcInvokeTx sample_rpc_tx) else Inl ''not a transaction'')
        (\<lambda>pr. Inr (JStr ''cHJvb2Y='')) (\<lambda>fs. Inr (jstrs (map fmt_hex fs))) (\<lambda>m. Inr JNull) fmt_hex fmt_hex ())"

lemma ref_prover_sel [simp]:
  "p_latest_constants ref_prover_ext = \<lparr>vc_enable_casm_hash_migration = True, vc_min_sierra_version = (1, 7, 0), vc_rest = ()\<rparr>"
  "p_block_info ref_prover_ext = (\<lambda>h. Inr \<lparr>bi_block_number = 5, bi_starknet_version = ''0.14.0'', bi_rest = ()\<rparr>)"
  "p_from_api ref_prover_ext = (\<lambda>tx h fl. Inr ())"
  "p_execute_txs ref_prover_ext = (\<lambda>rd mgr ctx txs. \<lparr>br_results = map (\<lambda>t. Inr \<lparr>eo_revert_error = None, eo_info = ()\<rparr>) txs,
      br_block_state = Some (), br_executed_class_hashes = Inr [7]\<rparr>)"
  "p_initial_reads ref_prover_ext = (\<lambda>st. Inr empty_state_maps)" "p_to_state_diff ref_prover_ext = (\<lambda>st. Inr empty_state_maps)"
  "p_program_hints_to_casm_hints ref_prover_ext = Inr" "p_to_biguint ref_prover_ext = (\<lambda>n. n)"
  "p_contract_addresses ref_prover_ext = (\<lambda>m. remdups (map fst (sm_nonces m) @ map (fst \<circ> fst) (sm_storage m)))"
  by (simp_all add: ref_prover_ext_def ref_runner_ext_def ref_exec_ext_def ref_classes_ext_def ref_storage_ext_def exec_ext.defs classes_ext.defs
      storage_ext.defs facts_ext.defs runner_ext.defs prover_ext.defs)

lemma ref_prover_own [simp]:
  "p_transaction_hash ref_prover_ext = (\<lambda>tx chain v. Inr 42)" "p_run_virtual_os ref_prover_ext = (\<lambda>h. Inr ())"
  "p_rpc_state_reader ref_prover_ext = (\<lambda>url chain b. rx_state_reader sample_executor)"
  "p_class_manager ref_prover_ext = (\<lambda>rd mgr. sample_manager)" "p_proof_node ref_prover_ext = (\<lambda>url. sample_node)"
  by (simp_all add: ref_prover_ext_def ref_runner_ext_def runner_ext.defs exec_ext.defs prover_ext.defs)

lemma ref_prover_proving [simp]:
  "p_stwo_proving ref_prover_ext" "p_recursive_prove ref_prover_ext = (\<lambda>pie pre. Some (Inr ((), ())))"
  "p_try_into_proof_facts ref_prover_ext = (\<lambda>o'. Inr [5])" "p_max_possible_fee ref_prover_ext = (\<lambda>b t. 0)"
  by (simp_all add: ref_prover_ext_def ref_runner_ext_def ref_exec_ext_def runner_ext.defs exec_ext.defs classes_ext.defs
      prover_ext.defs)

lemma ref_prover_json [simp]:
  "p_rpc_transaction_parse ref_prover_ext (JObj []) = Inr (RpcInvokeTx sample_rpc_tx)"
  "p_proof_json ref_prover_ext pr = Inr (JStr ''cHJvb2Y='')" "p_proof_facts_json ref_prover_ext fs = Inr (jstrs (map fmt_hex fs))"
  "p_message_json ref_prover_ext m = Inr JNull"
  by (simp_all add: ref_prover_ext_def ref_runner_ext_def ref_exec_ext_def runner_ext.defs exec_ext.defs classes_ext.defs
      prover_ext.defs)

definition sample_run :: "(nat, unit) execution_data" where
  "sample_run =
     \<lparr>ed_execution_outputs = [\<lparr>eo_revert_error = None, eo_info = ()\<rparr>], ed_initial_reads = empty_state_maps,
      ed_state_diff = empty_state_maps, ed_executed_class_hashes = [7],
      ed_l2_to_l1_messages = output_messages ref_prover_ext \<lparr>eo_revert_error = None, eo_info = ()\<rparr>,
      ed_base_block_info =
        \<lparr>bb_block_context =
           \<lparr>bc_block_info = \<lparr>bi_block_number = 5, bi_starknet_version = ''0.14.0'', bi_rest = ()\<rparr>,
            bc_chain_info = \<lparr>chi_chain_id = ''SN_SEPOLIA'', chi_strk_fee_token = 9, chi_rest = ()\<rparr>,
            bc_versioned_constants = \<lparr>vc_enable_casm_hash_migration = False, vc_min_sierra_version = (0, 0, 1), vc_rest = ()\<rparr>,
            bc_bouncer_config = ()\<rparr>,
         bb_block_hash = 77,
         bb_header_commitments = \<lparr>hc_transaction = 1, hc_event = 2, hc_receipt = 3, hc_state_diff = 4, hc_concatenated_counts = ()\<rparr>,
         bb_prev_block_hash = 76\<rparr>\<rparr>"

lemma sample_run_execute:
  "rn_virtual_block_executor (create_runner ref_prover_ext sample_factory b) b () [(InvokeV3 (), 42)] = Inr sample_run"
  by (simp add: create_runner_def sample_factory_def Let_def execute_def rpc_executor_of_def rpc_executor_new_def
      sample_executor_def rpc_base_block_info_def base_block_info_new_def rpc_reader_for_def convert_invoke_txs_def
      sample_run_def sample_header_def)

lemma sample_run_classes: "is_ok (get_classes ref_prover_ext sample_manager [7])"
  by (simp add: get_classes_def fetch_class_def sample_manager_def class_casm_def compiled_class_v1_to_casm_def
      sample_class_def)

lemma sample_run_proofs:
  "\<exists>sp w'. get_storage_proofs ref_prover_ext sample_node 5 sample_run \<lparr>include_state_changes = False\<rparr> [] = (Inr (Some sp), w')"
  by (simp add: get_storage_proofs_def Let_def prepare_query_def sample_run_def empty_state_maps_def sort_by_def
      fetch_proofs_def count_total_keys_def MAX_KEYS_PER_REQUEST_def bindW_def fetch_single_proof_def sample_node_def
      returnW_def liftW_def proofs_of_response_def create_commitment_infos_without_state_changes_def
      build_storage_commitment_infos_def)

lemma sample_run_hints:
  "\<exists>h w'. create_virtual_os_hints ref_prover_ext sample_run (get_classes ref_prover_ext sample_manager)
      (get_storage_proofs ref_prover_ext sample_node) \<lparr>include_state_changes = False\<rparr> [(InvokeV3 (), 42)] [] = (Inr (Some h), w')"
proof -
  obtain ci where "get_classes ref_prover_ext sample_manager [7] = Inr ci"
    using sample_run_classes by (auto simp: is_ok_iff)
  moreover obtain sp w' where
    "get_storage_proofs ref_prover_ext sample_node 5 sample_run \<lparr>include_state_changes = False\<rparr> [] = (Inr (Some sp), w')"
    using sample_run_proofs by blast
  moreover have "ed_executed_class_hashes sample_run = [7]"
    "bi_block_number (bc_block_info (bb_block_context (ed_base_block_info sample_run))) = 5"
    by (simp_all add: sample_run_def)
  ultimately show ?thesis by (simp add: create_virtual_os_hints_def)
qed

lemma sample_factory_run:
  "\<exists>out w'. factory_run_virtual_os ref_prover_ext sample_factory b [InvokeV3 ()] [] = (Inr (Some out), w')"
proof -
  have parts: "rn_classes_provider (create_runner ref_prover_ext sample_factory b) = get_classes ref_prover_ext sample_manager"
    "rn_storage_proofs_provider (create_runner ref_prover_ext sample_factory b) = get_storage_proofs ref_prover_ext sample_node"
    "rn_block_id (create_runner ref_prover_ext sample_factory b) = b"
    "rn_contract_class_manager (create_runner ref_prover_ext sample_factory b) = ()"
    "rc_storage_proof_config (rn_config (create_runner ref_prover_ext sample_factory b)) = \<lparr>include_state_changes = False\<rparr>"
    by (simp_all add: create_runner_def Let_def) (simp add: sample_factory_def)
  obtain h w' where h: "create_virtual_os_hints ref_prover_ext sample_run (get_classes ref_prover_ext sample_manager)
      (get_storage_proofs ref_prover_ext sample_node) \<lparr>include_state_changes = False\<rparr> [(InvokeV3 (), 42)] [] = (Inr (Some h), w')"
    using sample_run_hints by blast
  show ?thesis
    by (simp add: factory_run_virtual_os_def run_virtual_os_def hash_txs_def bindW_def liftW_def parts
        sample_run_execute h)
qed

definition sample_prover :: "(nat, unit) snos_prover" where
  "sample_prover =
     \<lparr>vsp_runner = factory_run_virtual_os ref_prover_ext sample_factory, vsp_validate_zero_fee_fields = True,
      vsp_precomputes = ()\<rparr>"

lemma sample_proved:
  assumes "b \<noteq> BlockPending"
  shows "\<exists>res w'. prove_transaction ref_prover_ext sample_prover b (RpcInvokeTx sample_rpc_tx) [] = (Inr (Some res), w') \<and>
     ptr_proof_facts res = [5]"
proof -
  obtain out w' where out: "factory_run_virtual_os ref_prover_ext sample_factory b [InvokeV3 ()] [] = (Inr (Some out), w')"
    using sample_factory_run by blast
  have "p_invoke_into ref_prover_ext tx = ()" for tx by simp
  then show ?thesis using out assms
    by (simp add: prove_transaction_def bindW_def liftW_def map_errW_def validate_transaction_input_def sample_rpc_tx_def
        sample_prover_def prove_virtual_snos_run_def prove_def)
qed

lemma ref_prover_laws: "executed_classes_distinct ref_prover_ext" "results_bounded ref_prover_ext"
  by (simp_all add: executed_classes_distinct_def results_bounded_def)

theorem prove_transaction_end_to_end_witness:
  "\<exists>res w' preimage. prove_transaction ref_prover_ext sample_prover BlockLatest (RpcInvokeTx sample_rpc_tx) [] = (Inr (Some res), w') \<and>
     p_try_into_proof_facts ref_prover_ext (p_program_output_from ref_prover_ext preimage) = Inr (ptr_proof_facts res)"
proof -
  obtain res w' where res: "prove_transaction ref_prover_ext sample_prover BlockLatest (RpcInvokeTx sample_rpc_tx) [] = (Inr (Some res), w')"
    using sample_proved [of BlockLatest] by auto
  have run: "vsp_runner sample_prover = factory_run_virtual_os ref_prover_ext sample_factory" by (simp add: sample_prover_def)
  obtain preimage where
    "p_try_into_proof_facts ref_prover_ext (p_program_output_from ref_prover_ext preimage) = Inr (ptr_proof_facts res)"
    using prove_transaction_end_to_end [OF run ref_prover_laws res] by (elim exE conjE) (rule that)
  with res show ?thesis by blast
qed

end
