(* ===== verification/Service_Config.thy ===== *)
theory Service_Config
  imports Snos_Prover
begin

text \<open>
  The configuration of the proving service: \<open>starknet_transaction_prover/src/server/config.rs\<close>
  (transport, raw configuration, command-line overrides, validation) and \<open>server/cors.rs\<close>
  (normalisation of the allowed origins). The URL, address and JSON parsers, and reading files,
  are the record \<open>config_ext\<close>. The lemmas say when a configuration is accepted, which source every
  field comes from, that the normalised origins are canonical, and which CORS layer they give.
\<close>

section \<open>Transport and CORS\<close>

datatype transport_mode = TransportHttp | TransportHttps string string

fun transport_mode_new :: "string option \<Rightarrow> string option \<Rightarrow> service_config_error + transport_mode" where
  "transport_mode_new None None = Inr TransportHttp"
| "transport_mode_new (Some cert) (Some key) = Inr (TransportHttps cert key)"
| "transport_mode_new (Some _) None =
     Inl (IncompleteTlsConfig ''tls_cert_file is set but tls_key_file is missing'')"
| "transport_mode_new None (Some _) =
     Inl (IncompleteTlsConfig ''tls_key_file is set but tls_cert_file is missing'')"

record parsed_url =
  pu_scheme :: string
  pu_host :: "string option"
  pu_username :: string
  pu_password :: "string option"
  pu_path :: string
  pu_query :: "string option"
  pu_fragment :: "string option"
  pu_port :: "u16 option"

record ('f, 'o) raw_service_config =
  raw_rpc_node_url :: string
  raw_chain_id :: string
  raw_validate_zero_fee_fields :: bool
  raw_strk_fee_token_address :: "'f option"
  raw_compiled_class_cache_size :: nat
  raw_prefetch_state :: bool
  raw_use_latest_versioned_constants :: bool
  raw_ip :: 'o
  raw_port :: u16
  raw_max_concurrent_requests :: nat
  raw_max_connections :: u32
  raw_cors_allow_origin :: "string list"
  raw_tls_cert_file :: "string option"
  raw_tls_key_file :: "string option"

record ('f, 'o) config_ext =
  c_url_parse :: "string \<Rightarrow> string + parsed_url"
  c_header_value :: "string \<Rightarrow> string + string"
  c_chain_id_from :: "string \<Rightarrow> string"
  c_ip_parse :: "string \<Rightarrow> string + 'o"
  c_ip_v4 :: "nat \<Rightarrow> nat \<Rightarrow> nat \<Rightarrow> nat \<Rightarrow> 'o"
  c_address_from_str :: "string \<Rightarrow> string + 'f"
  c_read_file :: "string \<Rightarrow> string + string"
  c_raw_parse :: "string \<Rightarrow> string + ('f, 'o) raw_service_config"
  c_bouncer_parse :: "string \<Rightarrow> string + 'o"
  c_embedded_bouncer :: string
  c_class_manager_config :: "nat \<Rightarrow> 'o"

definition quoted :: "string \<Rightarrow> string" where
  "quoted s = [CHR 0x27] @ s @ [CHR 0x27]"

definition invalid_origin :: "string \<Rightarrow> string \<Rightarrow> service_config_error" where
  "invalid_origin origin why = InvalidArgument (''Invalid cors_allow_origin '' @ quoted origin @ '': '' @ why)"

definition is_default_port :: "string \<Rightarrow> u16 \<Rightarrow> bool" where
  "is_default_port scheme port \<longleftrightarrow> (scheme = ''http'' \<and> port = 80) \<or> (scheme = ''https'' \<and> port = 443)"

definition origin_text :: "string \<Rightarrow> string \<Rightarrow> u16 option \<Rightarrow> string" where
  "origin_text scheme host port =
     scheme @ ''://'' @ host @
     (case port of
        Some p \<Rightarrow> if \<not> is_default_port scheme p then '':'' @ fmt_dec (unat p) else []
      | None \<Rightarrow> [])"

definition normalize_cors_allow_origin :: "('f, 'o, 'x) config_ext_scheme \<Rightarrow> string \<Rightarrow> service_config_error + string" where
  "normalize_cors_allow_origin C origin =
     bindR (map_err (invalid_origin origin) (c_url_parse C origin)) (\<lambda>u.
       if pu_scheme u \<noteq> ''http'' \<and> pu_scheme u \<noteq> ''https''
       then Inl (invalid_origin origin ''only http:// and https:// are supported.'')
       else case pu_host u of
              None \<Rightarrow> Inl (invalid_origin origin ''host is required.'')
            | Some host \<Rightarrow>
                if pu_username u \<noteq> [] \<or> pu_password u \<noteq> None
                then Inl (invalid_origin origin ''userinfo is not supported.'')
                else if pu_path u \<noteq> ''/'' \<or> pu_query u \<noteq> None \<or> pu_fragment u \<noteq> None
                then Inl (invalid_origin origin
                       (''must be '' @ quoted ''*'' @ '' or '' @ quoted ''<scheme>://<host>[:port]'' @
                        '' without a path, query, or fragment.''))
                else Inr (origin_text (pu_scheme u) host (pu_port u)))"

fun normalize_origins_loop ::
  "('f, 'o, 'x) config_ext_scheme \<Rightarrow> string list \<Rightarrow> string list \<Rightarrow> service_config_error + string list"
where
  "normalize_origins_loop C acc [] = Inr acc"
| "normalize_origins_loop C acc (origin # rest) =
     bindR (normalize_cors_allow_origin C origin) (\<lambda>n.
       normalize_origins_loop C (if n \<in> set acc then acc else acc @ [n]) rest)"

definition normalize_cors_allow_origins ::
  "('f, 'o, 'x) config_ext_scheme \<Rightarrow> string list \<Rightarrow> service_config_error + string list"
where
  "normalize_cors_allow_origins C origins =
     (if ''*'' \<in> set origins then Inr [''*''] else normalize_origins_loop C [] origins)"

datatype allow_origin = AllowAny | AllowList "string list"

record cors_layer =
  cl_allow_origin :: allow_origin
  cl_methods :: "string list"
  cl_headers :: "string list"

definition build_cors_layer ::
  "('f, 'o, 'x) config_ext_scheme \<Rightarrow> string list \<Rightarrow> string + cors_layer option"
where
  "build_cors_layer C origins =
     (if origins = [] then Inr None
      else bindR (if origins = [''*''] then Inr AllowAny
                  else map_ok AllowList (collectR (map (\<lambda>origin.
                         map_err (\<lambda>e. ''Invalid cors_allow_origin header value '' @ quoted origin)
                           (c_header_value C origin)) origins)))
             (\<lambda>allow. Inr (Some \<lparr>cl_allow_origin = allow, cl_methods = [''POST''], cl_headers = [''content-type'']\<rparr>)))"

fun cors_mode :: "string list \<Rightarrow> string" where
  "cors_mode [] = ''disabled''"
| "cors_mode [single] = (if single = ''*'' then ''wildcard'' else ''allowlist'')"
| "cors_mode _ = ''allowlist''"

section \<open>From arguments to configuration\<close>

definition DEFAULT_IP :: "('f, 'o, 'x) config_ext_scheme \<Rightarrow> 'o" where "DEFAULT_IP C = c_ip_v4 C 0 0 0 0"
definition DEFAULT_PORT :: u16 where "DEFAULT_PORT = 3000"
definition DEFAULT_MAX_CONCURRENT_REQUESTS :: nat where "DEFAULT_MAX_CONCURRENT_REQUESTS = 2"
definition DEFAULT_MAX_CONNECTIONS :: u32 where "DEFAULT_MAX_CONNECTIONS = 10"
definition DEFAULT_COMPILED_CLASS_CACHE_SIZE :: nat where "DEFAULT_COMPILED_CLASS_CACHE_SIZE = 600"

definition default_raw_config :: "('f, 'o, 'x) config_ext_scheme \<Rightarrow> ('f, 'o) raw_service_config" where
  "default_raw_config C =
     \<lparr>raw_rpc_node_url = [], raw_chain_id = ''SN_MAIN'', raw_validate_zero_fee_fields = True,
      raw_strk_fee_token_address = None, raw_compiled_class_cache_size = DEFAULT_COMPILED_CLASS_CACHE_SIZE,
      raw_prefetch_state = False, raw_use_latest_versioned_constants = True, raw_ip = DEFAULT_IP C,
      raw_port = DEFAULT_PORT, raw_max_concurrent_requests = DEFAULT_MAX_CONCURRENT_REQUESTS,
      raw_max_connections = DEFAULT_MAX_CONNECTIONS, raw_cors_allow_origin = [],
      raw_tls_cert_file = None, raw_tls_key_file = None\<rparr>"

record cli_args =
  cli_config_file :: "string option"
  cli_rpc_url :: "string option"
  cli_chain_id :: "string option"
  cli_port :: "u16 option"
  cli_ip :: "string option"
  cli_max_concurrent_requests :: "nat option"
  cli_max_connections :: "u32 option"
  cli_tls_cert_file :: "string option"
  cli_tls_key_file :: "string option"
  cli_strk_fee_token_address :: "string option"
  cli_prefetch_state :: "bool option"
  cli_use_latest_versioned_constants :: "bool option"
  cli_skip_fee_field_validation :: bool
  cli_no_cors :: bool
  cli_cors_allow_origin :: "string list"
  cli_compiled_class_cache_size :: "nat option"
  cli_bouncer_config_override :: "string option"

record ('f, 'o) service_config =
  svc_prover_config :: "('f, 'o) prover_config"
  svc_ip :: 'o
  svc_port :: u16
  svc_max_concurrent_requests :: nat
  svc_max_connections :: u32
  svc_cors_allow_origin :: "string list"
  svc_transport :: transport_mode

text \<open>An override: the new value when it is given and differs.\<close>

definition override :: "'a option \<Rightarrow> 'a \<Rightarrow> 'a" where
  "override new old = (case new of Some v \<Rightarrow> if v \<noteq> old then v else old | None \<Rightarrow> old)"

definition load_raw_config ::
  "('f, 'o, 'x) config_ext_scheme \<Rightarrow> cli_args \<Rightarrow> service_config_error + ('f, 'o) raw_service_config"
where
  "load_raw_config C args =
     (case cli_config_file args of
        Some file \<Rightarrow>
          bindR (map_err (\<lambda>e. ConfigFileError (''Failed to read config file '' @ file @ '': '' @ e)) (c_read_file C file))
            (\<lambda>contents. map_err (\<lambda>e. ConfigFileError (''Failed to parse config file '' @ file @ '': '' @ e))
               (c_raw_parse C contents))
      | None \<Rightarrow> Inr (default_raw_config C))"

definition apply_overrides ::
  "('f, 'o, 'x) config_ext_scheme \<Rightarrow> cli_args \<Rightarrow> ('f, 'o) raw_service_config
   \<Rightarrow> service_config_error + ('f, 'o) raw_service_config"
where
  "apply_overrides C args config =
     (let config1 = config\<lparr>raw_rpc_node_url := override (cli_rpc_url args) (raw_rpc_node_url config),
                           raw_chain_id := override (map_option (c_chain_id_from C) (cli_chain_id args)) (raw_chain_id config),
                           raw_port := override (cli_port args) (raw_port config)\<rparr>
      in bindR (case cli_ip args of
                  None \<Rightarrow> Inr (raw_ip config1)
                | Some ip \<Rightarrow> map_ok (\<lambda>new_ip. override (Some new_ip) (raw_ip config1))
                    (map_err (\<lambda>e. InvalidArgument (''Invalid IP address: '' @ e)) (c_ip_parse C ip))) (\<lambda>ip.
         let config2 = config1
               \<lparr>raw_ip := ip,
                raw_max_concurrent_requests := override (cli_max_concurrent_requests args) (raw_max_concurrent_requests config1),
                raw_max_connections := override (cli_max_connections args) (raw_max_connections config1),
                raw_tls_cert_file := override (map_option Some (cli_tls_cert_file args)) (raw_tls_cert_file config1),
                raw_tls_key_file := override (map_option Some (cli_tls_key_file args)) (raw_tls_key_file config1),
                raw_validate_zero_fee_fields :=
                  (if cli_skip_fee_field_validation args \<and> raw_validate_zero_fee_fields config1 then False
                   else raw_validate_zero_fee_fields config1)\<rparr>
         in if cli_no_cors args \<and> cli_cors_allow_origin args \<noteq> []
            then Inl (InvalidArgument ''--no-cors and --cors-allow-origin are mutually exclusive'')
            else
              let config3 = config2\<lparr>raw_cors_allow_origin :=
                    (if cli_no_cors args then []
                     else if cli_cors_allow_origin args \<noteq> [] then cli_cors_allow_origin args
                     else raw_cors_allow_origin config2)\<rparr>
              in bindR (case cli_strk_fee_token_address args of
                          None \<Rightarrow> Inr (raw_strk_fee_token_address config3)
                        | Some hex_str \<Rightarrow> map_ok (\<lambda>a. override (Some (Some a)) (raw_strk_fee_token_address config3))
                            (map_err (\<lambda>e. InvalidArgument (''Invalid strk_fee_token_address: '' @ e))
                               (c_address_from_str C hex_str))) (\<lambda>fee_token.
                 Inr (config3\<lparr>raw_strk_fee_token_address := fee_token,
                        raw_prefetch_state := override (cli_prefetch_state args) (raw_prefetch_state config3),
                        raw_use_latest_versioned_constants :=
                          override (cli_use_latest_versioned_constants args) (raw_use_latest_versioned_constants config3),
                        raw_compiled_class_cache_size :=
                          override (cli_compiled_class_cache_size args) (raw_compiled_class_cache_size config3)\<rparr>))))"

text \<open>The bouncer configuration; \<open>None\<close> is the panic on an invalid embedded resource.\<close>

definition load_bouncer_config ::
  "('f, 'o, 'x) config_ext_scheme \<Rightarrow> cli_args \<Rightarrow> service_config_error + 'o option"
where
  "load_bouncer_config C args =
     (case cli_bouncer_config_override args of
        Some path \<Rightarrow>
          bindR (map_err (\<lambda>e. ConfigFileError (''Failed to read bouncer config file '' @ path @ '': '' @ e)) (c_read_file C path))
            (\<lambda>contents. map_ok Some
               (map_err (\<lambda>e. ConfigFileError (''Failed to parse bouncer config file '' @ path @ '': '' @ e))
                  (c_bouncer_parse C contents)))
      | None \<Rightarrow> Inr (ok_opt (c_bouncer_parse C (c_embedded_bouncer C))))"

definition build_service_config ::
  "('f, 'o, 'x) config_ext_scheme \<Rightarrow> ('f, 'o) raw_service_config \<Rightarrow> 'o \<Rightarrow> string list \<Rightarrow> transport_mode
   \<Rightarrow> ('f, 'o) service_config"
where
  "build_service_config C config bouncer_config cors transport =
     \<lparr>svc_prover_config =
        \<lparr>pc_contract_class_manager_config = c_class_manager_config C (raw_compiled_class_cache_size config),
         pc_chain_id = raw_chain_id config, pc_rpc_node_url = raw_rpc_node_url config,
         pc_runner_config =
           \<lparr>rc_storage_proof_config = default_storage_proof_config,
            rc_executor_config =
              \<lparr>exc_prefetch_state = raw_prefetch_state config, exc_bouncer_config = bouncer_config,
               exc_use_latest_versioned_constants = raw_use_latest_versioned_constants config\<rparr>\<rparr>,
         pc_strk_fee_token_address = raw_strk_fee_token_address config,
         pc_validate_zero_fee_fields = raw_validate_zero_fee_fields config\<rparr>,
      svc_ip = raw_ip config, svc_port = raw_port config,
      svc_max_concurrent_requests = raw_max_concurrent_requests config,
      svc_max_connections = raw_max_connections config, svc_cors_allow_origin = cors, svc_transport = transport\<rparr>"

definition from_args ::
  "('f, 'o, 'x) config_ext_scheme \<Rightarrow> cli_args \<Rightarrow> service_config_error + ('f, 'o) service_config option"
where
  "from_args C args =
     bindR (bindR (load_raw_config C args) (apply_overrides C args)) (\<lambda>config.
       if raw_rpc_node_url config = []
       then Inl (MissingRequiredField ''rpc_node_url is required (provide via --rpc-url or config file)'')
       else if raw_max_concurrent_requests config = 0
       then Inl (InvalidArgument ''max_concurrent_requests must be at least 1'')
       else if raw_max_connections config = 0
       then Inl (InvalidArgument ''max_connections must be at least 1'')
       else bindR (transport_mode_new (raw_tls_cert_file config) (raw_tls_key_file config)) (\<lambda>transport.
            bindR (normalize_cors_allow_origins C (raw_cors_allow_origin config)) (\<lambda>cors.
            map_ok (map_option (\<lambda>bouncer. build_service_config C config bouncer cors transport))
              (load_bouncer_config C args))))"

section \<open>What an accepted configuration satisfies\<close>

text \<open>An option given on the command line is the value used, else the one loaded.\<close>

definition prefers :: "'a option \<Rightarrow> 'a \<Rightarrow> 'a \<Rightarrow> bool" where
  "prefers given loaded used \<longleftrightarrow> used = (case given of Some v \<Rightarrow> v | None \<Rightarrow> loaded)"

lemma prefers_override [simp, intro]: "prefers given loaded (override given loaded)"
  by (simp add: prefers_def override_def split: option.split)

lemma transport_mode_new_Inr:
  "transport_mode_new c k = Inr t \<longleftrightarrow>
     (c = None \<and> k = None \<and> t = TransportHttp) \<or>
     (\<exists>cert key. c = Some cert \<and> k = Some key \<and> t = TransportHttps cert key)"
  by (cases c; cases k) auto

lemma apply_overrides_prefers:
  assumes "apply_overrides C args r = Inr config"
  shows "prefers (cli_rpc_url args) (raw_rpc_node_url r) (raw_rpc_node_url config)"
    "prefers (map_option (c_chain_id_from C) (cli_chain_id args)) (raw_chain_id r) (raw_chain_id config)"
    "prefers (cli_port args) (raw_port r) (raw_port config)"
    "prefers (cli_max_concurrent_requests args) (raw_max_concurrent_requests r) (raw_max_concurrent_requests config)"
    "prefers (cli_max_connections args) (raw_max_connections r) (raw_max_connections config)"
    "prefers (map_option Some (cli_tls_cert_file args)) (raw_tls_cert_file r) (raw_tls_cert_file config)"
    "prefers (map_option Some (cli_tls_key_file args)) (raw_tls_key_file r) (raw_tls_key_file config)"
    "raw_validate_zero_fee_fields config \<longleftrightarrow> raw_validate_zero_fee_fields r \<and> \<not> cli_skip_fee_field_validation args"
    "raw_cors_allow_origin config =
       (if cli_no_cors args then [] else if cli_cors_allow_origin args \<noteq> [] then cli_cors_allow_origin args
        else raw_cors_allow_origin r)"
    "prefers (cli_prefetch_state args) (raw_prefetch_state r) (raw_prefetch_state config)"
    "\<not> (cli_no_cors args \<and> cli_cors_allow_origin args \<noteq> [])"
    "prefers (cli_use_latest_versioned_constants args) (raw_use_latest_versioned_constants r)
       (raw_use_latest_versioned_constants config)"
    "prefers (cli_compiled_class_cache_size args) (raw_compiled_class_cache_size r) (raw_compiled_class_cache_size config)"
  using assms
  by (auto simp: apply_overrides_def Let_def bindR_Inr_iff split: if_splits)

text \<open>The options that are parsed first: a value that does not parse is an error.\<close>

definition parsed_option :: "(string \<Rightarrow> string + 'a) \<Rightarrow> string option \<Rightarrow> 'a \<Rightarrow> 'a \<Rightarrow> bool" where
  "parsed_option parse given loaded used \<longleftrightarrow>
     (case given of Some s \<Rightarrow> parse s = Inr used | None \<Rightarrow> used = loaded)"

lemma override_Some: "override (Some v) old = v"
  by (simp add: override_def)

lemma apply_overrides_parsed:
  assumes "apply_overrides C args r = Inr config"
  shows "parsed_option (c_ip_parse C) (cli_ip args) (raw_ip r) (raw_ip config)"
    "parsed_option (\<lambda>hex_str. map_ok Some (c_address_from_str C hex_str)) (cli_strk_fee_token_address args)
       (raw_strk_fee_token_address r) (raw_strk_fee_token_address config)"
proof -
  show "parsed_option (c_ip_parse C) (cli_ip args) (raw_ip r) (raw_ip config)"
    using assms unfolding parsed_option_def
    by (cases "cli_ip args") (auto simp: apply_overrides_def Let_def bindR_Inr_iff map_ok_Inr_iff override_Some split: if_splits)
  show "parsed_option (\<lambda>hex_str. map_ok Some (c_address_from_str C hex_str)) (cli_strk_fee_token_address args)
       (raw_strk_fee_token_address r) (raw_strk_fee_token_address config)"
    using assms unfolding parsed_option_def
    by (cases "cli_strk_fee_token_address args")
      (auto simp: apply_overrides_def Let_def bindR_Inr_iff map_ok_Inr_iff override_Some split: if_splits)
qed

lemma from_args_steps:
  assumes "from_args C args = Inr (Some cfg)"
  obtains r config cors transport bouncer where
    "load_raw_config C args = Inr r" and "apply_overrides C args r = Inr config"
    and "raw_rpc_node_url config \<noteq> []" and "raw_max_concurrent_requests config \<noteq> 0" and "raw_max_connections config \<noteq> 0"
    and "transport_mode_new (raw_tls_cert_file config) (raw_tls_key_file config) = Inr transport"
    and "normalize_cors_allow_origins C (raw_cors_allow_origin config) = Inr cors"
    and "cfg = build_service_config C config bouncer cors transport"
    and "load_bouncer_config C args = Inr (Some bouncer)"
proof -
  from assms obtain r config cors transport b where
    steps: "load_raw_config C args = Inr r" "apply_overrides C args r = Inr config"
      "raw_rpc_node_url config \<noteq> []" "raw_max_concurrent_requests config \<noteq> 0" "raw_max_connections config \<noteq> 0"
      "transport_mode_new (raw_tls_cert_file config) (raw_tls_key_file config) = Inr transport"
      "normalize_cors_allow_origins C (raw_cors_allow_origin config) = Inr cors"
    and b: "load_bouncer_config C args = Inr b" "Some cfg = map_option (\<lambda>bouncer. build_service_config C config bouncer cors transport) b"
    by (auto simp: from_args_def bindR_Inr_iff map_ok_Inr_iff split: if_splits)
  from b(2) obtain bouncer where "b = Some bouncer" "cfg = build_service_config C config bouncer cors transport"
    by (cases b) auto
  then show thesis using that [OF steps] b(1) by simp
qed

text \<open>
  What the prover is built with: every field of \<open>ProverConfig\<close>, its runner and executor
  configurations included. The bouncer configuration is the parsed text of the override file when there
  is one, else of the embedded resource.
\<close>

definition bouncer_of :: "('f, 'o, 'x) config_ext_scheme \<Rightarrow> string option \<Rightarrow> 'o \<Rightarrow> bool" where
  "bouncer_of C path bouncer \<longleftrightarrow>
     (\<exists>contents. (case path of Some p \<Rightarrow> c_read_file C p = Inr contents | None \<Rightarrow> contents = c_embedded_bouncer C) \<and>
        c_bouncer_parse C contents = Inr bouncer)"

definition accepted_prover ::
  "('f, 'o, 'x) config_ext_scheme \<Rightarrow> cli_args \<Rightarrow> ('f, 'o) raw_service_config \<Rightarrow> ('f, 'o) prover_config \<Rightarrow> bool"
where
  "accepted_prover C args r pc \<longleftrightarrow>
     pc_rpc_node_url pc \<noteq> [] \<and>
     prefers (cli_rpc_url args) (raw_rpc_node_url r) (pc_rpc_node_url pc) \<and>
     prefers (map_option (c_chain_id_from C) (cli_chain_id args)) (raw_chain_id r) (pc_chain_id pc) \<and>
     parsed_option (\<lambda>hex_str. map_ok Some (c_address_from_str C hex_str)) (cli_strk_fee_token_address args)
       (raw_strk_fee_token_address r) (pc_strk_fee_token_address pc) \<and>
     (pc_validate_zero_fee_fields pc \<longleftrightarrow> raw_validate_zero_fee_fields r \<and> \<not> cli_skip_fee_field_validation args) \<and>
     (\<exists>n. prefers (cli_compiled_class_cache_size args) (raw_compiled_class_cache_size r) n \<and>
        pc_contract_class_manager_config pc = c_class_manager_config C n) \<and>
     rc_storage_proof_config (pc_runner_config pc) = default_storage_proof_config \<and>
     prefers (cli_prefetch_state args) (raw_prefetch_state r)
       (exc_prefetch_state (rc_executor_config (pc_runner_config pc))) \<and>
     prefers (cli_use_latest_versioned_constants args) (raw_use_latest_versioned_constants r)
       (exc_use_latest_versioned_constants (rc_executor_config (pc_runner_config pc))) \<and>
     bouncer_of C (cli_bouncer_config_override args) (exc_bouncer_config (rc_executor_config (pc_runner_config pc)))"

text \<open>The allowed origins before they are normalised.\<close>

definition origins_given :: "cli_args \<Rightarrow> ('f, 'o) raw_service_config \<Rightarrow> string list" where
  "origins_given args r =
     (if cli_no_cors args then [] else if cli_cors_allow_origin args \<noteq> [] then cli_cors_allow_origin args
      else raw_cors_allow_origin r)"

definition accepted_config ::
  "('f, 'o, 'x) config_ext_scheme \<Rightarrow> cli_args \<Rightarrow> ('f, 'o) raw_service_config \<Rightarrow> ('f, 'o) service_config \<Rightarrow> bool"
where
  "accepted_config C args r cfg \<longleftrightarrow>
     accepted_prover C args r (svc_prover_config cfg) \<and>
     parsed_option (c_ip_parse C) (cli_ip args) (raw_ip r) (svc_ip cfg) \<and>
     prefers (cli_port args) (raw_port r) (svc_port cfg) \<and>
     1 \<le> svc_max_concurrent_requests cfg \<and>
     prefers (cli_max_concurrent_requests args) (raw_max_concurrent_requests r) (svc_max_concurrent_requests cfg) \<and>
     1 \<le> unat (svc_max_connections cfg) \<and>
     prefers (cli_max_connections args) (raw_max_connections r) (svc_max_connections cfg) \<and>
     \<not> (cli_no_cors args \<and> cli_cors_allow_origin args \<noteq> []) \<and>
     normalize_cors_allow_origins C (origins_given args r) = Inr (svc_cors_allow_origin cfg) \<and>
     (case svc_transport cfg of
        TransportHttp \<Rightarrow> cli_tls_cert_file args = None \<and> raw_tls_cert_file r = None \<and>
                         cli_tls_key_file args = None \<and> raw_tls_key_file r = None
      | TransportHttps cert key \<Rightarrow>
          prefers (map_option Some (cli_tls_cert_file args)) (raw_tls_cert_file r) (Some cert) \<and>
          prefers (map_option Some (cli_tls_key_file args)) (raw_tls_key_file r) (Some key))"

lemma load_bouncer_of:
  "load_bouncer_config C args = Inr (Some bouncer) \<Longrightarrow> bouncer_of C (cli_bouncer_config_override args) bouncer"
  by (auto simp: load_bouncer_config_def bouncer_of_def bindR_Inr_iff map_ok_Inr_iff
      split: option.splits)

text \<open>C31. An accepted configuration has an RPC URL and admits at least one request and one connection. Every option of the command line is used before the loaded value: URL, chain, fee token and address of the host parsed, port, limits, cache size of compiled classes, prefetching and versioned constants; the fee check is on when it is loaded and not skipped; the origins are the normal form of those given, of none with --no-cors, else of those loaded; the bouncer is parsed from the override file, else from the embedded text; the storage proof options are the defaults; HTTPS is served with the certificate and the key used when both are there, and HTTP only when neither is.\<close>
theorem from_args_accepts:
  assumes "from_args C args = Inr (Some cfg)"
  shows "\<exists>r. load_raw_config C args = Inr r \<and> accepted_config C args r cfg"
proof -
  from assms obtain r config cors transport bouncer where
    steps: "load_raw_config C args = Inr r" "apply_overrides C args r = Inr config"
      "raw_rpc_node_url config \<noteq> []" "raw_max_concurrent_requests config \<noteq> 0" "raw_max_connections config \<noteq> 0"
    and t: "transport_mode_new (raw_tls_cert_file config) (raw_tls_key_file config) = Inr transport"
    and cors: "normalize_cors_allow_origins C (raw_cors_allow_origin config) = Inr cors"
    and cfg: "cfg = build_service_config C config bouncer cors transport"
    and bouncer: "load_bouncer_config C args = Inr (Some bouncer)"
    by (rule from_args_steps)
  note p = apply_overrides_prefers [OF steps(2)] and q = apply_overrides_parsed [OF steps(2)]
  have "1 \<le> unat (raw_max_connections config)"
    using steps(5) by (simp add: unat_eq_zero Suc_leI unat_gt_0)
  moreover have "case transport of
        TransportHttp \<Rightarrow> cli_tls_cert_file args = None \<and> raw_tls_cert_file r = None \<and>
                         cli_tls_key_file args = None \<and> raw_tls_key_file r = None
      | TransportHttps cert key \<Rightarrow>
          prefers (map_option Some (cli_tls_cert_file args)) (raw_tls_cert_file r) (Some cert) \<and>
          prefers (map_option Some (cli_tls_key_file args)) (raw_tls_key_file r) (Some key)"
    using t p(6,7) by (auto simp: transport_mode_new_Inr prefers_def split: option.splits)
  moreover have "accepted_prover C args r (svc_prover_config cfg)"
    unfolding accepted_prover_def using steps(3) p(1,2,8,10,12,13) q(2) load_bouncer_of [OF bouncer]
    by (simp add: cfg build_service_config_def) blast
  moreover have "normalize_cors_allow_origins C (origins_given args r) = Inr cors"
    using cors by (simp only: origins_given_def p(9))
  ultimately show ?thesis
    using steps(1,4) p(3-5,11) q(1) by (simp add: accepted_config_def cfg build_service_config_def Suc_le_eq)
qed

section \<open>Allowed origins\<close>

lemma normalize_loop_props:
  assumes "normalize_origins_loop C acc os = Inr ns" and "distinct acc"
  shows "distinct ns"
    "set ns = set acc \<union> {n. \<exists>o'\<in>set os. normalize_cors_allow_origin C o' = Inr n}"
proof -
  have "distinct ns \<and> set ns = set acc \<union> {n. \<exists>o'\<in>set os. normalize_cors_allow_origin C o' = Inr n}"
    using assms
  proof (induction os arbitrary: acc)
    case (Cons o' os)
    then obtain n where n: "normalize_cors_allow_origin C o' = Inr n"
      and rest: "normalize_origins_loop C (if n \<in> set acc then acc else acc @ [n]) os = Inr ns"
      by (auto simp: bindR_Inr_iff)
    have "distinct (if n \<in> set acc then acc else acc @ [n])" using Cons.prems(2) by simp
    from Cons.IH [OF rest this] show ?case by (auto simp: n split: if_splits)
  qed simp
  then show "distinct ns" "set ns = set acc \<union> {n. \<exists>o'\<in>set os. normalize_cors_allow_origin C o' = Inr n}"
    by simp_all
qed

lemma normalize_loop_fixpoint:
  assumes "\<And>n. n \<in> set ns \<Longrightarrow> normalize_cors_allow_origin C n = Inr n" and "distinct (acc @ ns)"
  shows "normalize_origins_loop C acc ns = Inr (acc @ ns)"
  using assms by (induction ns arbitrary: acc) auto

text \<open>
  What the \<open>url\<close> crate documents: an origin written from the scheme, the host and the port of a
  parsed URL parses to the same parts (a default port is dropped), and hosts are ASCII. What the
  \<open>http\<close> crate documents: a header value of visible ASCII characters is accepted.
\<close>

definition plain_origin :: "parsed_url \<Rightarrow> string \<Rightarrow> bool" where
  "plain_origin u host \<longleftrightarrow>
     (pu_scheme u = ''http'' \<or> pu_scheme u = ''https'') \<and> pu_host u = Some host \<and> pu_username u = [] \<and>
     pu_password u = None \<and> pu_path u = ''/'' \<and> pu_query u = None \<and> pu_fragment u = None"

definition visible_ascii :: "string \<Rightarrow> bool" where
  "visible_ascii s \<longleftrightarrow> list_all (\<lambda>c. 32 < (of_char c :: nat) \<and> (of_char c :: nat) < 127) s"

definition url_reparses :: "('f, 'o, 'x) config_ext_scheme \<Rightarrow> bool" where
  "url_reparses C \<longleftrightarrow> (\<forall>o' u host. c_url_parse C o' = Inr u \<and> plain_origin u host \<longrightarrow>
     c_url_parse C (origin_text (pu_scheme u) host (pu_port u)) =
       Inr (u\<lparr>pu_port := (case pu_port u of
              Some p \<Rightarrow> if is_default_port (pu_scheme u) p then None else Some p | None \<Rightarrow> None)\<rparr>))"

definition url_hosts_ascii :: "('f, 'o, 'x) config_ext_scheme \<Rightarrow> bool" where
  "url_hosts_ascii C \<longleftrightarrow> (\<forall>o' u host. c_url_parse C o' = Inr u \<and> pu_host u = Some host \<longrightarrow> visible_ascii host)"

definition headers_accept_ascii :: "('f, 'o, 'x) config_ext_scheme \<Rightarrow> bool" where
  "headers_accept_ascii C \<longleftrightarrow> (\<forall>s. visible_ascii s \<longrightarrow> is_ok (c_header_value C s))"

lemma normalize_Inr_iff:
  "normalize_cors_allow_origin C origin = Inr n \<longleftrightarrow>
     (\<exists>u host. c_url_parse C origin = Inr u \<and> plain_origin u host \<and> n = origin_text (pu_scheme u) host (pu_port u))"
proof (cases "c_url_parse C origin")
  case (Inr u)
  then show ?thesis
    by (cases "pu_host u") (auto simp: normalize_cors_allow_origin_def plain_origin_def)
qed (simp add: normalize_cors_allow_origin_def)

lemma normalize_idempotent:
  assumes "url_reparses C" and "normalize_cors_allow_origin C origin = Inr n"
  shows "normalize_cors_allow_origin C n = Inr n"
proof -
  from assms(2) obtain u host where u: "c_url_parse C origin = Inr u" "plain_origin u host"
    and n: "n = origin_text (pu_scheme u) host (pu_port u)" by (auto simp: normalize_Inr_iff)
  let ?v = "u\<lparr>pu_port := (case pu_port u of
              Some p \<Rightarrow> if is_default_port (pu_scheme u) p then None else Some p | None \<Rightarrow> None)\<rparr>"
  have "c_url_parse C n = Inr ?v" using assms(1) u unfolding url_reparses_def n by blast
  moreover have "plain_origin ?v host" using u(2) by (simp add: plain_origin_def)
  moreover have "n = origin_text (pu_scheme ?v) host (pu_port ?v)"
    by (cases "pu_port u") (simp_all add: n origin_text_def)
  ultimately show ?thesis unfolding normalize_Inr_iff by blast
qed

lemma origin_text_not_star: "origin_text scheme host port \<noteq> ''*''"
proof -
  have "3 \<le> length (origin_text scheme host port)" by (simp add: origin_text_def)
  then show ?thesis by auto
qed

lemma normalized_no_star: "normalize_cors_allow_origin C origin = Inr n \<Longrightarrow> n \<noteq> ''*''"
  using origin_text_not_star by (auto simp: normalize_Inr_iff)

lemma visible_append [simp]: "visible_ascii (s @ t) \<longleftrightarrow> visible_ascii s \<and> visible_ascii t"
  by (simp add: visible_ascii_def)

lemma digit_visible: "d < 10 \<Longrightarrow> visible_ascii [char_of (48 + d :: nat)]"
  by (simp add: visible_ascii_def of_char_of)

lemma fmt_dec_visible: "visible_ascii (fmt_dec n)"
proof (induction n rule: fmt_dec.induct)
  case (1 n)
  then show ?case by (cases "n < 10") (simp_all add: fmt_dec.simps [of n] digit_visible)
qed

lemma normalized_visible:
  assumes "url_hosts_ascii C" and "normalize_cors_allow_origin C origin = Inr n"
  shows "visible_ascii n"
proof -
  from assms(2) obtain u host where u: "c_url_parse C origin = Inr u" "plain_origin u host"
    and n: "n = origin_text (pu_scheme u) host (pu_port u)" by (auto simp: normalize_Inr_iff)
  have "visible_ascii host" using assms(1) u by (auto simp: url_hosts_ascii_def plain_origin_def)
  moreover have "visible_ascii (pu_scheme u)" using u(2) by (auto simp: plain_origin_def visible_ascii_def)
  moreover have "visible_ascii [CHR '':'', CHR ''/'', CHR ''/'']" "visible_ascii [CHR '':'']" "visible_ascii []"
    by (simp_all add: visible_ascii_def)
  ultimately show ?thesis
    using visible_append [of "[CHR '':'']" "fmt_dec m" for m]
    by (cases "pu_port u") (auto simp: n origin_text_def fmt_dec_visible simp flip: append_Cons)
qed

lemma normalize_origins_cases:
  assumes "normalize_cors_allow_origins C os = Inr ns"
  shows "if ''*'' \<in> set os then ns = [''*''] else normalize_origins_loop C [] os = Inr ns \<and> ''*'' \<notin> set ns"
proof (cases "''*'' \<in> set os")
  case False
  then have loop: "normalize_origins_loop C [] os = Inr ns" using assms by (simp add: normalize_cors_allow_origins_def)
  have "''*'' \<notin> set ns" using normalize_loop_props(2) [OF loop] normalized_no_star by auto
  with loop False show ?thesis by simp
qed (use assms in \<open>simp add: normalize_cors_allow_origins_def\<close>)

text \<open>C32. Normalised CORS origins are distinct, hold the wildcard exactly when it was given and then nothing else, and normalising them again changes nothing.\<close>
theorem normalized_origins_canonical:
  assumes "url_reparses C" and "normalize_cors_allow_origins C os = Inr ns"
  shows "distinct ns \<and> (''*'' \<in> set ns \<longleftrightarrow> ''*'' \<in> set os) \<and> (''*'' \<in> set ns \<longleftrightarrow> ns = [''*'']) \<and>
    normalize_cors_allow_origins C ns = Inr ns"
proof (cases "''*'' \<in> set os")
  case True
  with normalize_origins_cases [OF assms(2)] have "ns = [''*'']" by simp
  then show ?thesis using True by (simp add: normalize_cors_allow_origins_def)
next
  case False
  with normalize_origins_cases [OF assms(2)] have loop: "normalize_origins_loop C [] os = Inr ns" and no: "''*'' \<notin> set ns"
    by simp_all
  note props = normalize_loop_props [OF loop distinct.simps(1) [THEN iffD2, OF TrueI]]
  have "normalize_origins_loop C [] ns = Inr ([] @ ns)"
    by (rule normalize_loop_fixpoint) (use props normalize_idempotent [OF assms(1)] in auto)
  then show ?thesis using False no props(1) by (auto simp: normalize_cors_allow_origins_def)
qed

text \<open>The layer of an accepted configuration.\<close>

definition layer_matches_mode :: "('f, 'o, 'x) config_ext_scheme \<Rightarrow> string list \<Rightarrow> cors_layer option \<Rightarrow> bool" where
  "layer_matches_mode C os l \<longleftrightarrow>
     (case l of
        None \<Rightarrow> cors_mode os = ''disabled'' \<and> os = []
      | Some layer \<Rightarrow> cl_methods layer = [''POST''] \<and> cl_headers layer = [''content-type''] \<and>
          (case cl_allow_origin layer of
             AllowAny \<Rightarrow> cors_mode os = ''wildcard'' \<and> os = [''*'']
           | AllowList hs \<Rightarrow> cors_mode os = ''allowlist'' \<and> map (c_header_value C) os = map Inr hs))"

lemma cors_mode_cases:
  "cors_mode os = (if os = [] then ''disabled'' else if os = [''*''] then ''wildcard'' else ''allowlist'')"
  by (cases os rule: cors_mode.cases) auto

lemma build_cors_layer_ok:
  assumes "headers_accept_ascii C" and "list_all visible_ascii os \<or> os = [''*'']"
  shows "\<exists>l. build_cors_layer C os = Inr l \<and> layer_matches_mode C os l"
proof (cases "os = [] \<or> os = [''*'']")
  case False
  then have vis: "list_all visible_ascii os" using assms(2) by auto
  let ?h = "\<lambda>origin. the (ok_opt (c_header_value C origin))"
  have header: "c_header_value C origin = Inr (?h origin)" if "origin \<in> set os" for origin
    using assms(1) vis that by (force simp: headers_accept_ascii_def list_all_iff is_ok_iff)
  then have read: "map_err e (c_header_value C origin) = Inr (?h origin)" if "origin \<in> set os" for origin and e :: "string \<Rightarrow> 'd"
    using that by (metis map_err.simps(2))
  have "map (c_header_value C) os = map Inr (map ?h os)" unfolding list.map_comp comp_def by (rule map_cong [OF refl]) (rule header)
  moreover have "map (\<lambda>origin. map_err (\<lambda>e. ''Invalid cors_allow_origin header value '' @ quoted origin) (c_header_value C origin)) os
             = map Inr (map ?h os)"
    unfolding list.map_comp comp_def by (rule map_cong [OF refl]) (rule read)
  ultimately show ?thesis using False
    by (simp add: build_cors_layer_def collectR_map_Inr layer_matches_mode_def cors_mode_cases del: map_map)
qed (auto simp: build_cors_layer_def layer_matches_mode_def)

text \<open>C33. For an accepted configuration the CORS layer is always built: none when CORS is disabled, any origin for the wildcard, else a list holding in order the header value of each configured origin, with the method POST and the header content-type, as the mode that cors_mode reports says. Assumed: hosts of parsed URLs are ASCII and header values accept visible ASCII.\<close>
theorem cors_layer_builds:
  assumes "url_hosts_ascii C" and "headers_accept_ascii C" and "from_args C args = Inr (Some cfg)"
  shows "\<exists>l. build_cors_layer C (svc_cors_allow_origin cfg) = Inr l \<and> layer_matches_mode C (svc_cors_allow_origin cfg) l"
proof (rule build_cors_layer_ok [OF assms(2)])
  have "\<exists>os. normalize_cors_allow_origins C os = Inr (svc_cors_allow_origin cfg)"
    using assms(3) by (elim from_args_steps) (auto simp: build_service_config_def)
  then obtain os where ns: "normalize_cors_allow_origins C os = Inr (svc_cors_allow_origin cfg)" ..
  show "list_all visible_ascii (svc_cors_allow_origin cfg) \<or> svc_cors_allow_origin cfg = [''*'']"
    using normalize_origins_cases [OF ns] normalize_loop_props(2) [of C "[]" os "svc_cors_allow_origin cfg"]
      normalized_visible [OF assms(1)]
    by (auto simp: list_all_iff split: if_splits)
qed

section \<open>Instance\<close>

text \<open>A URL parser for \<open>http://\<close> followed by lower-case letters, and a header type of printable text.\<close>

definition ref_url_parse :: "string \<Rightarrow> string + parsed_url" where
  "ref_url_parse s =
     (if take 7 s = ''http://'' \<and> list_all (\<lambda>c. 97 \<le> (of_char c :: nat) \<and> (of_char c :: nat) \<le> 122) (drop 7 s)
      then Inr \<lparr>pu_scheme = ''http'', pu_host = Some (drop 7 s), pu_username = [], pu_password = None, pu_path = ''/'',
                pu_query = None, pu_fragment = None, pu_port = None\<rparr>
      else Inl ''relative URL without a base'')"

definition ref_config_ext :: "(nat, unit) config_ext" where
  "ref_config_ext =
     \<lparr>c_url_parse = ref_url_parse, c_header_value = (\<lambda>s. if visible_ascii s then Inr s else Inl ''invalid''),
      c_chain_id_from = (\<lambda>s. s), c_ip_parse = (\<lambda>s. Inr ()), c_ip_v4 = (\<lambda>a b c d. ()), c_address_from_str = (\<lambda>s. Inr 7),
      c_read_file = (\<lambda>s. Inl ''no such file''), c_raw_parse = (\<lambda>s. Inl ''eof''), c_bouncer_parse = (\<lambda>s. Inr ()),
      c_embedded_bouncer = [], c_class_manager_config = (\<lambda>n. ())\<rparr>"

lemma ref_config_ext_laws: "url_reparses ref_config_ext" "url_hosts_ascii ref_config_ext" "headers_accept_ascii ref_config_ext"
proof -
  show "url_reparses ref_config_ext"
    by (auto simp: url_reparses_def ref_config_ext_def ref_url_parse_def origin_text_def plain_origin_def split: if_splits)
  show "url_hosts_ascii ref_config_ext"
    by (auto simp: url_hosts_ascii_def ref_config_ext_def ref_url_parse_def visible_ascii_def list_all_iff split: if_splits)
  show "headers_accept_ascii ref_config_ext"
    by (simp add: headers_accept_ascii_def ref_config_ext_def)
qed

definition sample_cli :: cli_args where
  "sample_cli = \<lparr>cli_config_file = None, cli_rpc_url = Some ''http://node'', cli_chain_id = None, cli_port = Some 8080,
     cli_ip = None, cli_max_concurrent_requests = None, cli_max_connections = Some 5, cli_tls_cert_file = None,
     cli_tls_key_file = None, cli_strk_fee_token_address = None, cli_prefetch_state = None,
     cli_use_latest_versioned_constants = None, cli_skip_fee_field_validation = True, cli_no_cors = False,
     cli_cors_allow_origin = [''http://app'', ''http://web'', ''http://app''], cli_compiled_class_cache_size = None,
     cli_bouncer_config_override = None\<rparr>"

lemma sample_origins:
  "normalize_cors_allow_origins ref_config_ext [''http://app'', ''http://web'', ''http://app''] =
     Inr [''http://app'', ''http://web'']"
  by code_simp

lemma sample_from_args:
  "\<exists>cfg. from_args ref_config_ext sample_cli = Inr (Some cfg)"
  by (simp add: from_args_def load_raw_config_def apply_overrides_def default_raw_config_def sample_cli_def override_def
      sample_origins load_bouncer_config_def DEFAULT_MAX_CONCURRENT_REQUESTS_def DEFAULT_MAX_CONNECTIONS_def)
    (simp add: ref_config_ext_def)

theorem from_args_accepts_witness:
  "\<exists>cfg. from_args ref_config_ext sample_cli = Inr (Some cfg) \<and>
     (\<exists>r. load_raw_config ref_config_ext sample_cli = Inr r \<and> accepted_config ref_config_ext sample_cli r cfg)"
proof -
  obtain cfg where "from_args ref_config_ext sample_cli = Inr (Some cfg)" using sample_from_args ..
  with from_args_accepts [OF this] show ?thesis by blast
qed

theorem normalized_origins_canonical_witness:
  "distinct [''http://app'', ''http://web''] \<and>
   normalize_cors_allow_origins ref_config_ext [''http://app'', ''http://web''] = Inr [''http://app'', ''http://web'']"
  using normalized_origins_canonical [OF ref_config_ext_laws(1) sample_origins] by blast

theorem cors_layer_builds_witness:
  "\<exists>cfg l. from_args ref_config_ext sample_cli = Inr (Some cfg) \<and>
     build_cors_layer ref_config_ext (svc_cors_allow_origin cfg) = Inr l \<and>
     layer_matches_mode ref_config_ext (svc_cors_allow_origin cfg) l"
proof -
  obtain cfg where "from_args ref_config_ext sample_cli = Inr (Some cfg)" using sample_from_args ..
  with cors_layer_builds [OF ref_config_ext_laws(2,3) this] show ?thesis by blast
qed

end
