(* ===== verification/Proving_Server.thy ===== *)
theory Proving_Server
  imports Service_Config "HOL-Library.Sublist"
begin

text \<open>
  The JSON-RPC service, \<open>starknet_transaction_prover/src/server\<close>: the error objects
  (\<open>errors.rs\<close>), the handler with its concurrency limit (\<open>rpc_impl.rs\<close>, \<open>rpc_api.rs\<close>), starting the
  server over HTTP or HTTPS (\<open>server.rs\<close>, \<open>tls.rs\<close>) and the start-up of \<open>main.rs\<close>. The semaphore and
  the network are parameters. Interleaved requests are the step relation \<open>service_step\<close>; the
  abstract specification is \<open>gate\<close>, which counts live requests.
\<close>

section \<open>Error objects\<close>

record error_obj =
  re_code :: int
  re_message :: string
  re_data :: "string option"

definition block_not_found :: error_obj where
  "block_not_found = \<lparr>re_code = 24, re_message = ''Block not found'', re_data = None\<rparr>"

definition validation_failure :: "string \<Rightarrow> error_obj" where
  "validation_failure data = \<lparr>re_code = 55, re_message = ''Account validation failed'', re_data = Some data\<rparr>"

definition unsupported_tx_version :: "string \<Rightarrow> error_obj" where
  "unsupported_tx_version data =
     \<lparr>re_code = 61, re_message = ''The transaction version is not supported'', re_data = Some data\<rparr>"

definition invalid_transaction_input :: "string \<Rightarrow> error_obj" where
  "invalid_transaction_input data =
     \<lparr>re_code = 1000, re_message = ''Invalid transaction input'', re_data = Some data\<rparr>"

definition service_busy :: "nat \<Rightarrow> error_obj" where
  "service_busy max_concurrent =
     \<lparr>re_code = - 32005, re_message = ''Service is busy'',
      re_data = Some (''The proving service is at capacity ('' @ fmt_dec max_concurrent @
                      '' concurrent request(s)). Please retry later.'')\<rparr>"

definition internal_server_error :: "string \<Rightarrow> error_obj" where
  "internal_server_error err = \<lparr>re_code = - 32603, re_message = ''Internal error'', re_data = Some err\<rparr>"

fun error_object ::
  "('f \<Rightarrow> string) \<Rightarrow> ('f \<Rightarrow> string) \<Rightarrow> 'f virtual_snos_prover_error \<Rightarrow> error_obj"
where
  "error_object dbg dsp (InvalidTransactionType msg) = unsupported_tx_version msg"
| "error_object dbg dsp (InvalidTransactionInput msg) = invalid_transaction_input msg"
| "error_object dbg dsp (ValidationError msg) =
     (if sublist ''Pending'' msg then block_not_found else validation_failure msg)"
| "error_object dbg dsp (ProverRunnerError e) = internal_server_error (runner_error_display dbg dsp e)"
| "error_object dbg dsp (ProverProvingError e) = internal_server_error (proving_error_display e)"
| "error_object dbg dsp (OutputParseError e) = internal_server_error e"
| "error_object dbg dsp (ProgramOutputError e) = internal_server_error e"

section \<open>The handler\<close>

text \<open>The semaphore of tokio; \<open>sem_new\<close> panics (\<open>None\<close>) on too many permits.\<close>

record 's semaphore =
  sem_new :: "nat \<Rightarrow> 's option"
  sem_try_acquire :: "'s \<Rightarrow> 's option"
  sem_release :: "'s \<Rightarrow> 's"

record ('f, 'o, 's) proving_server =
  psi_prover :: "('f, 'o) snos_prover"
  psi_semaphore :: 's
  psi_max_concurrent_requests :: nat

definition server_new ::
  "('s, 'y) semaphore_scheme \<Rightarrow> ('f, 'o) snos_prover \<Rightarrow> nat \<Rightarrow> ('f, 'o, 's) proving_server option"
where
  "server_new S prover n =
     map_option (\<lambda>sem. \<lparr>psi_prover = prover, psi_semaphore = sem, psi_max_concurrent_requests = n\<rparr>) (sem_new S n)"

definition server_from_config ::
  "('f, 'o, 'x) prover_ext_scheme \<Rightarrow> ('s, 'y) semaphore_scheme \<Rightarrow> ('f, 'o) service_config
   \<Rightarrow> ('f, 'o, 's) proving_server option"
where
  "server_from_config P S config =
     Option.bind (snos_prover_new P (svc_prover_config config)) (\<lambda>prover.
       server_new S prover (svc_max_concurrent_requests config))"

definition SPEC_VERSION :: string where "SPEC_VERSION = ''0.10.1''"

definition spec_version :: "('f, 'o, 's) proving_server \<Rightarrow> error_obj + string" where
  "spec_version self = Inr SPEC_VERSION"

text \<open>Taking a permit, the body under the permit, and dropping the permit.\<close>

definition admit ::
  "('s, 'y) semaphore_scheme \<Rightarrow> ('f, 'o, 's) proving_server \<Rightarrow> error_obj + ('f, 'o, 's) proving_server"
where
  "admit S self =
     (case sem_try_acquire S (psi_semaphore self) of
        None \<Rightarrow> Inl (service_busy (psi_max_concurrent_requests self))
      | Some sem \<Rightarrow> Inr (self\<lparr>psi_semaphore := sem\<rparr>))"

definition drop_permit ::
  "('s, 'y) semaphore_scheme \<Rightarrow> ('f, 'o, 's) proving_server \<Rightarrow> ('f, 'o, 's) proving_server"
where
  "drop_permit S self = self\<lparr>psi_semaphore := sem_release S (psi_semaphore self)\<rparr>"

definition permitted ::
  "('f, 'o, 'x) prover_ext_scheme \<Rightarrow> ('f, 'o, 's) proving_server \<Rightarrow> 'f block_id \<Rightarrow> ('f, 'o) rpc_transaction
   \<Rightarrow> 'f proof_trace \<Rightarrow> (error_obj + ('f, 'o) prove_transaction_result option) \<times> 'f proof_trace"
where
  "permitted P self b t =
     map_errW (error_object (p_debug_hash P) (p_display_class P)) (prove_transaction P (psi_prover self) b t)"

definition rpc_prove_transaction ::
  "('f, 'o, 'x) prover_ext_scheme \<Rightarrow> ('s, 'y) semaphore_scheme \<Rightarrow> ('f, 'o, 's) proving_server \<Rightarrow> 'f block_id
   \<Rightarrow> ('f, 'o) rpc_transaction \<Rightarrow> 'f proof_trace
   \<Rightarrow> (error_obj + ('f, 'o) prove_transaction_result option) \<times> ('f, 'o, 's) proving_server \<times> 'f proof_trace"
where
  "rpc_prove_transaction P S self b t w =
     (case admit S self of
        Inl e \<Rightarrow> (Inl e, self, w)
      | Inr self' \<Rightarrow>
          let (r, w') = permitted P self' b t w in (r, drop_permit S self', w'))"

section \<open>Requests in flight\<close>

record ('f, 'o, 's) service_state =
  ss_server :: "('f, 'o, 's) proving_server"
  ss_in_flight :: "(nat \<times> 'f block_id \<times> ('f, 'o) rpc_transaction) list"
  ss_responses :: "(nat \<times> (error_obj + ('f, 'o) prove_transaction_result)) list"

datatype gate_event = Start nat | Refuse nat | End nat

text \<open>
  One step of the service: a request takes a permit, is refused, or ends. A request ends with a
  response, without one when its future is dropped (the client is gone) or its task panics; the
  permit is returned in every case.
\<close>

inductive service_step ::
  "('f, 'o, 'x) prover_ext_scheme \<Rightarrow> ('s, 'y) semaphore_scheme \<Rightarrow> ('f, 'o, 's) service_state \<Rightarrow> gate_event
   \<Rightarrow> ('f, 'o, 's) service_state \<Rightarrow> bool"
  for P S
where
  accept: "admit S (ss_server s) = Inr server' \<Longrightarrow> i \<notin> fst ` set (ss_in_flight s) \<Longrightarrow>
    service_step P S s (Start i)
      (s\<lparr>ss_server := server', ss_in_flight := ss_in_flight s @ [(i, b, t)]\<rparr>)"
| busy: "admit S (ss_server s) = Inl e \<Longrightarrow>
    service_step P S s (Refuse i) (s\<lparr>ss_responses := ss_responses s @ [(i, Inl e)]\<rparr>)"
| respond: "(i, b, t) \<in> set (ss_in_flight s) \<Longrightarrow> permitted P (ss_server s) b t w = (r, w') \<Longrightarrow>
    (case r of Inl e \<Rightarrow> resp = [(i, Inl e)] | Inr None \<Rightarrow> resp = [] | Inr (Some res) \<Rightarrow> resp = [(i, Inr res)]) \<Longrightarrow>
    service_step P S s (End i)
      (s\<lparr>ss_server := drop_permit S (ss_server s),
         ss_in_flight := filter (\<lambda>q. fst q \<noteq> i) (ss_in_flight s),
         ss_responses := ss_responses s @ resp\<rparr>)"
| cancel: "i \<in> fst ` set (ss_in_flight s) \<Longrightarrow>
    service_step P S s (End i)
      (s\<lparr>ss_server := drop_permit S (ss_server s),
         ss_in_flight := filter (\<lambda>q. fst q \<noteq> i) (ss_in_flight s)\<rparr>)"

inductive_cases StartE: "service_step P S s (Start i) s'"
inductive_cases RefuseE: "service_step P S s (Refuse i) s'"
inductive_cases EndE: "service_step P S s (End i) s'"

inductive service_run ::
  "('f, 'o, 'x) prover_ext_scheme \<Rightarrow> ('s, 'y) semaphore_scheme \<Rightarrow> ('f, 'o, 's) service_state \<Rightarrow> gate_event list
   \<Rightarrow> ('f, 'o, 's) service_state \<Rightarrow> bool"
  for P S
where
  run_Nil: "service_run P S s [] s"
| run_snoc: "service_run P S s es s' \<Longrightarrow> service_step P S s' e s'' \<Longrightarrow> service_run P S s (es @ [e]) s''"

definition idle :: "('f, 'o, 's) proving_server \<Rightarrow> ('f, 'o, 's) service_state" where
  "idle server = \<lparr>ss_server = server, ss_in_flight = [], ss_responses = []\<rparr>"

text \<open>The specification: at most \<open>n\<close> live requests, refusals exactly when \<open>n\<close> are live.\<close>

fun gate :: "nat \<Rightarrow> nat list \<Rightarrow> gate_event \<Rightarrow> nat list option" where
  "gate n live (Start i) = (if length live < n \<and> i \<notin> set live then Some (live @ [i]) else None)"
| "gate n live (Refuse i) = (if length live = n then Some live else None)"
| "gate n live (End i) = (if i \<in> set live then Some (remove1 i live) else None)"

fun gate_run :: "nat \<Rightarrow> nat list \<Rightarrow> gate_event list \<Rightarrow> nat list option" where
  "gate_run n live [] = Some live"
| "gate_run n live (e # es) = Option.bind (gate n live e) (\<lambda>live'. gate_run n live' es)"

lemma gate_run_append: "gate_run n live (es @ fs) = Option.bind (gate_run n live es) (\<lambda>l. gate_run n l fs)"
  by (induction es arbitrary: live) (auto split: Option.bind_splits)

section \<open>What tokio documents\<close>

definition semaphore_laws :: "('s, 'y) semaphore_scheme \<Rightarrow> ('s \<Rightarrow> nat) \<Rightarrow> bool" where
  "semaphore_laws S available \<longleftrightarrow>
     (\<forall>n sem. sem_new S n = Some sem \<longrightarrow> available sem = n) \<and>
     (\<forall>sem. case sem_try_acquire S sem of None \<Rightarrow> available sem = 0 | Some sem' \<Rightarrow> available sem = Suc (available sem')) \<and>
     (\<forall>sem. available (sem_release S sem) = Suc (available sem))"

lemma semaphore_lawsD:
  assumes "semaphore_laws S available"
  shows "sem_new S n = Some sem \<Longrightarrow> available sem = n"
    "sem_try_acquire S sem = None \<Longrightarrow> available sem = 0"
    "sem_try_acquire S sem = Some sem' \<Longrightarrow> available sem = Suc (available sem')"
    "available (sem_release S sem) = Suc (available sem)"
proof -
  show "sem_new S n = Some sem \<Longrightarrow> available sem = n" using assms by (simp add: semaphore_laws_def)
  show "available (sem_release S sem) = Suc (available sem)" using assms by (simp add: semaphore_laws_def)
  have "case sem_try_acquire S sem of None \<Rightarrow> available sem = 0 | Some sem' \<Rightarrow> available sem = Suc (available sem')"
    using assms by (simp add: semaphore_laws_def)
  then show "sem_try_acquire S sem = None \<Longrightarrow> available sem = 0"
    "sem_try_acquire S sem = Some sem' \<Longrightarrow> available sem = Suc (available sem')" by simp_all
qed

section \<open>The invariant\<close>

definition service_inv :: "('s \<Rightarrow> nat) \<Rightarrow> nat \<Rightarrow> ('f, 'o, 's) service_state \<Rightarrow> bool" where
  "service_inv available n s \<longleftrightarrow>
     available (psi_semaphore (ss_server s)) + length (ss_in_flight s) = n \<and>
     psi_max_concurrent_requests (ss_server s) = n \<and> distinct (map fst (ss_in_flight s))"

lemma admit_Inr:
  "admit S server = Inr server' \<longleftrightarrow>
     (\<exists>sem. sem_try_acquire S (psi_semaphore server) = Some sem \<and> server' = server\<lparr>psi_semaphore := sem\<rparr>)"
  by (auto simp: admit_def split: option.splits)

lemma admit_Inl:
  "admit S server = Inl e \<longleftrightarrow>
     sem_try_acquire S (psi_semaphore server) = None \<and> e = service_busy (psi_max_concurrent_requests server)"
  by (auto simp: admit_def split: option.splits)

lemma length_filter_fst:
  assumes "distinct (map fst xs)" and "i \<in> fst ` set xs"
  shows "Suc (length (filter (\<lambda>q. fst q \<noteq> i) xs)) = length xs"
  using assms
proof (induction xs)
  case (Cons x xs)
  show ?case
  proof (cases "fst x = i")
    case True
    with Cons.prems(1) have "\<forall>q\<in>set xs. fst q \<noteq> i" by (auto simp: image_iff)
    then have "filter (\<lambda>q. fst q \<noteq> i) xs = xs" by (rule filter_True)
    with True show ?thesis by simp
  qed (use Cons in auto)
qed simp

lemma map_fst_filter:
  assumes "distinct (map fst xs)"
  shows "map fst (filter (\<lambda>q. fst q \<noteq> i) xs) = remove1 i (map fst xs)"
proof -
  have "map fst (filter (\<lambda>q. fst q \<noteq> i) xs) = filter (\<lambda>x. x \<noteq> i) (map fst xs)"
    by (simp add: filter_map comp_def)
  then show ?thesis by (simp add: distinct_remove1_removeAll [OF assms] removeAll_filter_not_eq eq_commute)
qed

lemma distinct_filter_fst: "distinct (map fst xs) \<Longrightarrow> distinct (map fst (filter p xs))"
  by (induction xs) auto

text \<open>A step keeps the invariant and is a step of the specification.\<close>

lemma step_gate:
  assumes laws: "semaphore_laws S available" and step: "service_step P S s e s'" and inv: "service_inv available n s"
  shows "service_inv available n s' \<and>
    gate n (map fst (ss_in_flight s)) e = Some (map fst (ss_in_flight s'))"
  using step
proof cases
  case (accept server' i b t)
  then show ?thesis
    using inv semaphore_lawsD(3) [OF laws] by (auto simp: admit_Inr service_inv_def image_iff)
next
  case (busy e i)
  then show ?thesis
    using inv semaphore_lawsD(2) [OF laws] by (auto simp: admit_Inl service_inv_def)
next
  case (respond i b t w r w' resp)
  then have "i \<in> fst ` set (ss_in_flight s)" by force
  then show ?thesis
    using inv respond length_filter_fst [of "ss_in_flight s" i]
    by (auto simp: service_inv_def drop_permit_def semaphore_lawsD(4) [OF laws] map_fst_filter distinct_filter_fst)
next
  case (cancel i)
  then show ?thesis
    using inv length_filter_fst [of "ss_in_flight s" i]
    by (auto simp: service_inv_def drop_permit_def semaphore_lawsD(4) [OF laws] map_fst_filter distinct_filter_fst)
qed

lemma idle_inv:
  assumes "semaphore_laws S available" and "server_new S prover n = Some server"
  shows "service_inv available n (idle server)"
  using assms(2) semaphore_lawsD(1) [OF assms(1)] by (auto simp: server_new_def service_inv_def idle_def)

lemma run_gate:
  assumes laws: "semaphore_laws S available" and "service_run P S s es s'" and "service_inv available n s"
  shows "service_inv available n s' \<and>
    gate_run n (map fst (ss_in_flight s)) es = Some (map fst (ss_in_flight s'))"
  using assms(2,3)
proof (induction rule: service_run.induct)
  case (run_snoc s es s' e s'')
  then show ?case using step_gate [OF laws run_snoc.hyps(2)] by (simp add: gate_run_append)
qed simp

text \<open>C11. The concurrent service refines a counter of live requests: in every interleaving of arrivals, refusals and ends, a request starts only below the configured maximum, is refused only at the maximum, and the free permits are exactly the maximum less the requests in flight.\<close>
theorem service_refines_gate:
  assumes "semaphore_laws S available" and "server_new S prover n = Some server"
    and "service_run P S (idle server) es s'"
  shows "gate_run n [] es = Some (map fst (ss_in_flight s')) \<and> length (ss_in_flight s') \<le> n \<and>
    available (psi_semaphore (ss_server s')) = n - length (ss_in_flight s')"
  using run_gate [OF assms(1,3) idle_inv [OF assms(1,2)]]
  by (auto simp: service_inv_def idle_def)

section \<open>The handler\<close>

text \<open>The codes of a refusal, in the order of the checks; an admitted run can only fail internally.\<close>

definition expected_code ::
  "('f, 'o, 'x) prover_ext_scheme \<Rightarrow> ('s, 'y) semaphore_scheme \<Rightarrow> ('f, 'o, 's) proving_server \<Rightarrow> 'f block_id
   \<Rightarrow> ('f, 'o) rpc_transaction \<Rightarrow> int"
where
  "expected_code P S self b t =
     (if sem_try_acquire S (psi_semaphore self) = None then - 32005
      else if b = BlockPending then 24
      else case t of
             RpcInvokeTx tx \<Rightarrow>
               if acceptable_input P (vsp_validate_zero_fee_fields (psi_prover self)) tx then - 32603 else 1000
           | _ \<Rightarrow> 61)"

lemma run_errors_internal:
  "re_code (error_object dbg dsp (ProverRunnerError e)) = - 32603"
  "re_code (error_object dbg dsp (ProverProvingError pe)) = - 32603"
  "re_code (error_object dbg dsp (ProgramOutputError m)) = - 32603"
  by (simp_all add: internal_server_error_def)

lemma proving_errors:
  "prove_virtual_snos_run P pre out = Inl e \<Longrightarrow> (\<exists>pe. e = ProverProvingError pe) \<or> (\<exists>m. e = ProgramOutputError m)"
  by (auto simp: prove_virtual_snos_run_def bindR_Inl_iff map_err_Inl_iff split: if_splits)

lemma pending_is_block_not_found: "error_object dbg dsp (ValidationError pending_error) = block_not_found"
proof -
  have "sublist ''Pending'' pending_error" unfolding pending_error_def sublist_def
    by (rule exI [of _ "[]"], rule exI [of _ "drop 7 pending_error"]) (simp add: pending_error_def)
  then show ?thesis by simp
qed

lemma prove_invoke_errors:
  assumes "b \<noteq> BlockPending" and "acceptable_input P (vsp_validate_zero_fee_fields self) tx"
    and "prove_transaction P self b (RpcInvokeTx tx) w = (Inl e, w')"
  shows "re_code (error_object dbg dsp e) = - 32603"
proof -
  have ok: "validate_transaction_input P tx (vsp_validate_zero_fee_fields self) = Inr ()"
    using assms(2) by (simp add: validate_input_iff)
  obtain r v where run: "vsp_runner self b [InvokeV3 (p_invoke_into P tx)] w = (r, v)" by force
  show ?thesis
  proof (cases r)
    case (Inl re)
    with assms(1,3) ok run have "e = ProverRunnerError re"
      by (simp add: prove_transaction_def bindW_def liftW_def map_errW_def)
    then show ?thesis by (simp add: internal_server_error_def)
  next
    case (Inr o')
    with assms(1,3) ok run obtain out where "prove_virtual_snos_run P (vsp_precomputes self) out = Inl e"
      by (cases o') (auto simp: prove_transaction_def bindW_def liftW_def map_errW_def returnW_def)
    then show ?thesis using proving_errors run_errors_internal by metis
  qed
qed

lemma handler_refused:
  "admit S self = Inl e \<Longrightarrow> rpc_prove_transaction P S self b t w = (Inl e, self, w)"
  by (simp add: rpc_prove_transaction_def)

lemma handler_admitted:
  "admit S self = Inr self' \<Longrightarrow> fst (rpc_prove_transaction P S self b t w) = fst (permitted P self' b t w)"
  by (simp add: rpc_prove_transaction_def split_beta Let_def)

text \<open>C34. The handler answers with the error code of the first check that fails: busy, then block not found for a pending block, unsupported version for a transaction that is not an invoke, invalid input, and only internal errors once the transaction is accepted; code 55 is never sent.\<close>
theorem handler_error_codes:
  "case fst (rpc_prove_transaction P S self b t w) of
     Inl e \<Rightarrow> re_code e = expected_code P S self b t
   | Inr res \<Rightarrow> expected_code P S self b t = - 32603"
proof (cases "admit S self")
  case (Inl e)
  then show ?thesis by (auto simp: handler_refused admit_Inl expected_code_def service_busy_def)
next
  case (Inr self')
  then have adm: "sem_try_acquire S (psi_semaphore self) \<noteq> None" "psi_prover self' = psi_prover self"
    by (auto simp: admit_Inr)
  let ?err = "error_object (p_debug_hash P) (p_display_class P)"
  have perm: "fst (rpc_prove_transaction P S self b t w) = map_err ?err (fst (prove_transaction P (psi_prover self) b t w))"
    by (simp add: handler_admitted [OF Inr] permitted_def map_errW_def adm(2) split_beta)
  note code = unsupported_tx_version_def invalid_transaction_input_def
  consider (pending) "b = BlockPending" | (other) "b \<noteq> BlockPending" "\<forall>tx. t \<noteq> RpcInvokeTx tx"
    | (invoke) tx where "b \<noteq> BlockPending" "t = RpcInvokeTx tx" by blast
  then show ?thesis
  proof cases
    case pending
    then show ?thesis unfolding perm
      by (simp add: prove_transaction_def throwW_def expected_code_def adm pending_is_block_not_found block_not_found_def
          del: error_object.simps)
  next
    case other
    then show ?thesis unfolding perm
      by (cases t) (simp_all add: prove_transaction_def bindW_def liftW_def expected_code_def adm code)
  next
    case (invoke tx)
    show ?thesis
    proof (cases "acceptable_input P (vsp_validate_zero_fee_fields (psi_prover self)) tx")
      case True
      obtain r v where r: "prove_transaction P (psi_prover self) b t w = (r, v)" by force
      then show ?thesis unfolding perm using True invoke adm prove_invoke_errors [OF invoke(1) True]
        by (cases r) (auto simp: expected_code_def)
    next
      case False
      then obtain m where "validate_transaction_input P tx (vsp_validate_zero_fee_fields (psi_prover self)) = Inl (InvalidTransactionInput m)"
        using validate_input_iff [of P tx] validate_input_error [of P tx]
        by (cases "validate_transaction_input P tx (vsp_validate_zero_fee_fields (psi_prover self))") fastforce+
      then show ?thesis unfolding perm using False invoke adm
        by (simp add: prove_transaction_def bindW_def liftW_def expected_code_def code)
    qed
  qed
qed

text \<open>A prover built from a configuration.\<close>

definition rpc_backed :: "('f, 'o, 'x) prover_ext_scheme \<Rightarrow> ('f, 'o, 's) proving_server \<Rightarrow> bool" where
  "rpc_backed P server \<longleftrightarrow> (\<exists>f. vsp_runner (psi_prover server) = factory_run_virtual_os P f)"

lemma server_from_config_backed:
  "server_from_config P S config = Some server \<Longrightarrow> rpc_backed P server \<and> 
     server_new S (psi_prover server) (svc_max_concurrent_requests config) = Some server"
  by (auto simp: server_from_config_def server_new_def snos_prover_new_def rpc_backed_def Let_def split: Option.bind_splits)

lemma permitted_returns: "p_stwo_proving P \<Longrightarrow> rpc_backed P server \<Longrightarrow> fst (permitted P server b t w) \<noteq> Inr None"
proof -
  assume stwo: "p_stwo_proving P" and "rpc_backed P server"
  then obtain f where "vsp_runner (psi_prover server) = factory_run_virtual_os P f" by (auto simp: rpc_backed_def)
  then have "fst (prove_transaction P (psi_prover server) b t w) \<noteq> Inr None"
    using stwo by (rule rpc_factory.prove_returns)
  then show ?thesis
    by (cases "prove_transaction P (psi_prover server) b t w"; cases "fst (prove_transaction P (psi_prover server) b t w)")
      (auto simp: permitted_def map_errW_def)
qed

text \<open>Every live request can be answered, oldest first, until the service is idle.\<close>

lemma service_run_trans:
  "service_run P S s' fs s'' \<Longrightarrow> service_run P S s es s' \<Longrightarrow> service_run P S s (es @ fs) s''"
proof (induction rule: service_run.induct)
  case (run_snoc s1 fs s2 e s3)
  then show ?case using service_run.run_snoc [of P S s "es @ fs" s2 e s3] by simp
qed simp

lemma service_run_one: "service_step P S s e s' \<Longrightarrow> service_run P S s [e] s'"
  using service_run.run_snoc [OF service_run.run_Nil] by fastforce

lemma answer_first:
  assumes "p_stwo_proving P" and "rpc_backed P (ss_server s)" and "ss_in_flight s = (i, b, t) # rest"
    and "distinct (map fst (ss_in_flight s))"
  shows "\<exists>s' resp. service_step P S s (End i) s' \<and> ss_in_flight s' = rest \<and>
     ss_responses s' = ss_responses s @ [(i, resp)] \<and> rpc_backed P (ss_server s')"
proof -
  obtain r w' where r: "permitted P (ss_server s) b t [] = (r, w')" by force
  with permitted_returns [OF assms(1,2), of b t "[]"] have "r \<noteq> Inr None" by auto
  then have "\<exists>resp. case r of Inl e \<Rightarrow> [(i, resp)] = [(i, Inl e)] | Inr None \<Rightarrow> [(i, resp)] = []
      | Inr (Some res) \<Rightarrow> [(i, resp)] = [(i, Inr res)]"
  proof (cases r)
    case (Inl e)
    then show ?thesis by (intro exI [of _ "Inl e"]) simp
  next
    case (Inr o')
    then show ?thesis using \<open>r \<noteq> Inr None\<close> by (cases o') auto
  qed
  then obtain resp where resp: "case r of Inl e \<Rightarrow> [(i, resp)] = [(i, Inl e)] | Inr None \<Rightarrow> [(i, resp)] = []
      | Inr (Some res) \<Rightarrow> [(i, resp)] = [(i, Inr res)]" ..
  have "\<forall>q\<in>set rest. fst q \<noteq> i" using assms(3,4) by (auto simp: image_iff)
  then have "filter (\<lambda>q. fst q \<noteq> i) rest = rest" by (rule filter_True)
  moreover have "service_step P S s (End i)
      (s\<lparr>ss_server := drop_permit S (ss_server s), ss_in_flight := filter (\<lambda>q. fst q \<noteq> i) (ss_in_flight s),
         ss_responses := ss_responses s @ [(i, resp)]\<rparr>)"
    by (rule service_step.respond [OF _ r resp]) (simp add: assms(3))
  ultimately show ?thesis using assms(2,3)
    by (intro exI conjI) (assumption, auto simp: rpc_backed_def drop_permit_def)
qed

lemma drain:
  assumes "p_stwo_proving P" and "rpc_backed P (ss_server s)" and "distinct (map fst (ss_in_flight s))"
  shows "\<exists>s'. service_run P S s (map End (map fst (ss_in_flight s))) s' \<and> ss_in_flight s' = [] \<and>
     map fst (ss_responses s') = map fst (ss_responses s) @ map fst (ss_in_flight s)"
  using assms(2,3)
proof (induction "ss_in_flight s" arbitrary: s)
  case Nil
  then show ?case using service_run.run_Nil [of P S s] by (intro exI [of _ s]) simp
next
  case (Cons q rest)
  obtain i b t where q: "q = (i, b, t)" by (cases q)
  obtain s1 resp where s1: "service_step P S s (End i) s1" "ss_in_flight s1 = rest"
    "ss_responses s1 = ss_responses s @ [(i, resp)]" "rpc_backed P (ss_server s1)"
    using answer_first [OF assms(1) Cons.prems(1) Cons.hyps(2) [symmetric, unfolded q] Cons.prems(2), of S] by blast
  have "distinct (map fst (ss_in_flight s1))" using Cons.prems(2) Cons.hyps(2) s1(2) by (metis distinct.simps(2) list.simps(9))
  from Cons.hyps(1) [OF s1(2) [symmetric] s1(4) this] obtain s2 where
    s2: "service_run P S s1 (map End (map fst (ss_in_flight s1))) s2" "ss_in_flight s2 = []"
      "map fst (ss_responses s2) = map fst (ss_responses s1) @ map fst (ss_in_flight s1)" by blast
  have "service_run P S s ([End i] @ map End (map fst (ss_in_flight s1))) s2"
    by (rule service_run_trans [OF s2(1) service_run_one [OF s1(1)]])
  then show ?case using s2(2,3) s1(2,3) Cons.hyps(2) [symmetric] q by (intro exI [of _ s2]) simp
qed

lemma step_backed: "service_step P S s e s' \<Longrightarrow> rpc_backed P (ss_server s') = rpc_backed P (ss_server s)"
  by (induction rule: service_step.induct) (auto simp: rpc_backed_def drop_permit_def admit_Inr)

lemma run_backed: "service_run P S s es s' \<Longrightarrow> rpc_backed P (ss_server s') = rpc_backed P (ss_server s)"
  by (induction rule: service_run.induct) (auto dest: step_backed)

text \<open>C12. From every reachable state all requests in flight can be answered, in order of arrival, after which every permit is free again: no request, error or refusal loses a permit or blocks the service.\<close>
theorem service_drains:
  assumes "semaphore_laws S available" and "p_stwo_proving P" and "server_from_config P S config = Some server"
    and "service_run P S (idle server) es s"
  shows "\<exists>s'. service_run P S s (map End (map fst (ss_in_flight s))) s' \<and>
    map fst (ss_responses s') = map fst (ss_responses s) @ map fst (ss_in_flight s) \<and>
    available (psi_semaphore (ss_server s')) = svc_max_concurrent_requests config"
proof -
  note backed = server_from_config_backed [OF assms(3)]
  note inv = run_gate [OF assms(1,4) idle_inv [OF assms(1) conjunct2 [OF backed]], THEN conjunct1]
  have "rpc_backed P (ss_server s)" using run_backed [OF assms(4)] backed by (simp add: idle_def)
  from drain [OF assms(2) this] inv obtain s' where
    s': "service_run P S s (map End (map fst (ss_in_flight s))) s'" "ss_in_flight s' = []"
      "map fst (ss_responses s') = map fst (ss_responses s) @ map fst (ss_in_flight s)"
    unfolding service_inv_def by blast
  have "service_inv available (svc_max_concurrent_requests config) s'" using run_gate [OF assms(1) s'(1) inv] by blast
  with s' show ?thesis by (auto simp: service_inv_def)
qed

section \<open>Starting the server\<close>

text \<open>
  The network and TLS libraries: an \<open>anyhow\<close> error is the list of its messages, the outermost
  context first. An address is its IP and port.
\<close>

record 'o net_ext =
  n_addr_text :: "'o \<times> u16 \<Rightarrow> string"
  n_bind :: "'o \<times> u16 \<Rightarrow> string + 'o"
  n_local_addr :: "'o \<Rightarrow> string + 'o \<times> u16"
  n_read :: "string \<Rightarrow> string + string"
  n_pem_certs :: "string \<Rightarrow> (string + 'o) list"
  n_pem_key :: "string \<Rightarrow> string + 'o"
  n_tls_config :: "'o list \<Rightarrow> 'o \<Rightarrow> string + 'o"

definition with_context :: "string \<Rightarrow> string + 'a \<Rightarrow> string list + 'a" where
  "with_context ctx = map_err (\<lambda>e. [ctx, e])"

record 'o tls_acceptor =
  ta_config :: 'o
  ta_cert_chain :: "'o list"
  ta_alpn_protocols :: "string list"

definition load_tls_acceptor :: "('o, 'n) net_ext_scheme \<Rightarrow> string \<Rightarrow> string \<Rightarrow> string list + 'o tls_acceptor" where
  "load_tls_acceptor N cert_path key_path =
     bindR (with_context (''Failed to read TLS certificate file: '' @ cert_path) (n_read N cert_path)) (\<lambda>cert_pem.
     bindR (with_context (''Failed to parse TLS certificate PEM chain from '' @ cert_path)
              (collectR (n_pem_certs N cert_pem))) (\<lambda>cert_chain.
     if cert_chain = []
     then Inl [''TLS certificate file does not contain any certificate PEM blocks: '' @ cert_path]
     else
       bindR (with_context (''Failed to read TLS private key file: '' @ key_path) (n_read N key_path)) (\<lambda>key_pem.
       bindR (with_context (''Failed to parse TLS private key PEM from '' @ key_path @
                            '' (supported: PKCS#1, PKCS#8, SEC1)'') (n_pem_key N key_pem)) (\<lambda>private_key.
       bindR (with_context ''Failed to construct TLS server configuration from certificate and key''
                (n_tls_config N cert_chain private_key)) (\<lambda>tls_config.
       Inr \<lparr>ta_config = tls_config, ta_cert_chain = cert_chain, ta_alpn_protocols = [''h2'', ''http/1.1'']\<rparr>)))))"

record 'o running_server =
  run_local_addr :: "'o \<times> u16"
  run_listener :: 'o
  run_acceptor :: "'o tls_acceptor option"
  run_max_connections :: u32
  run_cors_layer :: "cors_layer option"

definition start_tls_server ::
  "('o, 'n) net_ext_scheme \<Rightarrow> 'o \<times> u16 \<Rightarrow> string \<Rightarrow> string \<Rightarrow> u32 \<Rightarrow> cors_layer option \<Rightarrow> string list + 'o running_server"
where
  "start_tls_server N addr cert_path key_path max_connections cors =
     bindR (load_tls_acceptor N cert_path key_path) (\<lambda>acceptor.
     bindR (with_context (''Failed to bind HTTPS JSON-RPC server to '' @ n_addr_text N addr) (n_bind N addr)) (\<lambda>listener.
     bindR (with_context ''Failed to read local address for HTTPS listener'' (n_local_addr N listener)) (\<lambda>local_addr.
     Inr \<lparr>run_local_addr = local_addr, run_listener = listener, run_acceptor = Some acceptor,
          run_max_connections = max_connections, run_cors_layer = cors\<rparr>)))"

definition start_server ::
  "('o, 'n) net_ext_scheme \<Rightarrow> 'o \<times> u16 \<Rightarrow> transport_mode \<Rightarrow> u32 \<Rightarrow> cors_layer option \<Rightarrow> string list + 'o running_server"
where
  "start_server N addr transport max_connections cors =
     (case transport of
        TransportHttp \<Rightarrow>
          bindR (with_context (''Failed to bind JSON-RPC server to '' @ n_addr_text N addr) (n_bind N addr)) (\<lambda>server.
          bindR (map_err (\<lambda>e. [e]) (n_local_addr N server)) (\<lambda>local_addr.
          Inr \<lparr>run_local_addr = local_addr, run_listener = server, run_acceptor = None,
               run_max_connections = max_connections, run_cors_layer = cors\<rparr>))
      | TransportHttps cert key \<Rightarrow> start_tls_server N addr cert key max_connections cors)"

text \<open>
  The accept loop of the HTTPS server, over what the listener reports: a failed accept is skipped,
  every accepted connection is served on its own task, the shutdown ends the loop.
\<close>

text \<open>What the acceptor makes of a socket, and after how many milliseconds; \<open>None\<close> is never.\<close>

definition TLS_HANDSHAKE_TIMEOUT :: nat where "TLS_HANDSHAKE_TIMEOUT = 10 * 1000"

record 'o handshake =
  hk_result :: "string + 'o"
  hk_done_after :: "nat option"

datatype 'o accept_event = ShutdownSignal | AcceptFailed string | Connected "'o handshake"

definition handshake_in_time :: "'o handshake \<Rightarrow> bool" where
  "handshake_in_time h = (case hk_done_after h of Some ms \<Rightarrow> ms \<le> TLS_HANDSHAKE_TIMEOUT | None \<Rightarrow> False)"

definition serve_connection :: "'o handshake \<Rightarrow> 'o list" where
  "serve_connection h =
     (if handshake_in_time h then (case hk_result h of Inr stream \<Rightarrow> [stream] | Inl e \<Rightarrow> []) else [])"

fun accept_loop :: "'o accept_event list \<Rightarrow> 'o list" where
  "accept_loop [] = []"
| "accept_loop (ShutdownSignal # es) = []"
| "accept_loop (AcceptFailed e # es) = accept_loop es"
| "accept_loop (Connected h # es) = serve_connection h @ accept_loop es"

text \<open>The binary: configuration, server, CORS layer and listener, in this order.\<close>

definition service_main ::
  "('f, 'o, 'c) config_ext_scheme \<Rightarrow> ('f, 'o, 'x) prover_ext_scheme \<Rightarrow> ('s, 'y) semaphore_scheme \<Rightarrow> ('o, 'n) net_ext_scheme
   \<Rightarrow> cli_args \<Rightarrow> string list + (('f, 'o, 's) proving_server \<times> 'o running_server) option"
where
  "service_main C P S N args =
     bindR (map_err (\<lambda>e. [service_config_error_display e]) (from_args C args)) (\<lambda>loaded.
     case Option.bind loaded (\<lambda>config. map_option (\<lambda>server. (config, server)) (server_from_config P S config)) of
       None \<Rightarrow> Inr None
     | Some (config, server) \<Rightarrow>
         bindR (map_err (\<lambda>e. [e]) (build_cors_layer C (svc_cors_allow_origin config))) (\<lambda>cors_layer.
         bindR (start_server N (svc_ip config, svc_port config) (svc_transport config) (svc_max_connections config) cors_layer)
           (\<lambda>running. Inr (Some (server, running)))))"

lemma accept_loop_serves:
  "accept_loop es = concat (map (\<lambda>e. case e of Connected h \<Rightarrow> serve_connection h | _ \<Rightarrow> [])
     (takeWhile (\<lambda>e. e \<noteq> ShutdownSignal) es))"
  by (induction es rule: accept_loop.induct) simp_all

text \<open>A peer that never finishes its handshake takes nothing from the others.\<close>

lemma stalled_handshake_skipped:
  "hk_done_after h = None \<Longrightarrow> accept_loop (es @ Connected h # fs) =
     accept_loop (es @ fs)"
  by (induction es rule: accept_loop.induct) (simp_all add: serve_connection_def handshake_in_time_def)

lemma tls_acceptor_chain:
  "load_tls_acceptor N cert key = Inr acceptor \<Longrightarrow> ta_cert_chain acceptor \<noteq> [] \<and>
     (\<exists>pem. n_read N cert = Inr pem \<and> n_pem_certs N pem = map Inr (ta_cert_chain acceptor))"
  by (auto simp: load_tls_acceptor_def with_context_def bindR_Inr_iff collectR_Inr_iff split: if_splits)

text \<open>The transport, the listener and the limits of a running server are those configured.\<close>

definition serves :: "('o, 'n) net_ext_scheme \<Rightarrow> ('f, 'o) service_config \<Rightarrow> 'o running_server \<Rightarrow> bool" where
  "serves N config running \<longleftrightarrow>
     n_bind N (svc_ip config, svc_port config) = Inr (run_listener running) \<and>
     n_local_addr N (run_listener running) = Inr (run_local_addr running) \<and>
     run_max_connections running = svc_max_connections config \<and>
     (case svc_transport config of
        TransportHttp \<Rightarrow> run_acceptor running = None
      | TransportHttps cert key \<Rightarrow>
          \<exists>acceptor. run_acceptor running = Some acceptor \<and> load_tls_acceptor N cert key = Inr acceptor)"

lemma start_server_serves:
  "start_server N (svc_ip config, svc_port config) (svc_transport config) (svc_max_connections config) cors = Inr running \<Longrightarrow>
     serves N config running \<and> run_cors_layer running = cors"
  by (auto simp: start_server_def start_tls_server_def serves_def with_context_def bindR_Inr_iff
      split: transport_mode.splits)

lemma service_main_steps:
  assumes "service_main C P S N args = Inr (Some (server, running))"
  obtains config where "from_args C args = Inr (Some config)" "server_from_config P S config = Some server"
    "build_cors_layer C (svc_cors_allow_origin config) = Inr (run_cors_layer running)" "serves N config running"
  using assms start_server_serves
  by (fastforce simp: service_main_def bindR_Inr_iff split: option.splits Option.bind_splits)

text \<open>C36. When the binary starts, the listener, the transport, the connection limit and the CORS layer are those of the accepted configuration, a TLS acceptor was loaded exactly for HTTPS, and the first request is admitted.\<close>
theorem service_start_up:
  assumes "semaphore_laws S available" and "service_main C P S N args = Inr (Some (server, running))"
  shows "\<exists>config server'. from_args C args = Inr (Some config) \<and> serves N config running \<and>
    build_cors_layer C (svc_cors_allow_origin config) = Inr (run_cors_layer running) \<and>
    admit S server = Inr server' \<and>
    Suc (available (psi_semaphore server')) = svc_max_concurrent_requests config"
proof -
  from assms(2) obtain config where c: "from_args C args = Inr (Some config)" "server_from_config P S config = Some server"
    "build_cors_layer C (svc_cors_allow_origin config) = Inr (run_cors_layer running)" "serves N config running"
    by (rule service_main_steps)
  have av: "available (psi_semaphore server) = svc_max_concurrent_requests config"
    using idle_inv [OF assms(1) conjunct2 [OF server_from_config_backed [OF c(2)]]]
    by (simp add: service_inv_def idle_def)
  have "0 < svc_max_concurrent_requests config"
    using c(1) by (elim from_args_steps) (auto simp: build_service_config_def)
  then obtain sem where "sem_try_acquire S (psi_semaphore server) = Some sem"
    using av semaphore_lawsD(2) [OF assms(1), of "psi_semaphore server"]
    by (cases "sem_try_acquire S (psi_semaphore server)") auto
  then have "admit S server = Inr (server\<lparr>psi_semaphore := sem\<rparr>)" "Suc (available sem) = svc_max_concurrent_requests config"
    using av semaphore_lawsD(3) [OF assms(1)] by (auto simp: admit_def)
  with c show ?thesis by (intro exI conjI) (assumption | simp)+
qed

section \<open>Instance\<close>

text \<open>A semaphore that counts its permits.\<close>

definition ref_semaphore :: "nat semaphore" where
  "ref_semaphore =
     \<lparr>sem_new = Some, sem_try_acquire = (\<lambda>n. if n = 0 then None else Some (n - 1)), sem_release = Suc\<rparr>"

lemma ref_semaphore_laws: "semaphore_laws ref_semaphore id"
  by (simp add: semaphore_laws_def ref_semaphore_def)

definition sample_server :: "nat \<Rightarrow> (nat, unit, nat) proving_server" where
  "sample_server n = \<lparr>psi_prover = sample_prover, psi_semaphore = n, psi_max_concurrent_requests = n\<rparr>"

lemma sample_server_new: "server_new ref_semaphore sample_prover n = Some (sample_server n)"
  by (simp add: server_new_def ref_semaphore_def sample_server_def)

lemma service_run_Cons:
  assumes "service_step P S s e s'" and "service_run P S s' es s''"
  shows "service_run P S s (e # es) s''"
  using service_run_trans [OF assms(2) service_run_one [OF assms(1)]] by simp

text \<open>One permit: a request is accepted, another refused, the first one goes away.\<close>

lemma sample_service_run:
  "\<exists>s'. service_run ref_prover_ext ref_semaphore (idle (sample_server 1)) [Start 4, Refuse 5, End 4] s'"
  by (rule exI, rule service_run_Cons, rule accept [where b = BlockLatest and t = "RpcInvokeTx sample_rpc_tx"])
    (simp_all add: admit_def ref_semaphore_def sample_server_def idle_def,
     rule service_run_Cons, rule busy, simp add: admit_def,
     rule service_run_Cons, rule cancel, simp, rule run_Nil)

theorem service_refines_gate_witness:
  "gate_run 1 [] [Start 4, Refuse 5, End 4] = Some [] \<and>
   (\<exists>s'. service_run ref_prover_ext ref_semaphore (idle (sample_server 1)) [Start 4, Refuse 5, End 4] s' \<and>
         ss_in_flight s' = [])"
proof -
  obtain s' where s': "service_run ref_prover_ext ref_semaphore (idle (sample_server 1)) [Start 4, Refuse 5, End 4] s'"
    using sample_service_run by blast
  from service_refines_gate [OF ref_semaphore_laws sample_server_new this] show ?thesis using s' by auto
qed

lemma sample_from_config:
  "pc_rpc_node_url (svc_prover_config config) = url \<Longrightarrow>
   \<exists>server. server_from_config ref_prover_ext ref_semaphore config = Some server"
  by (simp add: server_from_config_def snos_prover_new_def server_new_def ref_semaphore_def Let_def)
    (simp add: ref_prover_ext_def ref_runner_ext_def ref_exec_ext_def exec_ext.defs runner_ext.defs classes_ext.defs
      storage_ext.defs facts_ext.defs prover_ext.defs)

theorem service_drains_witness:
  "\<exists>config server s s'. server_from_config ref_prover_ext ref_semaphore config = Some server \<and>
     service_run ref_prover_ext ref_semaphore (idle server) [Start 4] s \<and>
     service_run ref_prover_ext ref_semaphore s [End 4] s' \<and> map fst (ss_responses s') = [4]"
proof -
  obtain config :: "(nat, unit) service_config" where config: "from_args ref_config_ext sample_cli = Inr (Some config)"
    using sample_from_args ..
  obtain server where server: "server_from_config ref_prover_ext ref_semaphore config = Some server"
    using sample_from_config by blast
  have "psi_semaphore server = svc_max_concurrent_requests config"
    using idle_inv [OF ref_semaphore_laws conjunct2 [OF server_from_config_backed [OF server]]]
    by (simp add: service_inv_def idle_def)
  moreover have "svc_max_concurrent_requests config \<noteq> 0"
    using config by (elim from_args_steps) (auto simp: build_service_config_def)
  ultimately have adm: "admit ref_semaphore (ss_server (idle server)) = Inr (server\<lparr>psi_semaphore := psi_semaphore server - 1\<rparr>)"
    by (simp add: admit_def ref_semaphore_def idle_def)
  let ?s = "idle server\<lparr>ss_server := server\<lparr>psi_semaphore := psi_semaphore server - 1\<rparr>,
              ss_in_flight := ss_in_flight (idle server) @ [(4, BlockLatest, RpcInvokeTx sample_rpc_tx)]\<rparr>"
  have run: "service_run ref_prover_ext ref_semaphore (idle server) [Start 4] ?s"
    by (rule service_run_one, rule accept [OF adm]) (simp add: idle_def)
  from service_drains [OF ref_semaphore_laws ref_prover_proving(1) server run] obtain s' where
    "service_run ref_prover_ext ref_semaphore ?s (map End (map fst (ss_in_flight ?s))) s'"
    "map fst (ss_responses s') = map fst (ss_responses ?s) @ map fst (ss_in_flight ?s)" by blast
  then have "service_run ref_prover_ext ref_semaphore ?s [End 4] s'" "map fst (ss_responses s') = [4]"
    by (simp_all add: idle_def)
  with server run show ?thesis by (intro exI conjI)
qed

definition ref_net_ext :: "unit net_ext" where
  "ref_net_ext =
     \<lparr>n_addr_text = (\<lambda>a. ''0.0.0.0:8080''), n_bind = (\<lambda>a. Inr ()), n_local_addr = (\<lambda>l. Inr ((), 8080)),
      n_read = (\<lambda>f. Inl ''no such file''), n_pem_certs = (\<lambda>s. []), n_pem_key = (\<lambda>s. Inl ''no key''),
      n_tls_config = (\<lambda>c k. Inr ())\<rparr>"

lemma sample_service_main:
  "\<exists>server running. service_main ref_config_ext ref_prover_ext ref_semaphore ref_net_ext sample_cli = Inr (Some (server, running))"
proof -
  obtain config :: "(nat, unit) service_config" where config: "from_args ref_config_ext sample_cli = Inr (Some config)"
    using sample_from_args ..
  obtain server where server: "server_from_config ref_prover_ext ref_semaphore config = Some server"
    using sample_from_config by blast
  have origins: "svc_cors_allow_origin config = [''http://app'', ''http://web'']"
    and transport: "svc_transport config = TransportHttp"
    using config
    by (auto elim!: from_args_steps simp: build_service_config_def load_raw_config_def sample_cli_def apply_overrides_def
        default_raw_config_def override_def sample_origins Let_def)
  have "\<exists>l. build_cors_layer ref_config_ext (svc_cors_allow_origin config) = Inr l"
    unfolding origins by (simp add: build_cors_layer_def ref_config_ext_def visible_ascii_def)
  then show ?thesis using config server
    by (auto simp: service_main_def start_server_def transport with_context_def ref_net_ext_def)
qed

theorem service_start_up_witness:
  "\<exists>config (server :: (nat, unit, nat) proving_server) server' running. from_args ref_config_ext sample_cli = Inr (Some config) \<and>
     serves ref_net_ext config running \<and> admit ref_semaphore server = Inr server'"
proof -
  obtain server running where
    "service_main ref_config_ext ref_prover_ext ref_semaphore ref_net_ext sample_cli = Inr (Some (server, running))"
    using sample_service_main by blast
  from service_start_up [OF ref_semaphore_laws this] show ?thesis by blast
qed

end
