(* ===== verification/Proving_Api.thy ===== *)
theory Proving_Api
  imports Proving_Server Core_Config
begin

text \<open>
  The JSON-RPC interface of the proving service, the trait \<open>ProvingRpc\<close> of
  \<open>starknet_transaction_prover/src/server/rpc_api.rs\<close>, and its two implementations: the service of
  theory \<open>Proving_Server\<close> and the canned server of \<open>src/server/mock_rpc.rs\<close>. The locale
  \<open>proving_rpc\<close> is the trait with what a client may rely on; both implementations interpret it, and
  a client that sends one request at a time is answered by either as if it were alone, and leaves the
  permits as they were.
\<close>

section \<open>The trait\<close>

datatype ('f, 'o) proving_call =
    Spec_version_call
  | Prove_transaction_call "'f block_id" "('f, 'o) rpc_transaction"

text \<open>The methods under the namespace of the \<open>rpc\<close> attribute.\<close>

fun proving_method :: "('f, 'o) proving_call \<Rightarrow> string" where
  "proving_method Spec_version_call = ''starknet_specVersion''"
| "proving_method (Prove_transaction_call b t) = ''starknet_proveTransaction''"

datatype ('f, 'o) proving_answer =
    Version "error_obj + string"
  | Proved "error_obj + ('f, 'o) prove_transaction_result option"

text \<open>A client that waits for each answer.\<close>

fun proving_calls ::
  "('s \<Rightarrow> error_obj + string)
   \<Rightarrow> ('s \<Rightarrow> 'f block_id \<Rightarrow> ('f, 'o) rpc_transaction \<Rightarrow> 'w
       \<Rightarrow> (error_obj + ('f, 'o) prove_transaction_result option) \<times> 's \<times> 'w)
   \<Rightarrow> ('f, 'o) proving_call list \<Rightarrow> 's \<Rightarrow> 'w \<Rightarrow> ('f, 'o) proving_answer list \<times> 's \<times> 'w"
where
  "proving_calls spec prove_tx [] s w = ([], s, w)"
| "proving_calls spec prove_tx (Spec_version_call # cs) s w =
     (let (as, rest) = proving_calls spec prove_tx cs s w in (Version (spec s) # as, rest))"
| "proving_calls spec prove_tx (Prove_transaction_call b t # cs) s w =
     (let (r, s', w') = prove_tx s b t w; (as, rest) = proving_calls spec prove_tx cs s' w' in (Proved r # as, rest))"

text \<open>The answers of a server that always proves.\<close>

fun lone_answers ::
  "('f block_id \<Rightarrow> ('f, 'o) rpc_transaction \<Rightarrow> 'w \<Rightarrow> (error_obj + ('f, 'o) prove_transaction_result option) \<times> 'w)
   \<Rightarrow> ('f, 'o) proving_call list \<Rightarrow> 'w \<Rightarrow> ('f, 'o) proving_answer list"
where
  "lone_answers answer [] w = []"
| "lone_answers answer (Spec_version_call # cs) w = Version (Inr SPEC_VERSION) # lone_answers answer cs w"
| "lone_answers answer (Prove_transaction_call b t # cs) w =
     (let (r, w') = answer b t w in Proved r # lone_answers answer cs w')"

locale proving_rpc =
  fixes spec :: "'s \<Rightarrow> error_obj + string"
    and prove_tx :: "'s \<Rightarrow> 'f block_id \<Rightarrow> ('f, 'o) rpc_transaction \<Rightarrow> 'w
       \<Rightarrow> (error_obj + ('f, 'o) prove_transaction_result option) \<times> 's \<times> 'w"
    and free :: "'s \<Rightarrow> bool"
    and answer :: "'s \<Rightarrow> 'f block_id \<Rightarrow> ('f, 'o) rpc_transaction \<Rightarrow> 'w
       \<Rightarrow> (error_obj + ('f, 'o) prove_transaction_result option) \<times> 'w"
  assumes spec_answers: "spec s = Inr SPEC_VERSION"
    and free_answers: "free s \<Longrightarrow> prove_tx s b t w = (r, s', w') \<Longrightarrow>
           answer s b t w = (r, w') \<and> free s' \<and> answer s' = answer s"
begin

lemma calls_answered:
  "free s \<Longrightarrow> proving_calls spec prove_tx cs s w = (as, s', w') \<Longrightarrow>
     as = lone_answers (answer s) cs w \<and> free s' \<and> answer s' = answer s"
proof (induction cs arbitrary: s w as)
  case (Cons c cs)
  show ?case
  proof (cases c)
    case Spec_version_call
    then show ?thesis using Cons by (auto simp: spec_answers split: prod.splits)
  next
    case (Prove_transaction_call b t)
    obtain r s1 w1 where p: "prove_tx s b t w = (r, s1, w1)" by (metis prod_cases3)
    obtain bs where bs: "proving_calls spec prove_tx cs s1 w1 = (bs, s', w')" "as = Proved r # bs"
      using Cons.prems(2) by (auto simp: Prove_transaction_call p split: prod.splits)
    note step = free_answers [OF Cons.prems(1) p]
    then show ?thesis using Cons.IH [OF _ bs(1)] by (simp add: Prove_transaction_call bs(2))
  qed
qed simp

end

section \<open>The service\<close>

text \<open>A server with \<open>n\<close> permits left, at least one; what it answers then.\<close>

definition has_permits ::
  "('s, 'y) semaphore_scheme \<Rightarrow> ('s \<Rightarrow> nat) \<Rightarrow> nat \<Rightarrow> ('f, 'o, 's) proving_server \<Rightarrow> bool"
where
  "has_permits S available n server \<longleftrightarrow> semaphore_laws S available \<and> available (psi_semaphore server) = n \<and> 0 < n"

lemma permitted_prover: "psi_prover s' = psi_prover s \<Longrightarrow> permitted P s' = permitted P s"
  by (simp add: permitted_def fun_eq_iff)

lemma permit_returned:
  assumes "has_permits S available n s" and "rpc_prove_transaction P S s b t w = (r, s', w')"
  shows "permitted P s b t w = (r, w') \<and> has_permits S available n s' \<and> permitted P s' = permitted P s"
proof -
  from assms(1) have laws: "semaphore_laws S available" and n: "available (psi_semaphore s) = n" and pos: "0 < n"
    by (auto simp: has_permits_def)
  then obtain sem where sem: "sem_try_acquire S (psi_semaphore s) = Some sem"
    using semaphore_lawsD(2) [OF laws] by (cases "sem_try_acquire S (psi_semaphore s)") auto
  have "permitted P (s\<lparr>psi_semaphore := sem\<rparr>) = permitted P s" by (rule permitted_prover) simp
  then have r: "permitted P s b t w = (r, w')" and s': "s' = s\<lparr>psi_semaphore := sem_release S sem\<rparr>"
    using assms(2) by (auto simp: rpc_prove_transaction_def admit_def sem drop_permit_def split: prod.splits)
  have "available (psi_semaphore s') = n"
    using semaphore_lawsD(3) [OF laws sem] semaphore_lawsD(4) [OF laws, of sem] n by (simp add: s')
  then show ?thesis using r laws pos by (auto simp: has_permits_def s' intro: permitted_prover)
qed

interpretation service: proving_rpc spec_version "rpc_prove_transaction P S" "has_permits S available n" "permitted P"
  for P S available n
  by unfold_locales (auto simp: spec_version_def dest: permit_returned)

section \<open>The canned server\<close>

record ('f, 'o) mock_proving_rpc =
  mpr_response :: "('f, 'o) prove_transaction_result"

text \<open>\<open>load_json\<close> panics (\<open>None\<close>) on a file it cannot read or parse.\<close>

definition reference_json_dir :: "string \<Rightarrow> string" where
  "reference_json_dir manifest_dir = path_join (path_join manifest_dir ''resources'') ''mock_proving_rpc''"

definition load_json :: "(string \<Rightarrow> string + string) \<Rightarrow> (string \<Rightarrow> string + 'a) \<Rightarrow> string \<Rightarrow> 'a option" where
  "load_json read parse path = ok_opt (bindR (read path) parse)"

definition from_expected_json ::
  "(string \<Rightarrow> string + string) \<Rightarrow> (string \<Rightarrow> string + ('f, 'o) prove_transaction_result) \<Rightarrow> string
   \<Rightarrow> ('f, 'o) mock_proving_rpc option"
where
  "from_expected_json read parse manifest_dir =
     map_option (\<lambda>r. \<lparr>mpr_response = r\<rparr>)
       (load_json read parse (path_join (reference_json_dir manifest_dir) ''prove_transaction_result.json''))"

definition mock_spec_version :: "('f, 'o) mock_proving_rpc \<Rightarrow> error_obj + string" where
  "mock_spec_version self = Inr SPEC_VERSION"

definition mock_prove_transaction ::
  "('f, 'o) mock_proving_rpc \<Rightarrow> 'f block_id \<Rightarrow> ('f, 'o) rpc_transaction \<Rightarrow> 'w
   \<Rightarrow> (error_obj + ('f, 'o) prove_transaction_result option) \<times> ('f, 'o) mock_proving_rpc \<times> 'w"
where
  "mock_prove_transaction self block_id transaction w = (Inr (Some (mpr_response self)), self, w)"

interpretation canned: proving_rpc mock_spec_version mock_prove_transaction "\<lambda>self. True"
    "\<lambda>self b t w. (Inr (Some (mpr_response self)), w)"
  by unfold_locales (auto simp: mock_spec_version_def mock_prove_transaction_def)

section \<open>One client at a time\<close>

lemma config_has_permits:
  assumes "semaphore_laws S available" and "server_from_config P S config = Some server"
    and "0 < svc_max_concurrent_requests config"
  shows "has_permits S available (svc_max_concurrent_requests config) server"
proof -
  have "available (psi_semaphore server) = svc_max_concurrent_requests config"
    using idle_inv [OF assms(1) conjunct2 [OF server_from_config_backed [OF assms(2)]]]
    by (simp add: service_inv_def idle_def)
  then show ?thesis using assms(1,3) by (simp add: has_permits_def)
qed

text \<open>C35. A client of the started proving service that waits for each answer is never refused: every call is answered as if it were alone, with the version of the spec or the answer of the prover, and at the end as at the start all the permits of the configured maximum, at least one, are free.\<close>
theorem lone_client_never_refused:
  assumes "semaphore_laws S available" and "from_args C args = Inr (Some config)"
    and "server_from_config P S config = Some server"
    and "proving_calls spec_version (rpc_prove_transaction P S) calls server w = (answers, server', w')"
  shows "answers = lone_answers (permitted P server) calls w \<and>
     0 < svc_max_concurrent_requests config \<and>
     available (psi_semaphore server) = svc_max_concurrent_requests config \<and>
     available (psi_semaphore server') = svc_max_concurrent_requests config \<and>
     permitted P server' = permitted P server"
proof -
  have pos: "svc_max_concurrent_requests config \<noteq> 0"
    using assms(2) by (elim from_args_steps) (auto simp: build_service_config_def)
  then have permits: "has_permits S available (svc_max_concurrent_requests config) server"
    using config_has_permits [OF assms(1,3)] by simp
  from service.calls_answered [OF this assms(4)] permits pos show ?thesis by (simp add: has_permits_def)
qed

theorem lone_client_never_refused_witness:
  "\<exists>config server answers server' w'. from_args ref_config_ext sample_cli = Inr (Some config) \<and>
     server_from_config ref_prover_ext ref_semaphore config = Some server \<and>
     proving_calls spec_version (rpc_prove_transaction ref_prover_ext ref_semaphore)
       [Spec_version_call, Prove_transaction_call BlockPending (RpcInvokeTx sample_rpc_tx), Spec_version_call] server [] =
       (answers, server', w') \<and>
     answers ! 0 = Version (Inr SPEC_VERSION) \<and> psi_semaphore server' = svc_max_concurrent_requests config"
proof -
  obtain config :: "(nat, unit) service_config" where config: "from_args ref_config_ext sample_cli = Inr (Some config)"
    using sample_from_args ..
  obtain server where server: "server_from_config ref_prover_ext ref_semaphore config = Some server"
    using sample_from_config by blast
  let ?calls = "[Spec_version_call, Prove_transaction_call BlockPending (RpcInvokeTx sample_rpc_tx), Spec_version_call]"
  obtain answers server' w' where run:
    "proving_calls spec_version (rpc_prove_transaction ref_prover_ext ref_semaphore) ?calls server [] = (answers, server', w')"
    by (metis prod_cases3)
  from lone_client_never_refused [OF ref_semaphore_laws config server run]
  have "answers ! 0 = Version (Inr SPEC_VERSION)" "psi_semaphore server' = svc_max_concurrent_requests config" by simp_all
  then show ?thesis using config server run by blast
qed

end
