(* ===== verification/Pure_Signing.thy ===== *)
theory Pure_Signing
  imports Tx_Signing
begin

text \<open>
  The wasm-safe crate \<open>crates/snip36-pure\<close> does not depend on the core crate: it has its own copies
  of the resource bounds, the submission parameters, the transaction hash, the signature and the
  payload (\<open>src/types.rs\<close>, \<open>src/signing.rs\<close>). They are modelled here from that crate, with their
  own records, and the lemmas show that the copies commute with the conversions \<open>core_bounds\<close>,
  \<open>core_params\<close>, \<open>core_signature\<close> and \<open>core_error\<close> into the core types: a payload signed in the
  browser is the payload the command line would sign.
\<close>

section \<open>Types\<close>

record pure_resource_bound =
  pure_max_amount :: u64
  pure_max_price_per_unit :: u128

record pure_resource_bounds =
  pure_l1_gas :: pure_resource_bound
  pure_l2_gas :: pure_resource_bound
  pure_l1_data_gas :: pure_resource_bound

definition pure_SEPOLIA_GAS_PRICE_CEIL :: u128 where
  "pure_SEPOLIA_GAS_PRICE_CEIL = 0x38d7ea4c68000"

definition pure_default_bounds :: pure_resource_bounds where
  "pure_default_bounds =
     \<lparr>pure_l1_gas = \<lparr>pure_max_amount = 0x10000, pure_max_price_per_unit = pure_SEPOLIA_GAS_PRICE_CEIL\<rparr>,
      pure_l2_gas = \<lparr>pure_max_amount = 0x7000000, pure_max_price_per_unit = 0x1dcd65000\<rparr>,
      pure_l1_data_gas = \<lparr>pure_max_amount = 0x1b0, pure_max_price_per_unit = pure_SEPOLIA_GAS_PRICE_CEIL\<rparr>\<rparr>"

definition pure_zero_fee :: pure_resource_bounds where
  "pure_zero_fee =
     \<lparr>pure_l1_gas = \<lparr>pure_max_amount = 0, pure_max_price_per_unit = 0\<rparr>,
      pure_l2_gas = \<lparr>pure_max_amount = 0x7000000, pure_max_price_per_unit = 0\<rparr>,
      pure_l1_data_gas = \<lparr>pure_max_amount = 0x1b0, pure_max_price_per_unit = 0\<rparr>\<rparr>"

definition pure_to_rpc_json :: "pure_resource_bounds \<Rightarrow> json" where
  "pure_to_rpc_json b =
     JObj
      [(''l1_gas'', JObj
         [(''max_amount'', JStr (fmt_hex (unat (pure_max_amount (pure_l1_gas b))))),
          (''max_price_per_unit'', JStr (fmt_hex (unat (pure_max_price_per_unit (pure_l1_gas b)))))]),
       (''l2_gas'', JObj
         [(''max_amount'', JStr (fmt_hex (unat (pure_max_amount (pure_l2_gas b))))),
          (''max_price_per_unit'', JStr (fmt_hex (unat (pure_max_price_per_unit (pure_l2_gas b)))))]),
       (''l1_data_gas'', JObj
         [(''max_amount'', JStr (fmt_hex (unat (pure_max_amount (pure_l1_data_gas b))))),
          (''max_price_per_unit'', JStr (fmt_hex (unat (pure_max_price_per_unit (pure_l1_data_gas b)))))])]"

record 'f pure_submit_params =
  psp_sender_address :: 'f
  psp_private_key :: 'f
  psp_calldata :: "'f list"
  psp_proof_base64 :: string
  psp_proof_facts :: "'f list"
  psp_nonce :: 'f
  psp_chain_id :: 'f
  psp_resource_bounds :: pure_resource_bounds

section \<open>Inputs and outputs of the builders\<close>

record snip36_payload_input =
  pi_sender_address :: string
  pi_private_key :: string
  pi_calldata :: "string list"
  pi_proof_base64 :: string
  pi_proof_facts :: "string list"
  pi_nonce :: string
  pi_chain_id :: string
  pi_resource_bounds :: "pure_resource_bounds option"

record snip36_transaction_input =
  ti_sender_address :: string
  ti_private_key :: string
  ti_calldata :: "string list"
  ti_nonce :: string
  ti_chain_id :: string
  ti_resource_bounds :: "pure_resource_bounds option"

record snip36_unsigned_transaction_input =
  uti_sender_address :: string
  uti_calldata :: "string list"
  uti_nonce :: string
  uti_chain_id :: string
  uti_resource_bounds :: "pure_resource_bounds option"

record snip36_unsigned_payload_input =
  upi_sender_address :: string
  upi_calldata :: "string list"
  upi_proof_base64 :: string
  upi_proof_facts :: "string list"
  upi_nonce :: string
  upi_chain_id :: string
  upi_resource_bounds :: "pure_resource_bounds option"

text \<open>The four output types are a hash in hex and a JSON value.\<close>

record tx_output =
  out_tx_hash :: string
  out_json :: json

section \<open>Hash and signature\<close>

definition pure_invoke_prefix :: "('f, 'x) ext_scheme \<Rightarrow> 'f" where
  "pure_invoke_prefix X = x_from_bytes_be_slice X ''invoke''"

definition pure_chain_id_felt :: "('f, 'x) ext_scheme \<Rightarrow> string \<Rightarrow> 'f" where
  "pure_chain_id_felt X chain_id = x_from_bytes_be_slice X chain_id"

definition pure_resource_name_felt :: "string \<Rightarrow> u64" where
  "pure_resource_name_felt name =
     (let len = min (length name) 7;
          buf = replicate (8 - len) (char_of (0 :: nat)) @ take len name
      in word_of_nat (be_nat buf))"

definition pure_concat_resource :: "('f, 'x) ext_scheme \<Rightarrow> u64 \<Rightarrow> u128 \<Rightarrow> string \<Rightarrow> 'f" where
  "pure_concat_resource X amount price resource_name =
     (let name = (ucast (pure_resource_name_felt resource_name) :: u128);
          high = or (push_bit 64 name) (ucast amount);
          low = price;
          high_felt = x_from_u128 X high;
          shift = x_pow_felt X (x_from_u128 X (push_bit 64 1)) (x_two X)
      in x_add X (x_mul X high_felt shift) (x_from_u128 X low))"

definition pure_compute_tip_resource_bounds_hash ::
  "('f, 'x) ext_scheme \<Rightarrow> 'f \<Rightarrow> pure_resource_bounds \<Rightarrow> 'f"
where
  "pure_compute_tip_resource_bounds_hash X tip bounds =
     (let l1 = pure_concat_resource X (pure_max_amount (pure_l1_gas bounds))
                 (pure_max_price_per_unit (pure_l1_gas bounds)) ''L1_GAS'';
          l2 = pure_concat_resource X (pure_max_amount (pure_l2_gas bounds))
                 (pure_max_price_per_unit (pure_l2_gas bounds)) ''L2_GAS'';
          l1_data = pure_concat_resource X (pure_max_amount (pure_l1_data_gas bounds))
                 (pure_max_price_per_unit (pure_l1_data_gas bounds)) ''L1_DATA''
      in x_poseidon_hash_many X [tip, l1, l2, l1_data])"

definition pure_compute_invoke_v3_tx_hash ::
  "('f, 'x) ext_scheme \<Rightarrow> 'f \<Rightarrow> 'f list \<Rightarrow> 'f \<Rightarrow> 'f \<Rightarrow> 'f \<Rightarrow> pure_resource_bounds \<Rightarrow> 'f list \<Rightarrow> 'f list
   \<Rightarrow> u32 \<Rightarrow> u32 \<Rightarrow> 'f list \<Rightarrow> 'f"
where
  "pure_compute_invoke_v3_tx_hash X sender calldata cid nonce tip bounds paymaster_data
       account_deployment_data nonce_da_mode fee_da_mode facts =
     (let tip_rb_hash = pure_compute_tip_resource_bounds_hash X tip bounds;
          paymaster_data_hash = x_poseidon_hash_many X paymaster_data;
          account_deployment_data_hash = x_poseidon_hash_many X account_deployment_data;
          calldata_hash = x_poseidon_hash_many X calldata;
          da = x_from_u64 X (or (push_bit 32 (ucast nonce_da_mode)) (ucast fee_da_mode));
          elements0 =
            [pure_invoke_prefix X, x_three X, sender, tip_rb_hash, paymaster_data_hash, cid, nonce, da,
             account_deployment_data_hash, calldata_hash];
          elements = (if facts \<noteq> [] then elements0 @ [x_poseidon_hash_many X facts] else elements0)
      in x_poseidon_hash_many X elements)"

record 'f pure_signature =
  pure_sig_r :: 'f
  pure_sig_s :: 'f

datatype pure_sign_error = Pure_Ecdsa string

fun pure_sign_error_display :: "pure_sign_error \<Rightarrow> string" where
  "pure_sign_error_display (Pure_Ecdsa e) = ''ECDSA signing failed: '' @ e"

definition pure_sign :: "('f, 'x) ext_scheme \<Rightarrow> 'f \<Rightarrow> 'f \<Rightarrow> pure_sign_error + 'f pure_signature" where
  "pure_sign X private_key message_hash =
     (let k = x_rfc6979_generate_k X message_hash private_key
      in bindR (map_err Pure_Ecdsa (x_ecdsa_sign X private_key message_hash k))
           (\<lambda>(r, s). Inr \<lparr>pure_sig_r = r, pure_sig_s = s\<rparr>))"

definition pure_sig_json :: "('f, 'x) ext_scheme \<Rightarrow> 'f pure_signature \<Rightarrow> json" where
  "pure_sig_json X sig = JArr [JStr (x_to_hex X (pure_sig_r sig)), JStr (x_to_hex X (pure_sig_s sig))]"

text \<open>The entries of the \<open>json!\<close> literals of the crate; \<open>extra\<close> holds the proof entries of a payload.\<close>

definition pure_invoke_json ::
  "string \<Rightarrow> string list \<Rightarrow> string \<Rightarrow> pure_resource_bounds \<Rightarrow> json \<Rightarrow> (string \<times> json) list \<Rightarrow> json"
where
  "pure_invoke_json sender calldata_hex nonce_hex bounds sig extra =
     JObj ([(''type'', JStr ''INVOKE''), (''version'', JStr ''0x3''),
            (''sender_address'', JStr sender), (''calldata'', jstrs calldata_hex),
            (''nonce'', JStr nonce_hex), (''resource_bounds'', pure_to_rpc_json bounds),
            (''tip'', JStr ''0x0''), (''paymaster_data'', JArr []),
            (''account_deployment_data'', JArr []),
            (''nonce_data_availability_mode'', JStr ''L1''),
            (''fee_data_availability_mode'', JStr ''L1''), (''signature'', sig)] @ extra)"

definition pure_sign_and_build_payload ::
  "('f, 'x) ext_scheme \<Rightarrow> 'f pure_submit_params \<Rightarrow> pure_sign_error + 'f \<times> json"
where
  "pure_sign_and_build_payload X params =
     (let tx_hash = pure_compute_invoke_v3_tx_hash X (psp_sender_address params) (psp_calldata params)
                (psp_chain_id params) (psp_nonce params) (x_zero X) (psp_resource_bounds params)
                [] [] 0 0 (psp_proof_facts params)
      in bindR (pure_sign X (psp_private_key params) tx_hash) (\<lambda>sig.
         let calldata_hex = map (x_to_hex X) (psp_calldata params);
             proof_facts_hex = map (x_to_hex X) (psp_proof_facts params);
             payload = pure_invoke_json (x_to_hex X (psp_sender_address params)) calldata_hex
                         (x_to_hex X (psp_nonce params)) (psp_resource_bounds params) (pure_sig_json X sig)
                         [(''proof'', JStr (psp_proof_base64 params)), (''proof_facts'', jstrs proof_facts_hex)]
         in Inr (tx_hash, payload)))"

definition pure_felt_from_hex :: "('f, 'x) ext_scheme \<Rightarrow> string \<Rightarrow> string + 'f" where
  "pure_felt_from_hex X hex_str =
     map_err (\<lambda>e. ''invalid felt hex '' @ [CHR 0x27] @ hex_str @ [CHR 0x27] @ '': '' @ e) (x_from_hex X hex_str)"

section \<open>The copies agree with the core crate\<close>

definition core_bound :: "pure_resource_bound \<Rightarrow> resource_bound" where
  "core_bound b = \<lparr>max_amount = pure_max_amount b, max_price_per_unit = pure_max_price_per_unit b\<rparr>"

definition core_bounds :: "pure_resource_bounds \<Rightarrow> resource_bounds" where
  "core_bounds b =
     \<lparr>l1_gas = core_bound (pure_l1_gas b), l2_gas = core_bound (pure_l2_gas b),
      l1_data_gas = core_bound (pure_l1_data_gas b)\<rparr>"

definition core_params :: "'f pure_submit_params \<Rightarrow> 'f submit_params" where
  "core_params p =
     \<lparr>sp_sender_address = psp_sender_address p, sp_private_key = psp_private_key p, sp_calldata = psp_calldata p,
      sp_proof_base64 = psp_proof_base64 p, sp_proof_facts = psp_proof_facts p, sp_nonce = psp_nonce p,
      sp_chain_id = psp_chain_id p, sp_resource_bounds = core_bounds (psp_resource_bounds p)\<rparr>"

definition core_signature :: "'f pure_signature \<Rightarrow> 'f signature" where
  "core_signature s = \<lparr>sig_r = pure_sig_r s, sig_s = pure_sig_s s\<rparr>"

primrec core_error :: "pure_sign_error \<Rightarrow> sign_error" where
  "core_error (Pure_Ecdsa e) = Ecdsa e"

named_theorems core_of_pure \<open>functions of the wasm-safe crate as those of the core crate\<close>

lemma core_bounds_inj: "core_bounds a = core_bounds b \<longleftrightarrow> a = b"
  by (cases a, cases b) (auto simp: core_bounds_def core_bound_def intro!: pure_resource_bound.equality)

lemma core_presets [core_of_pure]:
  "core_bounds pure_default_bounds = default_bounds" "core_bounds pure_zero_fee = zero_fee"
  by (simp_all add: core_bounds_def core_bound_def pure_default_bounds_def default_bounds_def pure_zero_fee_def
      zero_fee_def pure_SEPOLIA_GAS_PRICE_CEIL_def SEPOLIA_GAS_PRICE_CEIL_def)

lemma core_json [core_of_pure]:
  "pure_to_rpc_json b = to_rpc_json (core_bounds b)"
  "pure_sig_json X sig = sig_json X (core_signature sig)"
  "pure_invoke_json sender cd nonce b sj extra = invoke_json sender cd nonce (core_bounds b) sj extra"
  by (simp_all add: pure_to_rpc_json_def to_rpc_json_def bound_json_def core_bounds_def core_bound_def
      pure_sig_json_def sig_json_def core_signature_def pure_invoke_json_def invoke_json_def)

lemma core_felts [core_of_pure]:
  "pure_chain_id_felt = chain_id_felt" "pure_felt_from_hex = felt_from_hex"
  "pure_sign_error_display e = sign_error_display (core_error e)"
  by (simp_all add: fun_eq_iff pure_chain_id_felt_def chain_id_felt_def pure_felt_from_hex_def felt_from_hex_def)
    (cases e, simp)

lemma core_hash [core_of_pure]:
  "pure_compute_invoke_v3_tx_hash X sender cd cid nonce tip b pm dep nda fda facts =
     compute_invoke_v3_tx_hash X sender cd cid nonce tip (core_bounds b) pm dep nda fda facts"
proof -
  have "pure_concat_resource = (concat_resource :: ('a, 'b) ext_scheme \<Rightarrow> u64 \<Rightarrow> u128 \<Rightarrow> string \<Rightarrow> 'a)"
    by (simp add: fun_eq_iff pure_concat_resource_def concat_resource_def pure_resource_name_felt_def
        resource_name_felt_def Let_def)
  then have "pure_compute_tip_resource_bounds_hash X tip b = compute_tip_resource_bounds_hash X tip (core_bounds b)"
    by (simp add: pure_compute_tip_resource_bounds_hash_def compute_tip_resource_bounds_hash_def
        tip_resource_list_def core_bounds_def core_bound_def Let_def)
  then show ?thesis
    by (simp add: pure_compute_invoke_v3_tx_hash_def compute_invoke_v3_tx_hash_def pure_invoke_prefix_def
        invoke_prefix_def da_mode_def Let_def)
qed

lemma core_sign: "map_err core_error (map_ok core_signature (pure_sign X key h)) = sign X key h"
  by (cases "x_ecdsa_sign X key h (x_rfc6979_generate_k X h key)")
    (auto simp: pure_sign_def sign_def core_signature_def Let_def)

lemma core_sign_Inr: "pure_sign X key h = Inr sig \<Longrightarrow> sign X key h = Inr (core_signature sig)"
  using core_sign [of X key h] by simp

lemma core_payload:
  "map_err core_error (pure_sign_and_build_payload X p) = sign_and_build_payload X (core_params p)"
proof -
  define h where "h = pure_compute_invoke_v3_tx_hash X (psp_sender_address p) (psp_calldata p)
      (psp_chain_id p) (psp_nonce p) (x_zero X) (psp_resource_bounds p) [] [] 0 0 (psp_proof_facts p)"
  show ?thesis
    using core_sign [of X "psp_private_key p" h, symmetric]
    by (cases "pure_sign X (psp_private_key p) h")
      (simp_all add: pure_sign_and_build_payload_def sign_and_build_payload_def core_params_def
        core_of_pure h_def Let_def)
qed

theorem crates_agree:
  "map_err core_error (pure_sign_and_build_payload X p) = sign_and_build_payload X (core_params p) \<and>
   pure_compute_invoke_v3_tx_hash X sender cd cid nonce tip b pm dep nda fda facts =
     compute_invoke_v3_tx_hash X sender cd cid nonce tip (core_bounds b) pm dep nda fda facts \<and>
   map_err core_error (map_ok core_signature (pure_sign X key h)) = sign X key h \<and>
   pure_felt_from_hex X s = felt_from_hex X s \<and> pure_chain_id_felt X s = chain_id_felt X s \<and>
   core_bounds pure_default_bounds = default_bounds \<and> core_bounds pure_zero_fee = zero_fee"
  by (simp add: core_payload core_hash core_sign core_felts core_presets)

end
