(* ===== verification/Pure_Builder.thy ===== *)
theory Pure_Builder
  imports Core_Config Pure_Signing
begin

text \<open>
  The browser-side library: the JSON builders of \<open>crates/snip36-pure/src/signing.rs\<close>, the bundle of
  \<open>crates/snip36-pure/src/lib.rs\<close>, the bindings of \<open>crates/snip36-wasm/src/lib.rs\<close> and the prover of
  \<open>crates/snip36-browser-prover-wasm/src/lib.rs\<close>. The hash and the
  signature of that crate are in theory \<open>Pure_Signing\<close>. The lemmas say which string a builder refuses, that signed and
  unsigned builders agree, and what a bundle holds.
\<close>

section \<open>Builders\<close>

definition felts_from_hex :: "('f, 'x) ext_scheme \<Rightarrow> string list \<Rightarrow> string + 'f list" where
  "felts_from_hex X ss = collectR (map (pure_felt_from_hex X) ss)"

text \<open>The hash every builder computes: no tip, no paymaster, no deployment data, both modes on L1.\<close>

definition plain_hash ::
  "('f, 'x) ext_scheme \<Rightarrow> 'f \<Rightarrow> 'f list \<Rightarrow> 'f \<Rightarrow> 'f \<Rightarrow> pure_resource_bounds \<Rightarrow> 'f list \<Rightarrow> 'f"
where
  "plain_hash X sender calldata cid nonce bounds facts =
     pure_compute_invoke_v3_tx_hash X sender calldata cid nonce (x_zero X) bounds [] [] 0 0 facts"

definition build_transaction_from_json ::
  "('f, 'x) ext_scheme \<Rightarrow> snip36_transaction_input \<Rightarrow> string + tx_output"
where
  "build_transaction_from_json X i =
     bindR (pure_felt_from_hex X (ti_sender_address i)) (\<lambda>sender.
     bindR (pure_felt_from_hex X (ti_private_key i)) (\<lambda>private_key.
     bindR (felts_from_hex X (ti_calldata i)) (\<lambda>calldata.
     bindR (pure_felt_from_hex X (ti_nonce i)) (\<lambda>nonce.
     let bounds = unwrap_or (ti_resource_bounds i) pure_zero_fee;
         h = plain_hash X sender calldata (pure_chain_id_felt X (ti_chain_id i)) nonce bounds []
     in bindR (map_err pure_sign_error_display (pure_sign X private_key h)) (\<lambda>sig.
        Inr \<lparr>out_tx_hash = x_to_hex X h,
             out_json = pure_invoke_json (ti_sender_address i) (map (x_to_hex X) calldata) (x_to_hex X nonce) bounds
               (pure_sig_json X sig) []\<rparr>)))))"

definition build_unsigned_transaction_from_json ::
  "('f, 'x) ext_scheme \<Rightarrow> snip36_unsigned_transaction_input \<Rightarrow> string + tx_output"
where
  "build_unsigned_transaction_from_json X i =
     bindR (pure_felt_from_hex X (uti_sender_address i)) (\<lambda>sender.
     bindR (felts_from_hex X (uti_calldata i)) (\<lambda>calldata.
     bindR (pure_felt_from_hex X (uti_nonce i)) (\<lambda>nonce.
     let cid = pure_chain_id_felt X (uti_chain_id i);
         bounds = unwrap_or (uti_resource_bounds i) pure_zero_fee;
         h = plain_hash X sender calldata cid nonce bounds []
     in Inr \<lparr>out_tx_hash = x_to_hex X h,
             out_json = pure_invoke_json (uti_sender_address i) (map (x_to_hex X) calldata) (x_to_hex X nonce) bounds
               (JArr []) []\<rparr>)))"

definition build_payload_from_json ::
  "('f, 'x) ext_scheme \<Rightarrow> snip36_payload_input \<Rightarrow> string + tx_output"
where
  "build_payload_from_json X i =
     bindR (pure_felt_from_hex X (pi_sender_address i)) (\<lambda>sender.
     bindR (pure_felt_from_hex X (pi_private_key i)) (\<lambda>private_key.
     bindR (felts_from_hex X (pi_calldata i)) (\<lambda>calldata.
     bindR (felts_from_hex X (pi_proof_facts i)) (\<lambda>facts.
     bindR (pure_felt_from_hex X (pi_nonce i)) (\<lambda>nonce.
     let params = \<lparr>psp_sender_address = sender, psp_private_key = private_key, psp_calldata = calldata,
                   psp_proof_base64 = pi_proof_base64 i, psp_proof_facts = facts, psp_nonce = nonce,
                   psp_chain_id = pure_chain_id_felt X (pi_chain_id i),
                   psp_resource_bounds = unwrap_or (pi_resource_bounds i) pure_default_bounds\<rparr>
     in bindR (map_err pure_sign_error_display (pure_sign_and_build_payload X params)) (\<lambda>(h, payload).
        Inr \<lparr>out_tx_hash = x_to_hex X h, out_json = payload\<rparr>))))))"

definition build_unsigned_payload_from_json ::
  "('f, 'x) ext_scheme \<Rightarrow> snip36_unsigned_payload_input \<Rightarrow> string + tx_output"
where
  "build_unsigned_payload_from_json X i =
     bindR (pure_felt_from_hex X (upi_sender_address i)) (\<lambda>sender.
     bindR (felts_from_hex X (upi_calldata i)) (\<lambda>calldata.
     bindR (felts_from_hex X (upi_proof_facts i)) (\<lambda>facts.
     bindR (pure_felt_from_hex X (upi_nonce i)) (\<lambda>nonce.
     let cid = pure_chain_id_felt X (upi_chain_id i);
         bounds = unwrap_or (upi_resource_bounds i) pure_default_bounds;
         h = plain_hash X sender calldata cid nonce bounds facts
     in Inr \<lparr>out_tx_hash = x_to_hex X h,
             out_json = pure_invoke_json (x_to_hex X sender) (map (x_to_hex X) calldata) (x_to_hex X nonce) bounds
               (JArr []) [(''proof'', JStr (upi_proof_base64 i)), (''proof_facts'', jstrs (map (x_to_hex X) facts))]\<rparr>))))"

section \<open>Bundles\<close>

definition messages_json :: "json \<Rightarrow> json" where
  "messages_json messages = JObj [(''l2_to_l1_messages'', messages)]"

text \<open>A bundle from the fields of a proving result, as both crates build it.\<close>

definition bundle_of_result ::
  "snip36_proof_artifact \<Rightarrow> string option \<Rightarrow> json \<Rightarrow> string list \<Rightarrow> snip36_proof_bundle"
where
  "bundle_of_result artifact payload result facts =
     (let proof_b64 = jget_str ''proof'' result;
          messages = map_option messages_json (jget ''l2_to_l1_messages'' result)
      in \<lparr>bun_artifact = artifact\<lparr>art_execution_payload := payload,
                                art_proof_facts_preimage := (if facts = [] then None else Some facts),
                                art_raw_messages := messages\<rparr>,
          bun_proof_base64 = proof_b64, bun_proof_facts = facts, bun_raw_messages = messages,
          bun_proof_size = map_option (\<lambda>s. word_of_nat (length s)) proof_b64\<rparr>)"

definition bundle_from_execution_payload ::
  "('f, 'x) ext_scheme \<Rightarrow> snip36_proof_artifact \<Rightarrow> string + snip36_proof_bundle"
where
  "bundle_from_execution_payload X artifact =
     bindR (ok_or ''artifact.execution_payload is missing'' (art_execution_payload artifact)) (\<lambda>payload.
     bindR (map_err (\<lambda>e. ''invalid execution payload json: '' @ e) (x_json_parse X payload)) (\<lambda>result.
     bindR (case jget ''proof_facts'' result of
              Some v \<Rightarrow> map_err (\<lambda>e. ''invalid proof_facts: '' @ e) (x_vec_string X v)
            | None \<Rightarrow> Inr []) (\<lambda>facts.
     Inr (bundle_of_result artifact (art_execution_payload artifact) result facts))))"

section \<open>Which strings a builder refuses\<close>

definition refused :: "('f, 'x) ext_scheme \<Rightarrow> string list \<Rightarrow> string option" where
  "refused X ss = List.find (\<lambda>s. \<not> is_ok (pure_felt_from_hex X s)) ss"

lemma felt_error: "\<not> is_ok (pure_felt_from_hex X s) \<Longrightarrow> \<exists>e. pure_felt_from_hex X s = Inl e"
  by (cases "pure_felt_from_hex X s") auto

lemma find_append: "List.find p (xs @ ys) = (case List.find p xs of None \<Rightarrow> List.find p ys | Some x \<Rightarrow> Some x)"
  by (induction xs) auto

lemma felts_from_hex_refused:
  "case refused X ss of
     None \<Rightarrow> \<exists>fs. felts_from_hex X ss = Inr fs \<and> map (pure_felt_from_hex X) ss = map Inr fs
   | Some s \<Rightarrow> \<exists>e. felts_from_hex X ss = Inl e \<and> pure_felt_from_hex X s = Inl e"
proof (induction ss)
  case (Cons s ss)
  then show ?case
    by (cases "pure_felt_from_hex X s"; cases "refused X ss")
      (auto simp: refused_def felts_from_hex_def intro: exI [of _ "a # b" for a b])
qed (simp add: refused_def felts_from_hex_def)

lemma felt_from_hex_refused:
  "case refused X [s] of None \<Rightarrow> \<exists>f. pure_felt_from_hex X s = Inr f | Some t \<Rightarrow> t = s \<and> (\<exists>e. pure_felt_from_hex X s = Inl e)"
  by (cases "pure_felt_from_hex X s") (auto simp: refused_def)

lemma refused_append: "refused X (ss @ ts) = (case refused X ss of None \<Rightarrow> refused X ts | Some s \<Rightarrow> Some s)"
  by (simp add: refused_def find_append split: option.split)

lemma refused_Cons: "refused X (s # ts) = (case refused X [s] of None \<Rightarrow> refused X ts | Some t \<Rightarrow> Some t)"
  using refused_append [of X "[s]" ts] by simp

lemma bind_felt_refused:
  assumes "\<And>f. pure_felt_from_hex X s = Inr f \<Longrightarrow> case refused X ts of Some t \<Rightarrow> \<exists>e. k f = Inl e \<and> pure_felt_from_hex X t = Inl e | None \<Rightarrow> Q"
  shows "case refused X (s # ts) of Some t \<Rightarrow> \<exists>e. bindR (pure_felt_from_hex X s) k = Inl e \<and> pure_felt_from_hex X t = Inl e | None \<Rightarrow> Q"
proof (cases "pure_felt_from_hex X s")
  case (Inr f)
  then have "refused X (s # ts) = refused X ts" by (simp add: refused_def)
  then show ?thesis using assms [OF Inr] by (simp only: Inr bindR.simps)
qed (simp add: refused_def)

lemma bind_felts_refused:
  assumes "\<And>fs. felts_from_hex X ss = Inr fs \<Longrightarrow> case refused X ts of Some t \<Rightarrow> \<exists>e. k fs = Inl e \<and> pure_felt_from_hex X t = Inl e | None \<Rightarrow> Q"
  shows "case refused X (ss @ ts) of Some t \<Rightarrow> \<exists>e. bindR (felts_from_hex X ss) k = Inl e \<and> pure_felt_from_hex X t = Inl e | None \<Rightarrow> Q"
proof (cases "refused X ss")
  case None
  then obtain fs where fs: "felts_from_hex X ss = Inr fs" using felts_from_hex_refused [of X ss] by auto
  have "refused X (ss @ ts) = refused X ts" by (simp add: refused_append None)
  then show ?thesis using assms [OF fs] by (simp only: fs bindR.simps)
next
  case (Some s)
  then show ?thesis using felts_from_hex_refused [of X ss] by (auto simp: refused_append)
qed

theorem payload_builder_refuses_first:
  "case refused X (pi_sender_address i # pi_private_key i # pi_calldata i @ pi_proof_facts i @ [pi_nonce i]) of
     Some s \<Rightarrow> \<exists>e. build_payload_from_json X i = Inl e \<and> pure_felt_from_hex X s = Inl e
   | None \<Rightarrow> True"
  unfolding build_payload_from_json_def
  by (intro bind_felt_refused bind_felts_refused) (simp add: refused_def)

section \<open>Signed and unsigned\<close>

definition without_key :: "snip36_payload_input \<Rightarrow> snip36_unsigned_payload_input" where
  "without_key i =
     \<lparr>upi_sender_address = pi_sender_address i, upi_calldata = pi_calldata i, upi_proof_base64 = pi_proof_base64 i,
      upi_proof_facts = pi_proof_facts i, upi_nonce = pi_nonce i, upi_chain_id = pi_chain_id i,
      upi_resource_bounds = pi_resource_bounds i\<rparr>"

fun put_signature :: "json \<Rightarrow> json \<Rightarrow> json" where
  "put_signature sig (JObj kvs) = JObj (AList.update ''signature'' sig kvs)"
| "put_signature sig v = v"

lemma put_signature_invoke:
  "put_signature s (pure_invoke_json sender cd nonce bounds s' extra) = pure_invoke_json sender cd nonce bounds s extra"
  by (simp add: pure_invoke_json_def)

text \<open>Signing what the unsigned builder returns: the hash is the same and only the signature is filled in.\<close>

lemmas builder_defs =
  build_payload_from_json_def build_unsigned_payload_from_json_def build_transaction_from_json_def
  build_unsigned_transaction_from_json_def pure_sign_and_build_payload_def

text \<open>C38. A signed payload is the unsigned payload of the same input with the signature filled in: the hashes are equal, every other entry is the same, and the signature is that of the hash under the given key.\<close>
theorem signed_payload_extends_unsigned:
  assumes "build_payload_from_json X i = Inr s"
  shows "\<exists>u key h sig. build_unsigned_payload_from_json X (without_key i) = Inr u \<and>
     pure_felt_from_hex X (pi_private_key i) = Inr key \<and> pure_sign X key h = Inr sig \<and> out_tx_hash u = x_to_hex X h \<and>
     out_tx_hash s = out_tx_hash u \<and> out_json s = put_signature (pure_sig_json X sig) (out_json u)"
  using assms
  by (auto simp: builder_defs without_key_def Let_def bindR_Inr_iff plain_hash_def put_signature_invoke) blast

lemma signed_transaction_extends_unsigned:
  assumes "build_transaction_from_json X i = Inr s"
  shows "\<exists>u key h sig. build_unsigned_transaction_from_json X
       \<lparr>uti_sender_address = ti_sender_address i, uti_calldata = ti_calldata i, uti_nonce = ti_nonce i,
        uti_chain_id = ti_chain_id i, uti_resource_bounds = ti_resource_bounds i\<rparr> = Inr u \<and>
     pure_felt_from_hex X (ti_private_key i) = Inr key \<and> pure_sign X key h = Inr sig \<and> out_tx_hash u = x_to_hex X h \<and>
     out_tx_hash s = out_tx_hash u \<and> out_json s = put_signature (pure_sig_json X sig) (out_json u)"
  using assms
  by (auto simp: builder_defs Let_def bindR_Inr_iff put_signature_invoke) blast

definition sample_payload_input :: snip36_payload_input where
  "sample_payload_input =
     \<lparr>pi_sender_address = ''0x1a'', pi_private_key = ''0x5'', pi_calldata = [''0x1''], pi_proof_base64 = ''cHJvb2Y='',
      pi_proof_facts = [''0x7''], pi_nonce = ''0x0'', pi_chain_id = ''SN_SEPOLIA'', pi_resource_bounds = None\<rparr>"

lemma sample_payload: "is_ok (build_payload_from_json ref_ext sample_payload_input)"
proof -
  have "ref_from_hex ''0x1a'' = Inr 26" "ref_from_hex ''0x5'' = Inr 5" "ref_from_hex ''0x1'' = Inr 1"
    "ref_from_hex ''0x7'' = Inr 7" "ref_from_hex ''0x0'' = Inr 0" by code_simp+
  then show ?thesis
    by (simp add: builder_defs sample_payload_input_def felts_from_hex_def pure_felt_from_hex_def Let_def pure_sign_def)
      (simp add: ref_ext_def builder_defs felts_from_hex_def pure_felt_from_hex_def Let_def pure_sign_def)
qed

theorem signed_payload_extends_unsigned_witness:
  "\<exists>s u sig. build_payload_from_json ref_ext sample_payload_input = Inr s \<and>
     build_unsigned_payload_from_json ref_ext (without_key sample_payload_input) = Inr u \<and>
     out_json s = put_signature sig (out_json u)"
proof -
  obtain s where "build_payload_from_json ref_ext sample_payload_input = Inr s"
    using sample_payload by (auto simp: is_ok_iff)
  with signed_payload_extends_unsigned [OF this] show ?thesis by blast
qed

section \<open>A built payload read back\<close>

lemma felts_from_hex_Inr: "felts_from_hex X ss = Inr fs \<longleftrightarrow> map (felt_from_hex X) ss = map Inr fs"
  by (simp add: felts_from_hex_def core_felts collectR_Inr_iff)

text \<open>C37. The payload the builder of the pure crate makes from its JSON input, read back by the fields, is the transaction of the input: every felt of the input, the bounds given or the defaults, the hash of the core crate and the signature of that hash under the given key.\<close>
theorem built_payload_reads_back:
  assumes hex: "hex_laws X" and built: "build_payload_from_json X i = Inr s"
  shows "\<exists>t key sig. read_tx X (chain_id_felt X (pi_chain_id i)) (out_json s) = Some t \<and>
     out_tx_hash s = x_to_hex X (tx_hash_of X t) \<and>
     felt_from_hex X (pi_sender_address i) = Inr (iv_sender t) \<and> felt_from_hex X (pi_nonce i) = Inr (iv_nonce t) \<and>
     map (felt_from_hex X) (pi_calldata i) = map Inr (iv_calldata t) \<and>
     map (felt_from_hex X) (pi_proof_facts i) = map Inr (iv_proof_facts t) \<and>
     iv_bounds t = (case pi_resource_bounds i of Some b \<Rightarrow> core_bounds b | None \<Rightarrow> default_bounds) \<and>
     felt_from_hex X (pi_private_key i) = Inr key \<and> sign X key (tx_hash_of X t) = Inr sig \<and>
     read_felts X ''signature'' (out_json s) = Some [sig_r sig, sig_s sig]"
proof -
  from built obtain sender key calldata facts nonce h j where
    parsed: "felt_from_hex X (pi_sender_address i) = Inr sender" "felt_from_hex X (pi_private_key i) = Inr key"
      "map (felt_from_hex X) (pi_calldata i) = map Inr calldata"
      "map (felt_from_hex X) (pi_proof_facts i) = map Inr facts" "felt_from_hex X (pi_nonce i) = Inr nonce"
    and payload: "pure_sign_and_build_payload X
       \<lparr>psp_sender_address = sender, psp_private_key = key, psp_calldata = calldata,
        psp_proof_base64 = pi_proof_base64 i, psp_proof_facts = facts, psp_nonce = nonce,
        psp_chain_id = pure_chain_id_felt X (pi_chain_id i),
        psp_resource_bounds = unwrap_or (pi_resource_bounds i) pure_default_bounds\<rparr> = Inr (h, j)"
    and s: "s = \<lparr>out_tx_hash = x_to_hex X h, out_json = j\<rparr>"
    by (auto simp: build_payload_from_json_def core_felts felts_from_hex_Inr bindR_Inr_iff Let_def)
  let ?b = "case pi_resource_bounds i of Some b \<Rightarrow> core_bounds b | None \<Rightarrow> default_bounds"
  let ?p = "\<lparr>sp_sender_address = sender, sp_private_key = key, sp_calldata = calldata,
        sp_proof_base64 = pi_proof_base64 i, sp_proof_facts = facts, sp_nonce = nonce,
        sp_chain_id = chain_id_felt X (pi_chain_id i), sp_resource_bounds = ?b\<rparr>"
  have b: "core_bounds (unwrap_or (pi_resource_bounds i) pure_default_bounds) = ?b"
    by (simp add: core_presets split: option.split)
  from payload have core: "sign_and_build_payload X ?p = Inr (h, j)"
    using core_payload [of X "\<lparr>psp_sender_address = sender, psp_private_key = key, psp_calldata = calldata,
        psp_proof_base64 = pi_proof_base64 i, psp_proof_facts = facts, psp_nonce = nonce,
        psp_chain_id = pure_chain_id_felt X (pi_chain_id i),
        psp_resource_bounds = unwrap_or (pi_resource_bounds i) pure_default_bounds\<rparr>"]
    by (simp add: core_params_def b core_felts)
  define t where "t = plain_tx X sender calldata (chain_id_felt X (pi_chain_id i)) nonce ?b facts"
  from core obtain sig where h: "h = tx_hash_of X t" and sig: "sign X key h = Inr sig"
    and j: "j = invoke_json (x_to_hex X sender) (map (x_to_hex X) calldata) (x_to_hex X nonce) ?b (sig_json X sig)
                  (proof_entries X (pi_proof_base64 i) facts)"
    by (auto simp: sign_and_build_payload_def Let_def result_simps t_def tx_hash_of_plain_tx proof_entries_def)
  have "read_tx X (chain_id_felt X (pi_chain_id i)) j = Some t"
    using hex unfolding j t_def by (intro read_tx_invoke_json) (auto simp: hex_laws_def)
  moreover have "read_felts X ''signature'' j = Some [sig_r sig, sig_s sig]"
    unfolding j by (rule read_signature_invoke_json [OF hex])
  ultimately show ?thesis using h sig parsed s by (auto simp: t_def plain_tx_def)
qed

theorem built_payload_reads_back_witness:
  "\<exists>s t. build_payload_from_json ref_ext sample_payload_input = Inr s \<and>
     read_tx ref_ext (chain_id_felt ref_ext ''SN_SEPOLIA'') (out_json s) = Some t \<and> iv_bounds t = default_bounds"
proof -
  obtain s where s: "build_payload_from_json ref_ext sample_payload_input = Inr s"
    using sample_payload by (auto simp: is_ok_iff)
  from built_payload_reads_back [OF ref_hex_laws s] s show ?thesis by (auto simp: sample_payload_input_def)
qed

section \<open>The bindings for the browser\<close>

text \<open>
  \<open>'j\<close> is a JavaScript value and \<open>'r\<close> a request; conversions between them and Rust values, and the
  calls of the browser, are parameters.
\<close>

record fetch_response =
  fr_ok :: bool
  fr_status :: nat

record ('j, 'r) wasm_ext =
  w_of_string :: "string \<Rightarrow> 'j"
  w_as_string :: "'j \<Rightarrow> string option"
  w_parse :: "string \<Rightarrow> string + 'j"
  w_artifact :: "'j \<Rightarrow> string + snip36_proof_artifact"
  w_bundle :: "'j \<Rightarrow> string + snip36_proof_bundle"
  w_transaction_input :: "'j \<Rightarrow> string + snip36_transaction_input"
  w_unsigned_transaction_input :: "'j \<Rightarrow> string + snip36_unsigned_transaction_input"
  w_payload_input :: "'j \<Rightarrow> string + snip36_payload_input"
  w_unsigned_payload_input :: "'j \<Rightarrow> string + snip36_unsigned_payload_input"
  w_artifact_text :: "snip36_proof_artifact \<Rightarrow> string + string"
  w_artifact_pretty :: "snip36_proof_artifact \<Rightarrow> string + string"
  w_bundle_text :: "snip36_proof_bundle \<Rightarrow> string + string"
  w_bundle_pretty :: "snip36_proof_bundle \<Rightarrow> string + string"
  w_output_text :: "tx_output \<Rightarrow> string + string"
  w_request :: "string \<Rightarrow> string \<Rightarrow> string \<Rightarrow> 'j + 'r"
  w_set_header :: "'r \<Rightarrow> string \<Rightarrow> string \<Rightarrow> 'j + 'r"
  w_window :: bool
  w_fetch :: "'r \<Rightarrow> 'j + 'j"
  w_as_response :: "'j \<Rightarrow> 'j + fetch_response"
  w_response_text :: "'j \<Rightarrow> 'j + 'j"

definition js_error :: "('j, 'r, 'x) wasm_ext_scheme \<Rightarrow> string \<Rightarrow> string + 'a \<Rightarrow> 'j + 'a" where
  "js_error B what = map_err (\<lambda>e. w_of_string B (what @ e))"

definition to_js_json :: "('j, 'r, 'x) wasm_ext_scheme \<Rightarrow> ('a \<Rightarrow> string + string) \<Rightarrow> 'a \<Rightarrow> 'j + 'j" where
  "to_js_json B ser v =
     bindR (js_error B ''json serialization failed: '' (ser v)) (\<lambda>text.
     js_error B ''js parse failed: '' (w_parse B text))"

definition normalize_artifact :: "('j, 'r, 'x) wasm_ext_scheme \<Rightarrow> 'j \<Rightarrow> 'j + 'j" where
  "normalize_artifact B js =
     bindR (js_error B ''invalid artifact: '' (w_artifact B js)) (to_js_json B (w_artifact_text B))"

definition bundle_from_artifact_payload ::
  "('f, 'y) ext_scheme \<Rightarrow> ('j, 'r, 'x) wasm_ext_scheme \<Rightarrow> 'j \<Rightarrow> 'j + 'j"
where
  "bundle_from_artifact_payload X B js =
     bindR (js_error B ''invalid artifact: '' (w_artifact B js)) (\<lambda>artifact.
     bindR (js_error B ''bundle reconstruction failed: '' (bundle_from_execution_payload X artifact))
       (to_js_json B (w_bundle_text B)))"

definition normalize_proof_bundle :: "('j, 'r, 'x) wasm_ext_scheme \<Rightarrow> 'j \<Rightarrow> 'j + 'j" where
  "normalize_proof_bundle B js =
     bindR (js_error B ''invalid proof bundle: '' (w_bundle B js)) (to_js_json B (w_bundle_text B))"

definition build_snip36_transaction where
  "build_snip36_transaction X B js =
     bindR (js_error B ''invalid transaction input: '' (w_transaction_input B js)) (\<lambda>i.
     bindR (js_error B ''transaction build failed: '' (build_transaction_from_json X i)) (to_js_json B (w_output_text B)))"

definition build_snip36_unsigned_transaction where
  "build_snip36_unsigned_transaction X B js =
     bindR (js_error B ''invalid unsigned transaction input: '' (w_unsigned_transaction_input B js)) (\<lambda>i.
     bindR (js_error B ''unsigned transaction build failed: '' (build_unsigned_transaction_from_json X i))
       (to_js_json B (w_output_text B)))"

definition build_snip36_payload where
  "build_snip36_payload X B js =
     bindR (js_error B ''invalid payload input: '' (w_payload_input B js)) (\<lambda>i.
     bindR (js_error B ''payload build failed: '' (build_payload_from_json X i)) (to_js_json B (w_output_text B)))"

definition build_snip36_unsigned_payload where
  "build_snip36_unsigned_payload X B js =
     bindR (js_error B ''invalid unsigned payload input: '' (w_unsigned_payload_input B js)) (\<lambda>i.
     bindR (js_error B ''unsigned payload build failed: '' (build_unsigned_payload_from_json X i))
       (to_js_json B (w_output_text B)))"

definition artifact_to_json :: "('j, 'r, 'x) wasm_ext_scheme \<Rightarrow> 'j \<Rightarrow> 'j + string" where
  "artifact_to_json B js =
     bindR (js_error B ''invalid artifact: '' (w_artifact B js)) (\<lambda>a.
     js_error B ''json serialization failed: '' (w_artifact_pretty B a))"

definition bundle_to_json :: "('j, 'r, 'x) wasm_ext_scheme \<Rightarrow> 'j \<Rightarrow> 'j + string" where
  "bundle_to_json B js =
     bindR (js_error B ''invalid proof bundle: '' (w_bundle B js)) (\<lambda>b.
     js_error B ''json serialization failed: '' (w_bundle_pretty B b))"

definition block_number_of_response ::
  "('f, 'y) ext_scheme \<Rightarrow> ('j, 'r, 'x) wasm_ext_scheme \<Rightarrow> fetch_response \<Rightarrow> string \<Rightarrow> 'j + u32"
where
  "block_number_of_response X B response text =
     bindR (map_err (\<lambda>e. w_of_string B (''invalid RPC response json: '' @ e @ ''; body='' @ text))
              (x_json_parse X text)) (\<lambda>v.
     if \<not> fr_ok response
     then Inl (w_of_string B (''RPC starknet_blockNumber failed: HTTP '' @ fmt_dec (fr_status response) @ '' '' @
                x_json_text X (unwrap_or (jget ''error'' v) (JStr text))))
     else case jget ''error'' v of
            Some e \<Rightarrow> Inl (w_of_string B (''RPC starknet_blockNumber error: '' @ x_json_text X e))
          | None \<Rightarrow>
              bindR (ok_or (w_of_string B (''missing numeric result in response: '' @ x_json_text X v))
                       (Option.bind (jget ''result'' v) as_u64)) (\<lambda>n.
              if unat n < 2 ^ 32 then Inr (ucast n)
              else Inl (w_of_string B (''block number out of u32 range: '' @ fmt_dec (unat n)))))"

definition fetch_latest_block_number ::
  "('f, 'y) ext_scheme \<Rightarrow> ('j, 'r, 'x) wasm_ext_scheme \<Rightarrow> string \<Rightarrow> 'j + u32"
where
  "fetch_latest_block_number X B rpc_url =
     (let payload = JObj [(''jsonrpc'', JStr ''2.0''), (''method'', JStr ''starknet_blockNumber''),
                          (''params'', JArr []), (''id'', JInt 1)]
      in bindR (w_request B rpc_url ''POST'' (x_json_text X payload)) (\<lambda>request0.
         bindR (w_set_header B request0 ''content-type'' ''application/json'') (\<lambda>request.
         if \<not> w_window B then Inl (w_of_string B ''window is not available'')
         else
           bindR (w_fetch B request) (\<lambda>response_value.
           bindR (w_as_response B response_value) (\<lambda>response.
           bindR (w_response_text B response_value) (\<lambda>text_value.
           bindR (ok_or (w_of_string B ''response text is not a string'') (w_as_string B text_value)) (\<lambda>text.
           block_number_of_response X B response text)))))))"

text \<open>The number returned is the one in the response, never a truncation of it.\<close>

lemma block_number_exact:
  assumes "block_number_of_response X B response text = Inr n"
  shows "fr_ok response \<and> (\<exists>v m. x_json_parse X text = Inr v \<and> jget ''error'' v = None \<and>
     Option.bind (jget ''result'' v) as_u64 = Some m \<and> unat n = unat m)"
  using assms
  by (auto simp: block_number_of_response_def bindR_Inr_iff unsigned_ucast_eq take_bit_nat_eq_self
      split: if_splits option.splits)

section \<open>Proving a Cairo PIE in the browser\<close>

record ('f, 'o) pie_ext =
  pe_pie_from_bytes :: "string \<Rightarrow> string + 'o"
  pe_precomputes :: "string + 'o"
  pe_prove :: "'o \<Rightarrow> 'o \<Rightarrow> string + string \<times> 'f list"

record cairo_pie_proof_input =
  cpi_cairo_pie_zip_base64 :: string

record cairo_pie_proof_output =
  cpo_proof_base64 :: string
  cpo_proof_facts :: "string list"

definition PROOF_VERSION_HEX :: string where "PROOF_VERSION_HEX = ''0x3025ec0''"
definition VIRTUAL_SNOS_HEX :: string where "VIRTUAL_SNOS_HEX = ''0x5649525455414c5f534e4f53''"

text \<open>The conversions of JavaScript values, with the text of the error they raise.\<close>

record 'v pie_js =
  pj_from_value :: "'v \<Rightarrow> string + cairo_pie_proof_input"
  pj_to_value :: "cairo_pie_proof_output \<Rightarrow> string + 'v"

text \<open>The facts of a program output: the two constants, then the output after its first two felts.\<close>

definition pie_proof_facts :: "('f, 'y) ext_scheme \<Rightarrow> 'f list \<Rightarrow> string + string list" where
  "pie_proof_facts X output_preimage =
     (if (case output_preimage of [] \<Rightarrow> None | f # _ \<Rightarrow> Some f) \<noteq> Some (x_one X)
      then Inl ''invalid program output: expected single task''
      else if length output_preimage < 3 then Inl ''invalid program output: too short''
      else
        bindR (map_err (\<lambda>e. ''invalid proof version const: '' @ e) (x_from_hex X PROOF_VERSION_HEX)) (\<lambda>proof_version.
        bindR (map_err (\<lambda>e. ''invalid virtual snos const: '' @ e) (x_from_hex X VIRTUAL_SNOS_HEX)) (\<lambda>virtual_snos.
        Inr ([x_to_hex X proof_version, x_to_hex X virtual_snos] @ map (x_to_hex X) (drop 2 output_preimage)))))"

text \<open>The bundle of a PIE, and the exported function around it.\<close>

definition cairo_pie_proof ::
  "('f, 'y) ext_scheme \<Rightarrow> ('f, 'o) pie_ext \<Rightarrow> cairo_pie_proof_input \<Rightarrow> string + cairo_pie_proof_output"
where
  "cairo_pie_proof X E input =
     bindR (map_err (\<lambda>e. ''invalid base64 pie: '' @ e) (x_b64_decode X (cpi_cairo_pie_zip_base64 input))) (\<lambda>bytes.
     bindR (map_err (\<lambda>e. ''invalid cairo pie zip: '' @ e) (pe_pie_from_bytes E bytes)) (\<lambda>cairo_pie.
     bindR (map_err (\<lambda>e. ''precompute failed: '' @ e) (pe_precomputes E)) (\<lambda>precomputes.
     bindR (map_err (\<lambda>e. ''prove failed: '' @ e) (pe_prove E cairo_pie precomputes)) (\<lambda>(proof_bytes, output_preimage).
     bindR (pie_proof_facts X output_preimage) (\<lambda>facts.
     Inr \<lparr>cpo_proof_base64 = x_b64_encode X proof_bytes, cpo_proof_facts = facts\<rparr>)))))"

definition prove_cairo_pie ::
  "('f, 'y) ext_scheme \<Rightarrow> ('f, 'o) pie_ext \<Rightarrow> 'v pie_js \<Rightarrow> 'v \<Rightarrow> string + 'v"
where
  "prove_cairo_pie X E J input_js =
     bindR (map_err (\<lambda>e. ''invalid cairo pie input: '' @ e) (pj_from_value J input_js)) (\<lambda>input.
     bindR (cairo_pie_proof X E input) (\<lambda>out.
     map_err (\<lambda>e. ''serialization failed: '' @ e) (pj_to_value J out)))"

text \<open>The facts read back are the constants and the output; the proof decodes to the prover's bytes.\<close>

text \<open>C39. What the browser prover returns reads back: the PIE of the input was proved, the proof decodes to the bytes of the prover, the facts are the version and program constants followed by the program output after its first two felts, and only a single-task output is accepted.\<close>
theorem browser_proof_facts:
  assumes "hex_laws X" and "base64_laws X" and "prove_cairo_pie X E J input_js = Inr output_js"
  shows "\<exists>input out archive cp pre version snos rest bytes.
     pj_from_value J input_js = Inr input \<and> pj_to_value J out = Inr output_js \<and>
     x_b64_decode X (cpi_cairo_pie_zip_base64 input) = Inr archive \<and> pe_pie_from_bytes E archive = Inr cp \<and> pe_precomputes E = Inr pre \<and>
     pe_prove E cp pre = Inr (bytes, x_one X # rest) \<and> x_b64_decode X (cpo_proof_base64 out) = Inr bytes \<and>
     x_from_hex X PROOF_VERSION_HEX = Inr version \<and> x_from_hex X VIRTUAL_SNOS_HEX = Inr snos \<and>
     map (x_from_hex X) (cpo_proof_facts out) = map Inr (version # snos # tl rest) \<and> 2 \<le> length rest"
proof -
  from assms(3) obtain input out where
    js: "pj_from_value J input_js = Inr input" "pj_to_value J out = Inr output_js" and run: "cairo_pie_proof X E input = Inr out"
    by (auto simp: prove_cairo_pie_def bindR_Inr_iff)
  from run obtain archive cp pre bytes outp version snos where
    run: "x_b64_decode X (cpi_cairo_pie_zip_base64 input) = Inr archive" "pe_pie_from_bytes E archive = Inr cp"
      "pe_precomputes E = Inr pre" "pe_prove E cp pre = Inr (bytes, outp)"
    and one: "(case outp of [] \<Rightarrow> None | f # _ \<Rightarrow> Some f) = Some (x_one X)"
    and long: "3 \<le> length outp" and c: "x_from_hex X PROOF_VERSION_HEX = Inr version" "x_from_hex X VIRTUAL_SNOS_HEX = Inr snos"
    and out: "out = \<lparr>cpo_proof_base64 = x_b64_encode X bytes,
       cpo_proof_facts = [x_to_hex X version, x_to_hex X snos] @ map (x_to_hex X) (drop 2 outp)\<rparr>"
    by (auto simp: cairo_pie_proof_def pie_proof_facts_def bindR_Inr_iff not_less split: if_splits)
  from one obtain rest where rest: "outp = x_one X # rest" by (cases outp) auto
  have hex: "x_from_hex X (x_to_hex X a) = Inr a" for a using assms(1) by (simp add: hex_laws_def)
  have "drop 2 outp = tl rest" by (simp add: rest drop_Suc numeral_2_eq_2)
  then have "map (x_from_hex X) (cpo_proof_facts out) = map Inr (version # snos # tl rest)"
    by (simp add: out hex comp_def)
  moreover have "x_b64_decode X (cpo_proof_base64 out) = Inr bytes" using assms(2) by (simp add: out base64_laws_def)
  moreover have "2 \<le> length rest" using long by (simp add: rest)
  ultimately show ?thesis using js run [unfolded rest] c by blast
qed

definition ref_pie_ext :: "(nat, unit) pie_ext" where
  "ref_pie_ext = \<lparr>pe_pie_from_bytes = (\<lambda>b. Inr ()), pe_precomputes = Inr (), pe_prove = (\<lambda>p q. Inr (''ab'', [1, 3, 9]))\<rparr>"

definition ref_pie_js :: "(string + cairo_pie_proof_output) pie_js" where
  "ref_pie_js = \<lparr>pj_from_value = (\<lambda>v. case v of Inl z \<Rightarrow> Inr \<lparr>cpi_cairo_pie_zip_base64 = z\<rparr> | Inr out \<Rightarrow> Inl ''missing field''),
     pj_to_value = (\<lambda>out. Inr (Inr out))\<rparr>"

lemma sample_prove_cairo_pie: "is_ok (prove_cairo_pie ref_ext ref_pie_ext ref_pie_js (Inl ''00''))"
proof -
  have parse: "x_from_hex ref_ext = ref_from_hex" "x_b64_decode ref_ext = hex_dec" "x_one ref_ext = 1"
    by (simp_all add: ref_ext_def)
  have "list_all (\<lambda>c. hex_val c \<noteq> None) (trim_start_0x PROOF_VERSION_HEX)"
    "list_all (\<lambda>c. hex_val c \<noteq> None) (trim_start_0x VIRTUAL_SNOS_HEX)"
    by code_simp+
  then have "is_ok (ref_from_hex PROOF_VERSION_HEX)" "is_ok (ref_from_hex VIRTUAL_SNOS_HEX)"
    by (simp_all only: ref_from_hex_ok)
  moreover have "is_ok (hex_dec ''00'')" by code_simp
  ultimately have ok: "is_ok (ref_from_hex PROOF_VERSION_HEX)" "is_ok (ref_from_hex VIRTUAL_SNOS_HEX)" "is_ok (hex_dec ''00'')"
    by this+
  from ok obtain v s bs where "ref_from_hex PROOF_VERSION_HEX = Inr v" "ref_from_hex VIRTUAL_SNOS_HEX = Inr s" "hex_dec ''00'' = Inr bs"
    by (auto simp only: is_ok_iff)
  then show ?thesis
    by (simp only: prove_cairo_pie_def cairo_pie_proof_def pie_proof_facts_def ref_pie_ext_def ref_pie_js_def parse pie_ext.simps) simp
qed

theorem browser_proof_facts_witness:
  "\<exists>out f. prove_cairo_pie ref_ext ref_pie_ext ref_pie_js (Inl ''00'') = Inr (Inr out) \<and> map (x_from_hex ref_ext) (cpo_proof_facts out) = map Inr f"
proof -
  obtain js where run: "prove_cairo_pie ref_ext ref_pie_ext ref_pie_js (Inl ''00'') = Inr js"
    using sample_prove_cairo_pie by (auto simp: is_ok_iff)
  from browser_proof_facts [OF ref_hex_laws ref_base64_laws run] obtain out f where
    "pj_to_value ref_pie_js out = Inr js" "map (x_from_hex ref_ext) (cpo_proof_facts out) = map Inr f" by blast
  with run show ?thesis by (auto simp: ref_pie_js_def)
qed

end
