(* ===== verification/Server_State.thy ===== *)
theory Server_State
  imports Rpc_Client Core_Config Proof_Codec
begin

text \<open>
  The shared state of the playground server, \<open>crates/snip36-server/src/state.rs\<close>, and what its
  handlers ask of the host. The world of a handler is the world of the RPC client with the shared
  state added; running a program, files, randomness and regular expressions are the record
  \<open>host_sys\<close>, indexed by the number of effects so far. Handlers touch the shared state in atomic
  accesses, with other requests in between. The interface of the session store is the
  locale \<open>session_store\<close>, interpreted on the two operations of the code.
\<close>

section \<open>The host\<close>

record process_output =
  pr_success :: bool
  pr_status :: string
  pr_stdout :: string
  pr_stderr :: string

text \<open>A child whose output is streamed: the lines as they arrive, and whether it exits successfully.\<close>

record child_run =
  ch_lines :: "string list"
  ch_success :: bool

record host_sys = sys +
  hs_env :: environment
  hs_output :: "nat \<Rightarrow> string \<Rightarrow> string list \<Rightarrow> string option \<Rightarrow> string + process_output"
  hs_child :: "nat \<Rightarrow> string \<Rightarrow> string list \<Rightarrow> (string \<times> string) list \<Rightarrow> string + child_run"
  hs_exists :: "nat \<Rightarrow> string \<Rightarrow> bool"
  hs_read :: "nat \<Rightarrow> string \<Rightarrow> string + string"
  hs_write :: "nat \<Rightarrow> string \<Rightarrow> string \<Rightarrow> string + unit"
  hs_mkdir :: "nat \<Rightarrow> string \<Rightarrow> string + unit"
  hs_size :: "nat \<Rightarrow> string \<Rightarrow> u64 option"
  hs_random_hex :: "nat \<Rightarrow> string"
  hs_uuid :: "nat \<Rightarrow> string"
  hs_gateway :: "nat \<Rightarrow> string \<Rightarrow> json \<Rightarrow> string + (string + json)"
  hs_exe_dir :: "string option"
  hs_regex_valid :: "string \<Rightarrow> bool"
  hs_regex_find :: "string \<Rightarrow> string \<Rightarrow> string option"
  hs_regex_group :: "string \<Rightarrow> string \<Rightarrow> string option"

section \<open>The state\<close>

record coinflip_deployment =
  cd_contract_address :: string
  cd_class_hash :: string
  cd_deploy_block :: u64

record bet_commitment =
  bc_commitment :: string
  bc_seed_block :: u64
  bc_player :: string

record app_state =
  as_config :: config
  as_rpc :: starknet_rpc
  as_sessions :: "string \<Rightarrow> session option"
  as_coinflip :: "coinflip_deployment option"
  as_commitments :: "string \<Rightarrow> bet_commitment option"

text \<open>
  A request is served while others change the state: \<open>aw_others\<close> is what they do to it before each
  of its next accesses, and \<open>aw_trace\<close> keeps the state before and after each access it has made. A
  request that is served alone has an empty list of others.
\<close>

type_synonym access = "app_state \<times> app_state"

record app_world = world +
  aw_state :: app_state
  aw_others :: "(app_state \<Rightarrow> app_state) list"
  aw_trace :: "access list"

definition app_state_new :: "config \<Rightarrow> app_state" where
  "app_state_new c =
     \<lparr>as_config = c, as_rpc = rpc_new (cfg_rpc_url c), as_sessions = Map.empty, as_coinflip = None,
      as_commitments = Map.empty\<rparr>"

definition or_default_session :: "session option \<Rightarrow> session" where
  "or_default_session s = (case s of Some s \<Rightarrow> s | None \<Rightarrow> default_session)"

text \<open>Reading a session creates it.\<close>

definition get_session :: "string \<Rightarrow> app_state \<Rightarrow> session \<times> app_state" where
  "get_session session_id st =
     (let s = or_default_session (as_sessions st session_id)
      in (s, st\<lparr>as_sessions := (as_sessions st)(session_id \<mapsto> s)\<rparr>))"

definition update_session_with :: "string \<Rightarrow> (session \<Rightarrow> session) \<Rightarrow> app_state \<Rightarrow> app_state" where
  "update_session_with session_id f st =
     st\<lparr>as_sessions := (as_sessions st)(session_id \<mapsto> f (or_default_session (as_sessions st session_id)))\<rparr>"

section \<open>The interface of the session store\<close>

definition session_at :: "string \<Rightarrow> app_state \<Rightarrow> session" where
  "session_at i st = fst (get_session i st)"

locale session_store =
  fixes get :: "'i \<Rightarrow> 's \<Rightarrow> 'v \<times> 's"
    and upd :: "'i \<Rightarrow> ('v \<Rightarrow> 'v) \<Rightarrow> 's \<Rightarrow> 's"
  assumes get_after_upd: "fst (get i (upd j f s)) = (if i = j then f (fst (get j s)) else fst (get i s))"
    and get_after_get: "fst (get i (snd (get j s))) = fst (get i s)"
begin

lemma upd_upd: "fst (get i (upd j g (upd j f s))) = fst (get i (upd j (g \<circ> f) s))"
  by (simp add: get_after_upd)

lemma upd_commute: "j \<noteq> k \<Longrightarrow> fst (get i (upd j f (upd k g s))) = fst (get i (upd k g (upd j f s)))"
  by (simp add: get_after_upd)

text \<open>Any number of reads and updates of one key leaves the other keys alone.\<close>

lemma folded_upd_other:
  "i \<noteq> j \<Longrightarrow> fst (get i (fold (\<lambda>f s. upd j f (snd (get j s))) fs s)) = fst (get i s)"
  by (induction fs arbitrary: s) (simp_all add: get_after_upd get_after_get)

lemma folded_upd_same:
  "fst (get j (fold (\<lambda>f s. upd j f (snd (get j s))) fs s)) = fold (\<lambda>f v. f v) fs (fst (get j s))"
  by (induction fs arbitrary: s) (simp_all add: get_after_upd get_after_get)

end

interpretation app_sessions: session_store get_session update_session_with
  by unfold_locales (simp_all add: get_session_def update_session_with_def or_default_session_def Let_def split: option.split)

lemma session_at_update [simp]:
  "session_at i (update_session_with j f st) = (if i = j then f (session_at j st) else session_at i st)"
  by (simp add: session_at_def app_sessions.get_after_upd)

lemma session_at_get [simp]: "session_at i (snd (get_session j st)) = session_at i st"
  by (simp add: session_at_def app_sessions.get_after_get)

lemma store_keeps_rest [simp]:
  "as_config (update_session_with i f st) = as_config st" "as_rpc (update_session_with i f st) = as_rpc st"
  "as_coinflip (update_session_with i f st) = as_coinflip st"
  "as_commitments (update_session_with i f st) = as_commitments st"
  "as_config (snd (get_session i st)) = as_config st" "as_rpc (snd (get_session i st)) = as_rpc st"
  "as_coinflip (snd (get_session i st)) = as_coinflip st" "as_commitments (snd (get_session i st)) = as_commitments st"
  by (simp_all add: update_session_with_def get_session_def Let_def)

section \<open>Effects of a handler\<close>

type_synonym ('e, 'a) handler = "app_world \<Rightarrow> ('e + 'a) \<times> app_world"

definition step_world :: "effect list \<Rightarrow> app_world \<Rightarrow> app_world" where
  "step_world es w = w\<lparr>tick := Suc (tick w), effs := effs w @ es\<rparr>"

definition do_output :: "host_sys \<Rightarrow> string \<Rightarrow> string list \<Rightarrow> string option \<Rightarrow> (string, process_output) handler" where
  "do_output H prog args cwd w = (hs_output H (tick w) prog args cwd, step_world [EExec prog args] w)"

definition do_child :: "host_sys \<Rightarrow> string \<Rightarrow> string list \<Rightarrow> (string \<times> string) list \<Rightarrow> (string, child_run) handler" where
  "do_child H prog args env w = (hs_child H (tick w) prog args env, step_world [EExec prog args] w)"

definition do_read :: "host_sys \<Rightarrow> string \<Rightarrow> (string, string) handler" where
  "do_read H path w = (hs_read H (tick w) path, step_world [] w)"

definition do_write :: "host_sys \<Rightarrow> string \<Rightarrow> string \<Rightarrow> (string, unit) handler" where
  "do_write H path contents w = (hs_write H (tick w) path contents, step_world [EWrite path contents] w)"

definition do_mkdir :: "host_sys \<Rightarrow> string \<Rightarrow> (string, unit) handler" where
  "do_mkdir H path w = (hs_mkdir H (tick w) path, step_world [] w)"

definition do_exists :: "host_sys \<Rightarrow> string \<Rightarrow> ('e, bool) handler" where
  "do_exists H path w = (Inr (hs_exists H (tick w) path), step_world [] w)"

definition do_size :: "host_sys \<Rightarrow> string \<Rightarrow> ('e, u64) handler" where
  "do_size H path w = (Inr (unwrap_or (hs_size H (tick w) path) 0), step_world [] w)"

definition do_random_hex :: "host_sys \<Rightarrow> ('e, string) handler" where
  "do_random_hex H w = (Inr (hs_random_hex H (tick w)), step_world [] w)"

definition do_uuid :: "host_sys \<Rightarrow> ('e, string) handler" where
  "do_uuid H w = (Inr (hs_uuid H (tick w)), step_world [] w)"

definition send :: "string \<Rightarrow> string \<Rightarrow> ('e, unit) handler" where
  "send event data w = (Inr (), step_world [ESse event data] w)"

definition sleepW :: "host_sys \<Rightarrow> nat \<Rightarrow> ('e, unit) handler" where
  "sleepW H secs w = (Inr (), do_sleep H secs w)"

text \<open>The configuration and the RPC client are plain fields that no lock protects and nobody changes.\<close>

definition askW :: "(app_state \<Rightarrow> 'a) \<Rightarrow> ('e, 'a) handler" where
  "askW f w = (Inr (f (aw_state w)), w)"

text \<open>The state an access finds, and what is left of the world after it.\<close>

definition found :: "(app_state \<Rightarrow> app_state) list \<Rightarrow> app_state \<Rightarrow> app_state" where
  "found gs st = (case gs of [] \<Rightarrow> st | g # _ \<Rightarrow> g st)"

definition seen :: "app_world \<Rightarrow> app_state" where
  "seen w = found (aw_others w) (aw_state w)"

definition after_access :: "(app_state \<Rightarrow> app_state) \<Rightarrow> app_world \<Rightarrow> app_world" where
  "after_access f w =
     w\<lparr>aw_state := f (seen w), aw_others := tl (aw_others w), aw_trace := aw_trace w @ [(seen w, f (seen w))]\<rparr>"

text \<open>An atomic access: under one lock, a map entry or the guard of the deployment.\<close>

definition stateW :: "(app_state \<Rightarrow> 'a \<times> app_state) \<Rightarrow> ('e, 'a) handler" where
  "stateW f w = (Inr (fst (f (seen w))), after_access (\<lambda>st. snd (f st)) w)"

definition readW :: "(app_state \<Rightarrow> 'a) \<Rightarrow> ('e, 'a) handler" where
  "readW f w = (Inr (f (seen w)), after_access (\<lambda>st. st) w)"

definition modifyW :: "(app_state \<Rightarrow> app_state) \<Rightarrow> ('e, unit) handler" where
  "modifyW f w = (Inr (), after_access f w)"

lemma after_access_simps [simp]:
  "aw_state (after_access f w) = f (seen w)" "aw_others (after_access f w) = tl (aw_others w)"
  "aw_trace (after_access f w) = aw_trace w @ [(seen w, f (seen w))]"
  "effs (after_access f w) = effs w" "clk (after_access f w) = clk w" "tick (after_access f w) = tick w"
  by (simp_all add: after_access_def)

lemma seen_alone [simp]: "aw_others w = [] \<Longrightarrow> seen w = aw_state w"
  by (simp add: seen_def found_def)

text \<open>A result that the code drops with \<open>let _ =\<close>, and one it matches on.\<close>

definition ignoreW :: "('d, 'a) handler \<Rightarrow> ('e, unit) handler" where
  "ignoreW m w = (Inr (), snd (m w))"

definition tryW :: "('d, 'a) handler \<Rightarrow> ('e, 'd + 'a) handler" where
  "tryW m w = (Inr (fst (m w)), snd (m w))"

fun forW :: "('a \<Rightarrow> ('e, unit) handler) \<Rightarrow> 'a list \<Rightarrow> ('e, unit) handler" where
  "forW f [] = returnW ()"
| "forW f (x # xs) = bindW (f x) (\<lambda>_. forW f xs)"

section \<open>Answers\<close>

type_synonym api_error = "nat \<times> json"

definition error_response :: "nat \<Rightarrow> string \<Rightarrow> api_error" where
  "error_response status detail = (status, JObj [(''detail'', JStr detail)])"

abbreviation "BAD_REQUEST \<equiv> 400 :: nat"
abbreviation "INTERNAL_SERVER_ERROR \<equiv> 500 :: nat"
abbreviation "BAD_GATEWAY \<equiv> 502 :: nat"
abbreviation "GATEWAY_TIMEOUT \<equiv> 504 :: nat"

section \<open>Handlers whose accesses keep a relation\<close>

text \<open>
  A handler changes the shared state by its accesses only: each finds the state that the one before
  left, changed by the others. It keeps a relation when each of its accesses does, whatever the
  others do.
\<close>

fun follows :: "(app_state \<Rightarrow> app_state) list \<Rightarrow> app_state \<Rightarrow> access list \<Rightarrow> (app_state \<Rightarrow> app_state) list \<Rightarrow> app_state \<Rightarrow> bool" where
  "follows gs st [] gs' st' \<longleftrightarrow> gs' = gs \<and> st' = st"
| "follows gs st ((p, q) # es) gs' st' \<longleftrightarrow> p = found gs st \<and> follows (tl gs) q es gs' st'"

definition accesses :: "('e, 'a) handler \<Rightarrow> app_world \<Rightarrow> access list" where
  "accesses m w = drop (length (aw_trace w)) (aw_trace (snd (m w)))"

definition within :: "(app_state \<Rightarrow> app_state \<Rightarrow> bool) \<Rightarrow> ('e, 'a) handler \<Rightarrow> app_world \<Rightarrow> bool" where
  "within R m w \<longleftrightarrow>
     aw_trace (snd (m w)) = aw_trace w @ accesses m w \<and>
     follows (aw_others w) (aw_state w) (accesses m w) (aw_others (snd (m w))) (aw_state (snd (m w))) \<and>
     list_all (\<lambda>(st, st'). R st st') (accesses m w)"

definition keeps :: "(app_state \<Rightarrow> app_state \<Rightarrow> bool) \<Rightarrow> ('e, 'a) handler \<Rightarrow> bool" where
  "keeps R m \<longleftrightarrow> (\<forall>w. within R m w)"

named_theorems keeps_intros \<open>handlers whose accesses keep a relation on the shared state\<close>

lemma follows_append:
  "follows gs st (es @ fs) gs' st' \<longleftrightarrow> (\<exists>gs1 st1. follows gs st es gs1 st1 \<and> follows gs1 st1 fs gs' st')"
proof (induction es arbitrary: gs st)
  case (Cons e es)
  then show ?case by (cases e) auto
qed simp

lemma withinI:
  assumes "m w = (r, v)" "aw_trace v = aw_trace w @ es" "follows (aw_others w) (aw_state w) es (aw_others v) (aw_state v)"
    and "list_all (\<lambda>(st, st'). R st st') es"
  shows "within R m w"
  using assms by (simp add: within_def accesses_def)

lemma keepsE:
  assumes "keeps R m" "m w = (r, v)"
  obtains es where "aw_trace v = aw_trace w @ es" "follows (aw_others w) (aw_state w) es (aw_others v) (aw_state v)"
    "list_all (\<lambda>(st, st'). R st st') es" "accesses m w = es"
  using assms unfolding keeps_def within_def by (metis snd_conv)

lemma keeps_bindW [keeps_intros]:
  assumes "keeps R m" and "\<And>x. keeps R (k x)"
  shows "keeps R (bindW m k)"
  unfolding keeps_def
proof
  fix w
  obtain r v where m: "m w = (r, v)" by force
  obtain es where es: "aw_trace v = aw_trace w @ es" "follows (aw_others w) (aw_state w) es (aw_others v) (aw_state v)"
    "list_all (\<lambda>(st, st'). R st st') es" using keepsE [OF assms(1) m] by blast
  show "within R (bindW m k) w"
  proof (cases r)
    case (Inl e)
    then show ?thesis using es m by (intro withinI [OF _ es]) (simp add: bindW_def)
  next
    case (Inr x)
    obtain q u where k: "k x v = (q, u)" by force
    obtain fs where fs: "aw_trace u = aw_trace v @ fs" "follows (aw_others v) (aw_state v) fs (aw_others u) (aw_state u)"
      "list_all (\<lambda>(st, st'). R st st') fs" using keepsE [OF assms(2) k] by blast
    show ?thesis
    proof (rule withinI [where es = "es @ fs"])
      show "bindW m k w = (q, u)" using m k Inr by (simp add: bindW_def)
      show "follows (aw_others w) (aw_state w) (es @ fs) (aw_others u) (aw_state u)"
        using es(2) fs(2) by (auto simp: follows_append)
    qed (use es fs in simp_all)
  qed
qed

definition shared :: "app_world \<Rightarrow> app_state \<times> (app_state \<Rightarrow> app_state) list \<times> access list" where
  "shared w = (aw_state w, aw_others w, aw_trace w)"

text \<open>Two handlers that leave the same shared state make the same accesses.\<close>

lemma keeps_snd: "keeps R m \<Longrightarrow> (\<And>w. shared (snd (n w)) = shared (snd (m w))) \<Longrightarrow> keeps R n"
  by (simp add: keeps_def within_def accesses_def shared_def)

lemma keeps_map_errW [keeps_intros]: "keeps R m \<Longrightarrow> keeps R (map_errW f m)"
  and keeps_ignoreW [keeps_intros]: "keeps R m \<Longrightarrow> keeps R (ignoreW m)"
  and keeps_tryW [keeps_intros]: "keeps R m \<Longrightarrow> keeps R (tryW m)"
  by (erule keeps_snd; simp add: map_errW_def ignoreW_def tryW_def split_beta)+

lemma keeps_mono: "keeps R m \<Longrightarrow> (\<And>st st'. R st st' \<Longrightarrow> R' st st') \<Longrightarrow> keeps R' m"
  by (fastforce simp: keeps_def within_def list_all_iff)

text \<open>Steps that leave the shared state alone.\<close>

lemma keeps_shared: "(\<And>w. shared (snd (m w)) = shared w) \<Longrightarrow> keeps R m"
  by (simp add: keeps_def within_def accesses_def shared_def)

lemma shared_steps [simp]:
  "shared (step_world es w) = shared w" "shared (do_sleep S n w) = shared w" "shared (snd (do_http S url body w)) = shared w"
  "shared (snd (call S X rpc meth params w)) = shared w"
  by (simp_all add: shared_def step_world_def do_sleep_def do_http_def call_world)

lemma keeps_stateless [keeps_intros]:
  "keeps R (returnW x)" "keeps R (throwW e)" "keeps R (liftW r)" "keeps R (askW f)" "keeps R (send ev d)"
  "keeps R (sleepW H n)" "keeps R (do_output H prog args cwd)" "keeps R (do_child H prog args env)" "keeps R (do_read H path)"
  "keeps R (do_write H path contents)" "keeps R (do_mkdir H path)" "keeps R (do_exists H path)" "keeps R (do_size H path)"
  "keeps R (do_random_hex H)" "keeps R (do_uuid H)"
  by (rule keeps_shared; simp add: returnW_def throwW_def liftW_def askW_def send_def sleepW_def do_output_def do_child_def
      do_read_def do_write_def do_mkdir_def do_exists_def do_size_def do_random_hex_def do_uuid_def)+

text \<open>An access keeps a relation when its function does.\<close>

lemma keeps_modifyW: "(\<And>st. R st (f st)) \<Longrightarrow> keeps R (modifyW f)"
  and keeps_stateW: "(\<And>st. R st (snd (g st))) \<Longrightarrow> keeps R (stateW g)"
  and keeps_readW: "(\<And>st. R st st) \<Longrightarrow> keeps R (readW h)"
  by (simp_all add: keeps_def within_def accesses_def modifyW_def stateW_def readW_def seen_def)

lemma keeps_forW [keeps_intros]: "(\<And>x. keeps R (f x)) \<Longrightarrow> keeps R (forW f xs)"
  by (induction xs) (simp_all add: keeps_intros)

lemma shared_wait_tx: "shared (snd (wait_for_tx_loop S X rpc h t p d w)) = shared w"
proof (induction S X rpc h t p d w rule: wait_for_tx_loop.induct)
  case (1 S X rpc h t p d w)
  obtain r w1 where g: "get_receipt S X rpc h w = (r, w1)" by fastforce
  then have "shared w1 = shared w" by (metis shared_steps(3) get_receipt_world snd_conv)
  then show ?case using 1 g
    by (simp add: wait_for_tx_loop.simps [of S X rpc h t p d w] split: option.split)
qed

lemma shared_wait_block: "shared (snd (wait_for_block_loop S X rpc b t p d w)) = shared w"
proof (induction S X rpc b t p d w rule: wait_for_block_loop.induct)
  case (1 S X rpc b t p d w)
  obtain r w1 where g: "rpc_block_number S X rpc w = (r, w1)" by fastforce
  then have "shared w1 = shared w" by (metis shared_steps(3) rpc_block_number_world snd_conv)
  then show ?case using 1 g
    by (simp add: wait_for_block_loop.simps [of S X rpc b t p d w] split: sum.split)
qed

lemma keeps_rpc [keeps_intros]:
  "keeps R (call S X rpc meth params)" "keeps R (call_raw S rpc payload)" "keeps R (wait_for_tx S X rpc h t p)"
  "keeps R (wait_for_block_after S X rpc b t p)" "keeps R (rpc_block_number S X rpc)"
  "keeps R (get_nonce_at_block S X rpc addr blk)" "keeps R (get_nonce S X rpc addr)"
  "keeps R (starknet_call S X rpc addr sel cd)" "keeps R (add_invoke_transaction S X rpc tx)"
proof -
  show c: "keeps R (call S X rpc meth params)" for meth params by (rule keeps_shared) simp
  show "keeps R (call_raw S rpc payload)"
    by (rule keeps_shared) (simp add: call_raw_def map_errW_def split_beta)
  show "keeps R (wait_for_tx S X rpc h t p)" "keeps R (wait_for_block_after S X rpc b t p)"
    by (rule keeps_shared; simp add: wait_for_tx_def wait_for_block_after_def shared_wait_tx shared_wait_block)+
  show n: "keeps R (get_nonce_at_block S X rpc addr blk)" for blk
    unfolding get_nonce_at_block_def by (intro keeps_intros c)
  have "shared (snd (get_nonce_at_block S X rpc addr blk w)) = shared w" for blk and w :: app_world
    by (simp add: get_nonce_at_block_def bindW_def liftW_def split_beta split: sum.split)
  then show "keeps R (get_nonce S X rpc addr)"
    by (intro keeps_shared) (simp add: get_nonce_def split: prod.split sum.split, metis snd_conv)
  show "keeps R (rpc_block_number S X rpc)" "keeps R (starknet_call S X rpc addr sel cd)"
    "keeps R (add_invoke_transaction S X rpc tx)"
    unfolding rpc_block_number_def starknet_call_def add_invoke_transaction_def by (intro keeps_intros c)+
qed

text \<open>Without an access the shared state stays as it is, whatever the others would do.\<close>

abbreviation untouched :: "('e, 'a) handler \<Rightarrow> bool" where
  "untouched m \<equiv> keeps (\<lambda>_ _. False) m"

lemma untouched_shared: "untouched m \<Longrightarrow> m w = (r, v) \<Longrightarrow> shared v = shared w"
proof (erule keepsE)
  fix es
  assume "aw_trace v = aw_trace w @ es" "follows (aw_others w) (aw_state w) es (aw_others v) (aw_state v)"
    "list_all (\<lambda>(st, st'). False) es"
  then show "shared v = shared w" by (cases es) (auto simp: shared_def)
qed

lemma untouched_keeps: "untouched m \<Longrightarrow> keeps R m"
  by (erule keeps_mono) simp

lemma shared_parts:
  "shared v = shared w \<longleftrightarrow> aw_state v = aw_state w \<and> aw_others v = aw_others w \<and> aw_trace v = aw_trace w"
  by (auto simp: shared_def)

lemma untouched_snd: "untouched m \<Longrightarrow> aw_state (snd (m w)) = aw_state w"
  using untouched_shared [of m w] by (metis prod.collapse shared_parts)

text \<open>
  From accesses to the state: what the others and the own accesses keep, the request keeps. Served
  alone, it keeps what its accesses keep.
\<close>

definition others_keep :: "(app_state \<Rightarrow> app_state \<Rightarrow> bool) \<Rightarrow> app_world \<Rightarrow> bool" where
  "others_keep R w \<longleftrightarrow> (\<forall>g\<in>set (aw_others w). \<forall>st. R st (g st))"

lemma follows_keep:
  assumes "reflp R" "transp R" "follows gs st es gs' st'" "\<forall>g\<in>set gs. \<forall>st. R st (g st)" "list_all (\<lambda>(p, q). R p q) es"
  shows "R st st' \<and> set gs' \<subseteq> set gs"
  using assms(3-5)
proof (induction gs st es gs' st' rule: follows.induct)
  case (1 gs st gs' st')
  then show ?case using assms(1) by (simp add: reflp_def)
next
  case (2 gs st p q es gs' st')
  have tl: "set (tl gs) \<subseteq> set gs" by (cases gs) auto
  then have "\<forall>g\<in>set (tl gs). \<forall>st. R st (g st)" using 2(3) by blast
  then have rest: "R q st' \<and> set gs' \<subseteq> set (tl gs)" "R p q" using 2 by simp_all
  moreover have "R st p" using 2 assms(1) by (auto simp: found_def reflp_def split: list.splits)
  ultimately show ?case using assms(2) tl by (blast dest: transpD)
qed

lemma keeps_rely:
  assumes "keeps R m" "reflp R" "transp R" "others_keep R w" "m w = (r, v)"
  shows "R (aw_state w) (aw_state v) \<and> others_keep R v"
proof -
  obtain es where "follows (aw_others w) (aw_state w) es (aw_others v) (aw_state v)" "list_all (\<lambda>(st, st'). R st st') es"
    using keepsE [OF assms(1,5)] by blast
  from follows_keep [OF assms(2,3) this(1) _ this(2)] assms(4) show ?thesis by (auto simp: others_keep_def)
qed

lemma keeps_alone:
  assumes "keeps R m" "reflp R" "transp R" "aw_others w = []" "m w = (r, v)"
  shows "R (aw_state w) (aw_state v) \<and> aw_others v = []"
proof -
  obtain es where es: "follows (aw_others w) (aw_state w) es (aw_others v) (aw_state v)" "list_all (\<lambda>(st, st'). R st st') es"
    using keepsE [OF assms(1,5)] by blast
  from follows_keep [OF assms(2,3) es(1) _ es(2)] assms(4) show ?thesis by simp
qed

section \<open>Handlers only add effects and move on in time\<close>

definition appends :: "('e, 'a) handler \<Rightarrow> bool" where
  "appends m \<longleftrightarrow> (\<forall>w. (\<exists>es. effs (snd (m w)) = effs w @ es) \<and> tick w \<le> tick (snd (m w)))"

named_theorems appends_intros \<open>handlers that only add effects and move on in time\<close>

lemma appendsD: "appends m \<Longrightarrow> m w = (r, w') \<Longrightarrow> \<exists>es. effs w' = effs w @ es"
  and appends_tick: "appends m \<Longrightarrow> m w = (r, w') \<Longrightarrow> tick w \<le> tick w'"
  unfolding appends_def by (metis snd_conv)+

lemma appends_bindW [appends_intros]:
  assumes "appends m" and "\<And>x. appends (k x)"
  shows "appends (bindW m k)"
  unfolding appends_def
proof
  fix w
  obtain r v where m: "m w = (r, v)" by force
  obtain es where es: "effs v = effs w @ es" "tick w \<le> tick v"
    using appendsD [OF assms(1) m] appends_tick [OF assms(1) m] by blast
  show "(\<exists>es. effs (snd (bindW m k w)) = effs w @ es) \<and> tick w \<le> tick (snd (bindW m k w))"
  proof (cases r)
    case (Inr x)
    obtain q u where k: "k x v = (q, u)" by force
    obtain fs where "effs u = effs v @ fs" "tick v \<le> tick u"
      using appendsD [OF assms(2) k] appends_tick [OF assms(2) k] by blast
    then show ?thesis using es m k Inr by (simp add: bindW_def)
  qed (use es m in \<open>simp add: bindW_def\<close>)
qed

lemma appends_map_errW [appends_intros]: "appends m \<Longrightarrow> appends (map_errW f m)"
  and appends_ignoreW [appends_intros]: "appends m \<Longrightarrow> appends (ignoreW m)"
  and appends_tryW [appends_intros]: "appends m \<Longrightarrow> appends (tryW m)"
  by (simp_all add: appends_def map_errW_def ignoreW_def tryW_def split_beta)

lemma appends_basic [appends_intros]:
  "appends (returnW x)" "appends (throwW e)" "appends (liftW r)" "appends (askW f)" "appends (send ev d)" "appends (modifyW g)"
  "appends (stateW f')" "appends (readW f)" "appends (sleepW H n)" "appends (do_output H prog args cwd)" "appends (do_child H prog args env)"
  "appends (do_read H path)" "appends (do_write H path contents)" "appends (do_mkdir H path)" "appends (do_exists H path)"
  "appends (do_size H path)" "appends (do_random_hex H)" "appends (do_uuid H)"
  by (simp_all add: appends_def returnW_def throwW_def liftW_def askW_def send_def modifyW_def stateW_def readW_def sleepW_def
      do_output_def do_child_def do_read_def do_write_def do_mkdir_def do_exists_def do_size_def do_random_hex_def do_uuid_def
      step_world_def do_sleep_def)

lemma appends_forW [appends_intros]: "(\<And>x. appends (f x)) \<Longrightarrow> appends (forW f xs)"
  by (induction xs) (simp_all add: appends_intros)

lemma appends_split:
  "(\<And>a b. appends (f a b)) \<Longrightarrow> appends (case p of (a, b) \<Rightarrow> f a b)"
  "(\<And>x. appends (g x)) \<Longrightarrow> appends m \<Longrightarrow> appends (case opt of None \<Rightarrow> m | Some x \<Rightarrow> g x)"
  "(\<And>x. appends (h x)) \<Longrightarrow> (\<And>x. appends (k x)) \<Longrightarrow> appends (case s of Inl x \<Rightarrow> h x | Inr x \<Rightarrow> k x)"
  "appends m \<Longrightarrow> appends n \<Longrightarrow> appends (if b then m else n)"
  by (simp_all split: prod.split option.split sum.split)

lemma appends_http: "appends (do_http S url body)"
  by (simp add: appends_def)

lemma appends_wait_tx:
  "(\<exists>es. effs (snd (wait_for_tx_loop S X rpc h t p d w)) = effs w @ es) \<and>
   tick w \<le> tick (snd (wait_for_tx_loop S X rpc h t p d w))"
proof (induction S X rpc h t p d w rule: wait_for_tx_loop.induct)
  case (1 S X rpc h t p d w)
  obtain r w1 where g: "get_receipt S X rpc h w = (r, w1)" by fastforce
  then have e1: "\<exists>es. effs w1 = effs w @ es" "tick w1 = Suc (tick w)"
    by (metis do_http_simps(2,3) get_receipt_world snd_conv)+
  show ?case
  proof (cases "d \<le> clk w")
    case False
    show ?thesis
    proof (cases "Option.bind (ok_opt r) (receipt_verdict X)")
      case None
      from 1 [OF False g [symmetric] refl None] e1 show ?thesis using False None g
        by (auto simp: wait_for_tx_loop.simps [of S X rpc h t p d w])
    qed (use False g e1 in \<open>simp add: wait_for_tx_loop.simps [of S X rpc h t p d w]\<close>)
  qed (simp add: wait_for_tx_loop.simps [of S X rpc h t p d w])
qed

lemma appends_rpc [appends_intros]:
  "appends (call S X rpc meth params)" "appends (call_raw S rpc payload)" "appends (wait_for_tx S X rpc h t p)"
  "appends (get_nonce_at_block S X rpc addr blk)" "appends (starknet_call S X rpc addr sel cd)"
  "appends (add_invoke_transaction S X rpc tx)"
proof -
  show c: "appends (call S X rpc meth params)" for meth params by (simp add: appends_def call_world)
  show "appends (get_nonce_at_block S X rpc addr blk)" "appends (starknet_call S X rpc addr sel cd)"
    "appends (add_invoke_transaction S X rpc tx)"
    unfolding get_nonce_at_block_def starknet_call_def add_invoke_transaction_def by (auto intro!: appends_intros c)
  show "appends (call_raw S rpc payload)" unfolding call_raw_def by (intro appends_intros appends_http)
  show "appends (wait_for_tx S X rpc h t p)" unfolding appends_def wait_for_tx_def by (simp add: appends_wait_tx)
qed

section \<open>Instance\<close>

text \<open>A node that accepts and includes every transaction at once, and a host on which everything works.\<close>

definition ref_receipt :: json where
  "ref_receipt = JObj [(''finality_status'', JStr ''ACCEPTED_ON_L2''), (''execution_status'', JStr ''SUCCEEDED''),
                       (''block_number'', JInt 7)]"

definition ref_node :: "json \<Rightarrow> json" where
  "ref_node body =
     (let meth = unwrap_or (jget_str ''method'' body) []
      in JObj [(''result'',
           if meth = ''starknet_addInvokeTransaction'' then JObj [(''transaction_hash'', JStr ''0xab'')]
           else if meth = ''starknet_getTransactionReceipt'' then ref_receipt
           else if meth = ''starknet_getNonce'' then JStr ''0x3''
           else if meth = ''starknet_blockNumber'' then JInt 9
           else jstrs [''0x5''])])"

definition ref_host :: host_sys where
  "ref_host =
     \<lparr>sys_http = (\<lambda>n url body. Inr (ref_node body)), sys_lat = (\<lambda>n. 5), hs_env = Map.empty,
      hs_output = (\<lambda>n p a d. Inr \<lparr>pr_success = True, pr_status = ''0'', pr_stdout = ''transaction_hash: 0xab'', pr_stderr = []\<rparr>),
      hs_child = (\<lambda>n p a e. Inr \<lparr>ch_lines = [''done''], ch_success = True\<rparr>), hs_exists = (\<lambda>n f. True),
      hs_read = (\<lambda>n f. Inr ''0x7''), hs_write = (\<lambda>n f t. Inr ()), hs_mkdir = (\<lambda>n f. Inr ()), hs_size = (\<lambda>n f. Some 4),
      hs_random_hex = (\<lambda>n. ''00''), hs_uuid = (\<lambda>n. ''u'' @ fmt_dec n),
      hs_gateway = (\<lambda>n u b. Inr (Inr (JObj [(''code'', JStr ''TRANSACTION_RECEIVED'')]))), hs_exe_dir = None, hs_regex_valid = (\<lambda>r. True),
      hs_regex_find = (\<lambda>r s. Some s), hs_regex_group = (\<lambda>r s. Some s)\<rparr>"

definition sample_state :: app_state where
  "sample_state =
     (app_state_new sample_config)\<lparr>as_sessions := [''s1'' \<mapsto> default_session
        \<lparr>ses_account_address := Some ''0x1'', ses_contract_address := Some ''0xc'', ses_deploy_block := Some 4\<rparr>]\<rparr>"

definition sample_world :: app_world where
  "sample_world = \<lparr>clk = 0, tick = 0, effs = [], aw_state = sample_state, aw_others = [], aw_trace = []\<rparr>"

definition after_http :: "string \<Rightarrow> json \<Rightarrow> app_world \<Rightarrow> app_world" where
  "after_http url body w = w\<lparr>clk := clk w + 6, tick := Suc (tick w), effs := effs w @ [EHttp url body]\<rparr>"

lemma after_http_shared [simp]:
  "aw_state (after_http url body w) = aw_state w" "aw_others (after_http url body w) = aw_others w"
  "aw_trace (after_http url body w) = aw_trace w"
  by (simp_all add: after_http_def)

lemma ref_host_http: "do_http ref_host url body w = (Inr (ref_node body), after_http url body w)"
  by (simp add: do_http_def ref_host_def after_http_def)

lemma ref_call: "call ref_host X rpc meth params w =
    (Inr (the (jget ''result'' (ref_node (rpc_payload meth params)))), after_http (client_url rpc) (rpc_payload meth params) w)"
  by (simp add: call_def call_raw_def bindW_def liftW_def map_errW_def ref_host_http rpc_result_def)
    (simp add: ref_node_def Let_def)

lemma ref_receipt_verdict: "receipt_verdict X ref_receipt = Some (Inr ref_receipt)"
  by (simp add: receipt_verdict_def ref_receipt_def jget_str_def)

lemma ref_host_receipt:
  "get_receipt ref_host X rpc h w = (Inr ref_receipt, after_http (client_url rpc)
     (rpc_payload ''starknet_getTransactionReceipt'' (JObj [(''transaction_hash'', JStr h)])) w)"
  by (simp add: get_receipt_def ref_call) (simp add: ref_node_def rpc_payload_def jget_str_def Let_def)

lemma wait_ref_host:
  "0 < unat t \<Longrightarrow> wait_for_tx ref_host X rpc h t p w = (Inr ref_receipt, after_http (client_url rpc)
     (rpc_payload ''starknet_getTransactionReceipt'' (JObj [(''transaction_hash'', JStr h)])) w)"
  by (simp add: wait_for_tx_def wait_for_tx_loop.simps [of ref_host] ref_receipt_verdict ref_host_receipt)

lemma sample_world_simps:
  "aw_state sample_world = sample_state" "aw_others sample_world = []" "aw_trace sample_world = []"
  "get_session ''s1'' sample_state = (the (as_sessions sample_state ''s1''), sample_state)"
  "ses_contract_address (the (as_sessions sample_state ''s1'')) = Some ''0xc''"
  "ses_account_address (the (as_sessions sample_state ''s1'')) = Some ''0x1''"
  "ses_deploy_block (the (as_sessions sample_state ''s1'')) = Some 4"
  "ses_last_reference_block (the (as_sessions sample_state ''s1'')) = None"
  by (simp_all add: sample_world_def sample_state_def get_session_def or_default_session_def default_session_def
      app_state_new_def fun_upd_idem Let_def)

end
