(* ===== verification/Server_Routes.thy ===== *)
theory Server_Routes
  imports Server_State
begin

text \<open>
  The handlers of the playground server but the two long ones, \<open>crates/snip36-server/src/routes\<close>:
  \<open>read.rs\<close>, \<open>fund.rs\<close>, \<open>deploy.rs\<close>, \<open>invoke.rs\<close>, \<open>submit.rs\<close>, \<open>prove.rs\<close> and the start-up of
  \<open>main.rs\<close>. A handler is a function of the shared world with an error answer or a response; a
  background task that streams events is a handler whose error is the text of its last \<open>error\<close>
  event (\<open>run_task\<close> sends it). Log output is left out.
\<close>

definition newline :: string where "newline = [CHR 0x0A]"

definition combined_output :: "process_output \<Rightarrow> string" where
  "combined_output p = pr_stdout p @ newline @ pr_stderr p"

section \<open>Reading\<close>

record health_response =
  hr_status :: string
  hr_rpc_url :: string

definition health :: "('e, health_response) handler" where
  "health = bindW (askW as_config) (\<lambda>c. returnW \<lparr>hr_status = ''ok'', hr_rpc_url = cfg_rpc_url c\<rparr>)"

text \<open>The first felt of a call result as \<open>u64\<close>, and 0 when it is not one.\<close>

definition first_u64 :: "string list \<Rightarrow> u64" where
  "first_u64 result =
     unwrap_or (Option.bind (case result of [] \<Rightarrow> None | s # _ \<Rightarrow> Some s)
       (\<lambda>s. ok_opt (u64_from_str_radix16 (trim_start_0x s)))) 0"

definition read_counter :: "('f, 'x) ext_scheme \<Rightarrow> host_sys \<Rightarrow> string \<Rightarrow> (api_error, u64) handler" where
  "read_counter X H contract_address =
     bindW (askW as_rpc) (\<lambda>rpc.
     bindW (map_errW (\<lambda>e. error_response INTERNAL_SERVER_ERROR (rpc_error_display e))
              (starknet_call H X rpc contract_address GET_COUNTER_SELECTOR [])) (\<lambda>result.
     returnW (first_u64 result)))"

record nonce_response =
  nr_nonce :: u64
  nr_nonce_hex :: string

definition route_get_nonce :: "('f, 'x) ext_scheme \<Rightarrow> host_sys \<Rightarrow> string \<Rightarrow> (api_error, nonce_response) handler" where
  "route_get_nonce X H address =
     bindW (askW as_rpc) (\<lambda>rpc.
     bindW (map_errW (\<lambda>e. error_response BAD_REQUEST (rpc_error_display e)) (get_nonce H X rpc address)) (\<lambda>nonce.
     returnW \<lparr>nr_nonce = nonce, nr_nonce_hex = fmt_hex (unat nonce)\<rparr>))"

section \<open>Output of sncast\<close>

fun lines_loop :: "string \<Rightarrow> string \<Rightarrow> string list" where
  "lines_loop acc [] = (if acc = [] then [] else [acc])"
| "lines_loop acc (c # cs) =
     (if c = CHR 0x0A
      then (if acc \<noteq> [] \<and> last acc = CHR 0x0D then butlast acc else acc) # lines_loop [] cs
      else lines_loop (acc @ [c]) cs)"

definition str_lines :: "string \<Rightarrow> string list" where
  "str_lines s = lines_loop [] s"

definition replace_char :: "char \<Rightarrow> string \<Rightarrow> string \<Rightarrow> string" where
  "replace_char c t s = concat (map (\<lambda>x. if x = c then t else [x]) s)"

definition HEX_PATTERN :: string where "HEX_PATTERN = ''0x[0-9a-fA-F]+''"

fun parse_hex_lines :: "host_sys \<Rightarrow> string \<Rightarrow> string list \<Rightarrow> string option" where
  "parse_hex_lines H re [] = None"
| "parse_hex_lines H re (line # rest) =
     (if hs_regex_find H re line \<noteq> None \<and> hs_regex_find H HEX_PATTERN line \<noteq> None
      then hs_regex_find H HEX_PATTERN line
      else parse_hex_lines H re rest)"

definition parse_hex :: "host_sys \<Rightarrow> string \<Rightarrow> string \<Rightarrow> string option" where
  "parse_hex H key text =
     (let re = ''(?i)'' @ replace_char (CHR ''_'') ''[_ ]'' key
      in if hs_regex_valid H re \<and> hs_regex_valid H HEX_PATTERN then parse_hex_lines H re (str_lines text) else None)"

definition extract_long_hex :: "host_sys \<Rightarrow> string \<Rightarrow> string option" where
  "extract_long_hex H text =
     (let re = ''0x[0-9a-fA-F]{50,}'' in if hs_regex_valid H re then hs_regex_find H re text else None)"

section \<open>Funding\<close>

record fund_response =
  fu_tx_hash :: string
  fu_amount :: string
  fu_block_number :: "u64 option"

definition wait_next_block :: "('f, 'x) ext_scheme \<Rightarrow> host_sys \<Rightarrow> starknet_rpc \<Rightarrow> u64 option \<Rightarrow> ('e, unit) handler" where
  "wait_next_block X H rpc bn =
     (case bn of Some block \<Rightarrow> ignoreW (wait_for_block_after H X rpc block 120 2) | None \<Rightarrow> returnW ())"

definition fund_account :: "('f, 'x) ext_scheme \<Rightarrow> host_sys \<Rightarrow> string \<Rightarrow> (api_error, fund_response) handler" where
  "fund_account X H account_address =
     bindW (askW as_config) (\<lambda>cfg. bindW (askW as_rpc) (\<lambda>rpc.
     let calldata = account_address @ '' '' @ fmt_hex (10 ^ 16) @ '' '' @ ''0x0''
     in bindW (map_errW (error_response INTERNAL_SERVER_ERROR)
                 (do_output H ''sncast''
                    [''--account'', sncast_account (hs_env H), ''invoke'', ''--contract-address'', STRK_TOKEN,
                     ''--function'', ''transfer'', ''--calldata'', calldata, ''--url'', cfg_rpc_url cfg] None)) (\<lambda>out.
        bindW (liftW (ok_or (error_response INTERNAL_SERVER_ERROR (''Transfer failed: '' @ combined_output out))
                        (parse_hex H ''transaction_hash'' (combined_output out)))) (\<lambda>tx_hash.
        bindW (map_errW (\<lambda>e. error_response GATEWAY_TIMEOUT (rpc_error_display e)) (wait_for_tx H X rpc tx_hash 120 2)) (\<lambda>receipt.
        let bn = receipt_block_number receipt
        in bindW (wait_next_block X H rpc bn) (\<lambda>_.
           returnW \<lparr>fu_tx_hash = tx_hash, fu_amount = ''0.01 STRK'', fu_block_number = bn\<rparr>))))))"

section \<open>Deploying\<close>

record deploy_account_request =
  da_session_id :: string
  da_public_key :: string
  da_account_address :: string

record deploy_account_response =
  dar_account_address :: string
  dar_tx_hash :: string
  dar_block_number :: "u64 option"

definition deploy_account ::
  "('f, 'x) ext_scheme \<Rightarrow> host_sys \<Rightarrow> deploy_account_request \<Rightarrow> (api_error, deploy_account_response) handler"
where
  "deploy_account X H req =
     bindW (askW as_config) (\<lambda>cfg. bindW (askW as_rpc) (\<lambda>rpc.
     bindW (map_errW (error_response INTERNAL_SERVER_ERROR)
              (do_output H ''sncast''
                 [''--account'', sncast_account (hs_env H), ''deploy'', ''--class-hash'', OZ_ACCOUNT_CLASS_HASH,
                  ''--constructor-calldata'', da_public_key req, ''--salt'', da_public_key req,
                  ''--url'', cfg_rpc_url cfg] None)) (\<lambda>out.
     if \<not> pr_success out
     then throwW (error_response INTERNAL_SERVER_ERROR
                    (''Account deploy failed (exit '' @ pr_status out @ ''): '' @ combined_output out))
     else
       bindW (liftW (ok_or (error_response INTERNAL_SERVER_ERROR (''Account deploy failed: '' @ combined_output out))
                       (parse_hex H ''contract_address'' (combined_output out)))) (\<lambda>address.
       bindW (liftW (ok_or (error_response INTERNAL_SERVER_ERROR
                       (''Deploy succeeded but no transaction_hash in output: '' @ combined_output out))
                       (parse_hex H ''transaction_hash'' (combined_output out)))) (\<lambda>tx_hash.
       bindW (map_errW (\<lambda>e. error_response GATEWAY_TIMEOUT (rpc_error_display e)) (wait_for_tx H X rpc tx_hash 120 2)) (\<lambda>receipt.
       let bn = receipt_block_number receipt
       in bindW (wait_next_block X H rpc bn) (\<lambda>_.
          bindW (modifyW (update_session_with (da_session_id req)
                   (\<lambda>s. s\<lparr>ses_account_address := Some address, ses_account_deployed := True\<rparr>))) (\<lambda>_.
          returnW \<lparr>dar_account_address = address, dar_tx_hash = tx_hash, dar_block_number = bn\<rparr>))))))))"

record deploy_counter_response =
  dcr_class_hash :: string
  dcr_contract_address :: string
  dcr_tx_hash :: string
  dcr_block_number :: "u64 option"

definition declare_contract :: "host_sys \<Rightarrow> config \<Rightarrow> string \<Rightarrow> (string, process_output) handler" where
  "declare_contract H cfg name =
     do_output H ''sncast''
       [''--account'', sncast_account (hs_env H), ''declare'', ''--contract-name'', name, ''--url'', cfg_rpc_url cfg]
       (Some (contracts_dir cfg))"

definition deploy_class :: "host_sys \<Rightarrow> config \<Rightarrow> string \<Rightarrow> string \<Rightarrow> (string, process_output) handler" where
  "deploy_class H cfg class_hash salt =
     do_output H ''sncast''
       [''--account'', sncast_account (hs_env H), ''deploy'', ''--class-hash'', class_hash, ''--salt'', salt,
        ''--url'', cfg_rpc_url cfg] None"

definition deploy_counter ::
  "('f, 'x) ext_scheme \<Rightarrow> host_sys \<Rightarrow> string \<Rightarrow> (api_error, deploy_counter_response) handler"
where
  "deploy_counter X H session_id =
     bindW (askW as_config) (\<lambda>cfg. bindW (askW as_rpc) (\<lambda>rpc.
     bindW (map_errW (error_response INTERNAL_SERVER_ERROR) (declare_contract H cfg ''Counter'')) (\<lambda>declared.
     bindW (liftW (ok_or (error_response INTERNAL_SERVER_ERROR (''Declare failed: '' @ combined_output declared))
                     (extract_long_hex H (combined_output declared)))) (\<lambda>class_hash.
     bindW (do_random_hex H) (\<lambda>salt.
     bindW (map_errW (error_response INTERNAL_SERVER_ERROR) (deploy_class H cfg class_hash (''0x'' @ salt))) (\<lambda>out.
     if \<not> pr_success out
     then throwW (error_response INTERNAL_SERVER_ERROR
                    (''Counter deploy failed (exit '' @ pr_status out @ ''): '' @ combined_output out))
     else
       bindW (liftW (ok_or (error_response INTERNAL_SERVER_ERROR (''Deploy failed: '' @ combined_output out))
                       (parse_hex H ''contract_address'' (combined_output out)))) (\<lambda>contract_address.
       bindW (liftW (ok_or (error_response INTERNAL_SERVER_ERROR
                       (''Deploy succeeded but no transaction_hash in output: '' @ combined_output out))
                       (parse_hex H ''transaction_hash'' (combined_output out)))) (\<lambda>tx_hash.
       bindW (map_errW (\<lambda>e. error_response GATEWAY_TIMEOUT (rpc_error_display e)) (wait_for_tx H X rpc tx_hash 120 2)) (\<lambda>receipt.
       let bn = receipt_block_number receipt
       in bindW (wait_next_block X H rpc bn) (\<lambda>_.
          bindW (modifyW (update_session_with session_id
                   (\<lambda>s. s\<lparr>ses_contract_address := Some contract_address, ses_class_hash := Some class_hash,
                        ses_deploy_block := bn, ses_last_reference_block := bn\<rparr>))) (\<lambda>_.
          returnW \<lparr>dcr_class_hash = class_hash, dcr_contract_address = contract_address, dcr_tx_hash = tx_hash,
                   dcr_block_number = bn\<rparr>)))))))))))"

section \<open>Invoking\<close>

record invoke_request =
  iq_session_id :: string
  iq_amount :: u64
  iq_signature_r :: string
  iq_signature_s :: string
  iq_nonce :: u64

definition default_amount :: u64 where "default_amount = 1"

record invoke_response =
  ir_tx_hash :: string
  ir_block_number :: "u64 option"
  ir_warning :: "string option"

definition increment_tx :: "invoke_request \<Rightarrow> string \<Rightarrow> string \<Rightarrow> json" where
  "increment_tx req contract_address account_address =
     invoke_json account_address
       [''0x1'', contract_address, INCREMENT_SELECTOR, ''0x1'', fmt_hex (unat (iq_amount req))]
       (fmt_hex (unat (iq_nonce req))) playground
       (JArr [JStr (iq_signature_r req), JStr (iq_signature_s req)]) []"

definition submitted_hash :: "('f, 'x) ext_scheme \<Rightarrow> json \<Rightarrow> api_error + string" where
  "submitted_hash X result =
     (case jget ''error'' result of
        Some e \<Rightarrow> Inl (error_response BAD_REQUEST (x_json_text X e))
      | None \<Rightarrow>
          ok_or (error_response INTERNAL_SERVER_ERROR (''Unexpected RPC response: '' @ x_json_text X result))
            (Option.bind (jget ''result'' result) (jget_str ''transaction_hash'')))"

text \<open>The hash is recorded, then the inclusion awaited; a transaction not confirmed in time is a warning.\<close>

definition await_inclusion ::
  "('f, 'x) ext_scheme \<Rightarrow> host_sys \<Rightarrow> starknet_rpc \<Rightarrow> string \<Rightarrow> string \<Rightarrow> (api_error, invoke_response) handler"
where
  "await_inclusion X H rpc session_id tx_hash =
     bindW (modifyW (update_session_with session_id (\<lambda>s. s\<lparr>ses_last_invoke_tx := Some tx_hash\<rparr>))) (\<lambda>_.
     bindW (tryW (wait_for_tx H X rpc tx_hash 120 2)) (\<lambda>r.
     case r of
       Inr receipt \<Rightarrow>
         (let bn = receipt_block_number receipt
          in bindW (case bn of
                      Some block \<Rightarrow> modifyW (update_session_with session_id (\<lambda>s. s\<lparr>ses_invoke_block := Some block\<rparr>))
                    | None \<Rightarrow> returnW ()) (\<lambda>_.
             returnW \<lparr>ir_tx_hash = tx_hash, ir_block_number = bn, ir_warning = None\<rparr>))
     | Inl _ \<Rightarrow>
         returnW \<lparr>ir_tx_hash = tx_hash, ir_block_number = None,
                  ir_warning = Some ''Tx submitted but not yet confirmed''\<rparr>))"

definition invoke_increment ::
  "('f, 'x) ext_scheme \<Rightarrow> host_sys \<Rightarrow> invoke_request \<Rightarrow> (api_error, invoke_response) handler"
where
  "invoke_increment X H req =
     bindW (stateW (get_session (iq_session_id req))) (\<lambda>session.
     bindW (liftW (ok_or (error_response BAD_REQUEST ''No counter contract deployed'') (ses_contract_address session))) (\<lambda>contract_address.
     bindW (liftW (ok_or (error_response BAD_REQUEST ''No account deployed'') (ses_account_address session))) (\<lambda>account_address.
     bindW (askW as_rpc) (\<lambda>rpc.
     bindW (map_errW (\<lambda>e. error_response INTERNAL_SERVER_ERROR (rpc_error_display e))
              (call_raw H rpc
                 (rpc_payload ''starknet_addInvokeTransaction''
                    (JObj [(''invoke_transaction'', increment_tx req contract_address account_address)])))) (\<lambda>result.
     bindW (liftW (submitted_hash X result)) (\<lambda>tx_hash.
     await_inclusion X H rpc (iq_session_id req) tx_hash))))))"

section \<open>Submitting a proof\<close>

fun replace_all :: "string \<Rightarrow> string \<Rightarrow> string \<Rightarrow> string" where
  "replace_all pat t [] = []"
| "replace_all pat t (c # cs) =
     (if pat \<noteq> [] \<and> take (length pat) (c # cs) = pat
      then t @ replace_all pat t (drop (length pat - 1) cs)
      else c # replace_all pat t cs)"

record submit_response =
  sr_tx_hash :: "string option"
  sr_local_tx_hash :: "string option"
  sr_output :: string

definition server_error :: "string + 'a \<Rightarrow> api_error + 'a" where
  "server_error = map_err (error_response INTERNAL_SERVER_ERROR)"

text \<open>The calldata of \<open>increment(1)\<close>.\<close>

definition increment_calldata :: "('f, 'x) ext_scheme \<Rightarrow> string \<Rightarrow> string + 'f list" where
  "increment_calldata X contract_address =
     bindR (felt_from_hex X contract_address) (\<lambda>to.
     bindR (felt_from_hex X INCREMENT_SELECTOR) (\<lambda>selector.
     Inr [x_one X, to, selector, x_one X, x_one X]))"

definition read_proof_files ::
  "('f, 'x) ext_scheme \<Rightarrow> host_sys \<Rightarrow> string \<Rightarrow> (api_error, string \<times> 'f list) handler"
where
  "read_proof_files X H proof_file =
     bindW (map_errW (\<lambda>e. error_response INTERNAL_SERVER_ERROR (''Failed to read proof file: '' @ e)) (do_read H proof_file)) (\<lambda>text.
     let proof_base64 = trim text
     in bindW (map_errW (\<lambda>e. error_response INTERNAL_SERVER_ERROR (''Failed to read proof_facts file: '' @ e))
                 (do_read H (replace_all ''.proof'' ''.proof_facts'' proof_file))) (\<lambda>proof_facts_json.
        bindW (liftW (map_err (\<lambda>e. error_response INTERNAL_SERVER_ERROR (''Invalid proof_facts JSON: '' @ e))
                        (x_vec_string_parse X proof_facts_json))) (\<lambda>proof_facts_hex.
        bindW (liftW (server_error (collectR (map (felt_from_hex X) proof_facts_hex)))) (\<lambda>facts.
        returnW (proof_base64, facts)))))"

definition submit_proof :: "('f, 'x) ext_scheme \<Rightarrow> host_sys \<Rightarrow> string \<Rightarrow> (api_error, submit_response) handler" where
  "submit_proof X H session_id =
     bindW (stateW (get_session session_id)) (\<lambda>session.
     bindW (liftW (ok_or (error_response BAD_REQUEST ''No proof file available'') (ses_proof_file session))) (\<lambda>proof_file.
     bindW (do_exists H proof_file) (\<lambda>present.
     if \<not> present then throwW (error_response BAD_REQUEST ''No proof file available'')
     else
       bindW (liftW (ok_or (error_response BAD_REQUEST ''No counter contract in session'') (ses_contract_address session))) (\<lambda>contract_address.
       bindW (read_proof_files X H proof_file) (\<lambda>(proof_base64, facts).
       bindW (liftW (server_error (increment_calldata X contract_address))) (\<lambda>calldata.
       bindW (askW as_config) (\<lambda>cfg. bindW (askW as_rpc) (\<lambda>rpc.
       bindW (liftW (server_error (felt_from_hex X (cfg_account_address cfg)))) (\<lambda>sender_address.
       bindW (liftW (server_error (felt_from_hex X (cfg_private_key cfg)))) (\<lambda>private_key.
       bindW (liftW (map_err (\<lambda>e. error_response INTERNAL_SERVER_ERROR (config_error_display e)) (config_chain_id_felt X cfg))) (\<lambda>chain_id.
       bindW (map_errW (\<lambda>e. error_response INTERNAL_SERVER_ERROR (rpc_error_display e))
                (get_nonce H X rpc (cfg_account_address cfg))) (\<lambda>nonce.
       bindW (liftW (map_err (\<lambda>e. error_response INTERNAL_SERVER_ERROR (sign_error_display e))
                (sign_and_build_payload X
                   \<lparr>sp_sender_address = sender_address, sp_private_key = private_key, sp_calldata = calldata,
                    sp_proof_base64 = proof_base64, sp_proof_facts = facts, sp_nonce = x_from_u64 X nonce,
                    sp_chain_id = chain_id, sp_resource_bounds = playground\<rparr>))) (\<lambda>(local_tx_hash, invoke_tx).
       bindW (map_errW (\<lambda>e. error_response BAD_GATEWAY (''RPC submission failed: '' @ rpc_error_display e))
                (add_invoke_transaction H X rpc invoke_tx)) (\<lambda>rpc_tx_hash.
       returnW \<lparr>sr_tx_hash = Some rpc_tx_hash, sr_local_tx_hash = Some (x_to_hex X local_tx_hash),
                sr_output = ''{'' @ [CHR 0x22] @ ''transaction_hash'' @ [CHR 0x22] @ '':'' @ [CHR 0x22] @ rpc_tx_hash @
                            [CHR 0x22] @ ''}''\<rparr>))))))))))))))"

section \<open>Proving a submitted transaction\<close>

text \<open>Running a background task: an error is its last event.\<close>

definition run_task :: "(string, unit) handler \<Rightarrow> ('e, unit) handler" where
  "run_task m w = (case m w of (Inl e, v) \<Rightarrow> send ''error'' e v | (Inr u, v) \<Rightarrow> (Inr (), v))"

definition log :: "string \<Rightarrow> ('e, unit) handler" where
  "log s = send ''log'' s"

definition invoke_block_of :: "('f, 'x) ext_scheme \<Rightarrow> host_sys \<Rightarrow> string \<Rightarrow> u64 option \<Rightarrow> (string, u64 option) handler" where
  "invoke_block_of X H tx_hash known =
     (case known of
        Some b \<Rightarrow> returnW (Some b)
      | None \<Rightarrow>
          bindW (log ''Waiting for tx inclusion...'') (\<lambda>_.
          bindW (askW as_rpc) (\<lambda>rpc.
          bindW (map_errW (\<lambda>e. ''Tx not included in time'') (wait_for_tx H X rpc tx_hash 120 2)) (\<lambda>receipt.
          returnW (receipt_block_number receipt)))))"

definition checked_pred :: "u64 \<Rightarrow> u64 option" where
  "checked_pred b = (if b = 0 then None else Some (b - 1))"

definition run_prove_script :: "host_sys \<Rightarrow> config \<Rightarrow> string \<Rightarrow> u64 \<Rightarrow> string \<Rightarrow> (string, child_run) handler" where
  "run_prove_script H cfg tx_hash prove_block proof_file =
     map_errW (\<lambda>e. ''Failed to spawn prover: '' @ e)
       (do_child H (path_join (path_join (cfg_project_dir cfg) ''scripts'') ''run-virtual-os.sh'')
          [''--block-number'', fmt_dec (unat prove_block), ''--tx-hash'', tx_hash, ''--rpc-url'', cfg_rpc_url cfg,
           ''--output'', proof_file, ''--strk-fee-token'', STRK_TOKEN]
          [(''STARKNET_RPC_URL'', cfg_rpc_url cfg), (''STARKNET_ACCOUNT_ADDRESS'', cfg_account_address cfg),
           (''STARKNET_PRIVATE_KEY'', cfg_private_key cfg)])"

definition proof_complete :: "('f, 'x) ext_scheme \<Rightarrow> u64 \<Rightarrow> string \<Rightarrow> string" where
  "proof_complete X n file = x_json_text X (JObj [(''proof_size'', ju64 n), (''proof_file'', JStr file)])"

definition prove_task :: "('f, 'x) ext_scheme \<Rightarrow> host_sys \<Rightarrow> string \<Rightarrow> string \<Rightarrow> (string, unit) handler" where
  "prove_task X H session_id tx_hash =
     bindW (log (''Starting proof generation for '' @ tx_hash @ ''...'')) (\<lambda>_.
     bindW (stateW (get_session session_id)) (\<lambda>s.
     bindW (invoke_block_of X H tx_hash (ses_invoke_block s)) (\<lambda>invoke_block0.
     bindW (liftW (ok_or ''Could not determine block number'' invoke_block0)) (\<lambda>invoke_block.
     bindW (liftW (ok_or ''Cannot prove against block before genesis (invoke_block is 0)'' (checked_pred invoke_block))) (\<lambda>prove_block.
     bindW (log (''Tx included in block '' @ fmt_dec (unat invoke_block) @ ''. Proving against block '' @
                 fmt_dec (unat prove_block) @ ''...'')) (\<lambda>_.
     bindW (modifyW (update_session_with session_id (\<lambda>s. s\<lparr>ses_prove_block := Some prove_block\<rparr>))) (\<lambda>_.
     bindW (askW as_config) (\<lambda>cfg.
     let output_dir = path_join (cfg_output_dir cfg) ''playground'';
         proof_file = path_join output_dir (session_id @ ''.proof'')
     in bindW (map_errW (\<lambda>e. ''Failed to create output dir: '' @ e) (do_mkdir H output_dir)) (\<lambda>_.
        bindW (run_prove_script H cfg tx_hash prove_block proof_file) (\<lambda>child.
        bindW (forW log (filter (\<lambda>l. l \<noteq> []) (ch_lines child))) (\<lambda>_.
        bindW (do_exists H proof_file) (\<lambda>present.
        if present
        then
          bindW (do_size H proof_file) (\<lambda>proof_size.
          bindW (modifyW (update_session_with session_id (\<lambda>s. s\<lparr>ses_proof_file := Some proof_file\<rparr>))) (\<lambda>_.
          send ''complete'' (proof_complete X proof_size proof_file)))
        else throwW ''Proof generation failed''))))))))))))"

definition prove_route :: "('f, 'x) ext_scheme \<Rightarrow> host_sys \<Rightarrow> string \<Rightarrow> (api_error, unit) handler" where
  "prove_route X H session_id =
     bindW (stateW (get_session session_id)) (\<lambda>session.
     bindW (liftW (ok_or (error_response BAD_REQUEST ''No invoke tx to prove'') (ses_last_invoke_tx session))) (\<lambda>tx_hash.
     run_task (prove_task X H session_id tx_hash)))"

section \<open>Start-up\<close>

definition ensure_sncast_account :: "host_sys \<Rightarrow> config \<Rightarrow> ('e, unit) handler" where
  "ensure_sncast_account H cfg =
     ignoreW (do_output H ''sncast''
       [''account'', ''import'', ''--name'', sncast_account (hs_env H), ''--address'', cfg_account_address cfg,
        ''--private-key'', cfg_private_key cfg, ''--type'', ''oz'', ''--url'', cfg_rpc_url cfg] None)"

section \<open>Sessions are isolated\<close>

definition only_session :: "string \<Rightarrow> app_state \<Rightarrow> app_state \<Rightarrow> bool" where
  "only_session i st st' \<longleftrightarrow>
     (\<forall>j. j \<noteq> i \<longrightarrow> as_sessions st' j = as_sessions st j) \<and> as_config st' = as_config st \<and> as_rpc st' = as_rpc st \<and>
     as_coinflip st' = as_coinflip st \<and> as_commitments st' = as_commitments st"

text \<open>The fields of a session, as the handlers write them together.\<close>

datatype session_field = Account | Contract | Reference | Invocation | Proving

fun same_field :: "session_field \<Rightarrow> session \<Rightarrow> session \<Rightarrow> bool" where
  "same_field Account s t \<longleftrightarrow>
     ses_account_address t = ses_account_address s \<and> ses_account_deployed t = ses_account_deployed s"
| "same_field Contract s t \<longleftrightarrow>
     ses_contract_address t = ses_contract_address s \<and> ses_class_hash t = ses_class_hash s \<and> ses_deploy_block t = ses_deploy_block s"
| "same_field Reference s t \<longleftrightarrow> ses_last_reference_block t = ses_last_reference_block s"
| "same_field Invocation s t \<longleftrightarrow> ses_last_invoke_tx t = ses_last_invoke_tx s \<and> ses_invoke_block t = ses_invoke_block s"
| "same_field Proving s t \<longleftrightarrow> ses_prove_block t = ses_prove_block s \<and> ses_proof_file t = ses_proof_file s"

lemma same_field_refl: "same_field fd s s"
  by (cases fd) simp_all

lemma same_field_trans: "same_field fd s t \<Longrightarrow> same_field fd t u \<Longrightarrow> same_field fd s u"
  by (cases fd) simp_all

text \<open>A change of one session, and there of some fields only: the others keep what they hold.\<close>

definition all_fields :: "session_field list" where
  "all_fields = [Account, Contract, Reference, Invocation, Proving]"

definition touches :: "string \<Rightarrow> session_field list \<Rightarrow> app_state \<Rightarrow> app_state \<Rightarrow> bool" where
  "touches i fds st st' \<longleftrightarrow>
     only_session i st st' \<and>
     list_all (\<lambda>fd. fd \<in> set fds \<or> same_field fd (session_at i st) (session_at i st')) all_fields"

lemma touches_only: "touches i fds st st' \<Longrightarrow> only_session i st st'"
  by (simp add: touches_def)

lemma touches_field: "touches i fds st st' \<Longrightarrow> fd \<notin> set fds \<Longrightarrow> same_field fd (session_at i st) (session_at i st')"
  by (cases fd) (auto simp: touches_def all_fields_def)

lemma keeps_reading_session: "keeps (touches i fds) (stateW (get_session i))"
  by (rule keeps_stateW) (simp add: touches_def only_session_def same_field_refl list_all_iff, simp add: get_session_def Let_def)

lemma keeps_writing_session:
  assumes "\<And>fd s. fd \<notin> set fds \<Longrightarrow> same_field fd s (f s)"
  shows "keeps (touches i fds) (modifyW (update_session_with i f))"
proof (rule keeps_modifyW)
  have "as_sessions (update_session_with i f st) j = as_sessions st j" if "j \<noteq> i" for st j
    using that by (simp add: update_session_with_def)
  then show "touches i fds st (update_session_with i f st)" for st
    using assms by (auto simp: touches_def only_session_def list_all_iff)
qed

lemma keeps_writing:
  "keeps (touches i [Account]) (modifyW (update_session_with i (\<lambda>s. s\<lparr>ses_account_address := a, ses_account_deployed := b\<rparr>)))"
  "keeps (touches i [Contract, Reference]) (modifyW (update_session_with i
     (\<lambda>s. s\<lparr>ses_contract_address := a, ses_class_hash := c, ses_deploy_block := d, ses_last_reference_block := e\<rparr>)))"
  "keeps (touches i [Invocation]) (modifyW (update_session_with i (\<lambda>s. s\<lparr>ses_last_invoke_tx := a\<rparr>)))"
  "keeps (touches i [Invocation]) (modifyW (update_session_with i (\<lambda>s. s\<lparr>ses_invoke_block := d\<rparr>)))"
  "keeps (touches i [Proving]) (modifyW (update_session_with i (\<lambda>s. s\<lparr>ses_prove_block := d\<rparr>)))"
  "keeps (touches i [Proving]) (modifyW (update_session_with i (\<lambda>s. s\<lparr>ses_proof_file := a\<rparr>)))"
  "keeps (touches i [Reference]) (modifyW (update_session_with i (\<lambda>s. s\<lparr>ses_last_reference_block := d\<rparr>)))"
  by (rule keeps_writing_session; case_tac fd; simp)+

lemma keeps_run_task: "keeps R m \<Longrightarrow> keeps R (run_task m)"
  by (erule keeps_snd) (simp add: run_task_def send_def split: prod.split sum.split)

lemmas session_keeps = keeps_reading_session keeps_writing keeps_intros keeps_run_task

lemma keeps_split:
  "(\<And>a b. keeps R (f a b)) \<Longrightarrow> keeps R (case p of (a, b) \<Rightarrow> f a b)"
  "(\<And>x. keeps R (g x)) \<Longrightarrow> keeps R m \<Longrightarrow> keeps R (case opt of None \<Rightarrow> m | Some x \<Rightarrow> g x)"
  "(\<And>x. keeps R (h x)) \<Longrightarrow> (\<And>x. keeps R (k x)) \<Longrightarrow> keeps R (case s of Inl x \<Rightarrow> h x | Inr x \<Rightarrow> k x)"
  "keeps R m \<Longrightarrow> keeps R n \<Longrightarrow> keeps R (if b then m else n)"
  by (simp_all split: prod.split option.split sum.split)

lemma keeps_wait_next_block: "keeps R (wait_next_block X H rpc bn)"
  unfolding wait_next_block_def by (intro keeps_split keeps_intros)

lemma keeps_invoke: "keeps (touches (iq_session_id req) [Invocation]) (invoke_increment X H req)"
  unfolding invoke_increment_def await_inclusion_def Let_def by (intro keeps_split session_keeps)

lemma keeps_deploy_account: "keeps (touches (da_session_id req) [Account]) (deploy_account X H req)"
  unfolding deploy_account_def Let_def by (intro keeps_split session_keeps keeps_wait_next_block)

lemma keeps_deploy_counter: "keeps (touches i [Contract, Reference]) (deploy_counter X H i)"
  unfolding deploy_counter_def declare_contract_def deploy_class_def Let_def
  by (intro keeps_split session_keeps keeps_wait_next_block)

lemma keeps_submit: "keeps (touches i []) (submit_proof X H i)"
  unfolding submit_proof_def read_proof_files_def Let_def by (intro keeps_split session_keeps)

lemma keeps_prove: "keeps (touches i [Proving]) (prove_route X H i)"
  unfolding prove_route_def prove_task_def invoke_block_of_def run_prove_script_def log_def Let_def
  by (intro keeps_split session_keeps)

theorem handlers_touch_own_session:
  "within (touches (iq_session_id req) [Invocation]) (invoke_increment X H req) w \<and>
   within (touches (da_session_id dreq) [Account]) (deploy_account X H dreq) w \<and>
   within (touches i [Contract, Reference]) (deploy_counter X H i) w \<and>
   within (touches i []) (submit_proof X H i) w \<and>
   within (touches i [Proving]) (prove_route X H i) w"
  using keeps_invoke keeps_deploy_account keeps_deploy_counter keeps_submit keeps_prove
  unfolding keeps_def by blast

section \<open>What a successful invocation leaves in the session\<close>

lemma wait_shared: "wait_for_tx H X rpc h t p w = (r, w') \<Longrightarrow> shared w' = shared w"
  by (metis shared_wait_tx snd_conv wait_for_tx_def)

text \<open>
  The record of an invocation: its hash, and the block of the confirmed receipt that the node
  answered for this hash in an exchange of the handler.
\<close>

definition invoke_record ::
  "('f, 'x) ext_scheme \<Rightarrow> host_sys \<Rightarrow> starknet_rpc \<Rightarrow> string \<Rightarrow> app_world \<Rightarrow> invoke_response \<Rightarrow> app_world \<Rightarrow> bool"
where
  "invoke_record X H rpc i w r w' \<longleftrightarrow>
     ses_last_invoke_tx (session_at i (aw_state w')) = Some (ir_tx_hash r) \<and>
     (case ir_block_number r of
        Some b \<Rightarrow> ses_invoke_block (session_at i (aw_state w')) = Some b \<and> ir_warning r = None \<and>
                  (\<exists>receipt. receipt_answered H X rpc (ir_tx_hash r) (tick w) (tick w') receipt \<and>
                     confirmed_receipt receipt \<and> receipt_block_number receipt = Some b)
      | None \<Rightarrow> ses_invoke_block (session_at i (aw_state w')) = ses_invoke_block (session_at i (aw_state w)) \<and>
                (ir_warning r \<noteq> None \<or>
                 (\<exists>receipt. receipt_answered H X rpc (ir_tx_hash r) (tick w) (tick w') receipt \<and>
                    confirmed_receipt receipt \<and> receipt_block_number receipt = None)))"

text \<open>The other requests work on other sessions, and nobody replaces the RPC client.\<close>

definition others_leave :: "string \<Rightarrow> app_world \<Rightarrow> bool" where
  "others_leave i w \<longleftrightarrow> others_keep (\<lambda>st st'. session_at i st' = session_at i st \<and> as_rpc st' = as_rpc st) w"

lemma others_leave_access:
  "others_leave i w \<Longrightarrow> session_at i (seen w) = session_at i (aw_state w) \<and> as_rpc (seen w) = as_rpc (aw_state w) \<and>
     others_leave i (after_access f w)"
  by (cases "aw_others w") (auto simp: others_leave_def others_keep_def seen_def found_def)

lemma others_leave_shared: "shared v = shared w \<Longrightarrow> others_leave i v = others_leave i w"
  by (simp add: others_leave_def others_keep_def shared_parts)

lemma await_inclusion_recorded:
  assumes "others_leave i w" and "await_inclusion X H rpc i tx_hash w = (Inr r, w')"
  shows "ir_tx_hash r = tx_hash" and "invoke_record X H rpc i w r w'"
proof -
  let ?w = "after_access (update_session_with i (\<lambda>s. s\<lparr>ses_last_invoke_tx := Some tx_hash\<rparr>)) w"
  obtain res v where wait: "wait_for_tx H X rpc tx_hash 120 2 ?w = (res, v)" by force
  from wait_shared [OF wait] have st: "aw_state v = aw_state ?w" "session_at i (seen v) = session_at i (aw_state v)"
    using others_leave_access [of i v] others_leave_access [OF assms(1)] others_leave_shared [of v ?w i] by (simp_all add: shared_parts)
  have old: "session_at i (seen w) = session_at i (aw_state w)" using others_leave_access [OF assms(1)] by blast
  have "ir_tx_hash r = tx_hash \<and> invoke_record X H rpc i w r w'"
  proof (cases res)
    case (Inl e)
    then show ?thesis using assms(2) wait st old
      by (auto simp: await_inclusion_def bindW_def modifyW_def tryW_def returnW_def invoke_record_def)
  next
    case (Inr receipt)
    note got = wait_for_tx_receipt [OF wait [unfolded Inr]]
    have "tick v = tick w'" using assms(2) wait Inr
      by (cases "receipt_block_number receipt")
        (auto simp: await_inclusion_def bindW_def modifyW_def tryW_def returnW_def Let_def)
    with got(2) have "receipt_answered H X rpc tx_hash (tick w) (tick w') receipt" by simp
    then show ?thesis using assms(2) wait st old Inr got(1)
      by (cases "receipt_block_number receipt")
        (auto simp: await_inclusion_def bindW_def modifyW_def tryW_def returnW_def invoke_record_def Let_def)
  qed
  then show "ir_tx_hash r = tx_hash" and "invoke_record X H rpc i w r w'" by simp_all
qed

text \<open>C24. While the other requests work on other sessions and keep the RPC client, a successful invocation has submitted the increment of the counter and the account of the session, the hash it reports is the one of the answer of the node to that submission, and the session holds it. When a block is reported, it is the block of a confirmed receipt with which the node answered a request for that hash during the invocation, and it is recorded without a warning; otherwise the block recorded before is kept and there is a warning, or the confirmed receipt names no block.\<close>
theorem invoke_recorded:
  assumes "others_leave (iq_session_id req) w" and "invoke_increment X H req w = (Inr r, w')"
  shows "\<exists>c a n answer.
     ses_contract_address (session_at (iq_session_id req) (aw_state w)) = Some c \<and>
     ses_account_address (session_at (iq_session_id req) (aw_state w)) = Some a \<and> tick w \<le> n \<and> n < tick w' \<and>
     sys_http H n (client_url (as_rpc (aw_state w))) (rpc_payload ''starknet_addInvokeTransaction''
       (JObj [(''invoke_transaction'', increment_tx req c a)])) = Inr answer \<and>
     submitted_hash X answer = Inr (ir_tx_hash r) \<and>
     invoke_record X H (as_rpc (aw_state w)) (iq_session_id req) w r w'"
proof -
  let ?i = "iq_session_id req" and ?u = "after_access (\<lambda>st. snd (get_session (iq_session_id req) st)) w"
  from assms(2) obtain c a answer tx_hash v where
    fields: "ses_contract_address (fst (get_session ?i (seen w))) = Some c" "ses_account_address (fst (get_session ?i (seen w))) = Some a"
    and post: "sys_http H (tick w) (client_url (as_rpc (snd (get_session ?i (seen w))))) (rpc_payload ''starknet_addInvokeTransaction''
       (JObj [(''invoke_transaction'', increment_tx req c a)])) = Inr answer"
    and hash: "submitted_hash X answer = Inr tx_hash"
    and tail: "await_inclusion X H (as_rpc (snd (get_session ?i (seen w)))) ?i tx_hash v = (Inr r, w')"
    and v: "shared v = shared ?u" "tick v = Suc (tick w)"
    by (auto simp: invoke_increment_def bindW_Inr_iff stateW_def askW_def liftW_eq call_raw_def map_errW_Inr_iff do_http_def shared_parts
        split: prod.splits)
  have left: "session_at ?i (aw_state v) = session_at ?i (aw_state w)" "others_leave ?i v"
    using v(1) others_leave_access [OF assms(1)] others_leave_shared [OF v(1)] by (simp_all add: shared_parts)
  note incl = await_inclusion_recorded [OF left(2) tail]
  have "appends (await_inclusion X H rpc i h)" for rpc i h
    unfolding await_inclusion_def Let_def by (intro appends_intros appends_split)
  from appends_tick [OF this tail] v(2) have later: "tick w < tick w'" by simp
  have session: "fst (get_session ?i (seen w)) = session_at ?i (aw_state w)" "as_rpc (seen w) = as_rpc (aw_state w)"
    using others_leave_access [OF assms(1)] by (simp_all add: session_at_def)
  have "invoke_record X H (as_rpc (aw_state w)) ?i w r w'"
    using incl(2) left(1) v(2) unfolding invoke_record_def
    by (auto simp: session dest: receipt_answered_wider [where a' = "tick w" and b' = "tick w'"] split: option.splits)
  with fields post hash later incl(1) show ?thesis unfolding session store_keeps_rest by blast
qed

definition sample_invoke :: invoke_request where
  "sample_invoke = \<lparr>iq_session_id = ''s1'', iq_amount = 2, iq_signature_r = ''0x1'', iq_signature_s = ''0x2'', iq_nonce = 3\<rparr>"

text \<open>The session is read, written and written again while others work on sessions s2 and s3.\<close>

definition busy_world :: app_world where
  "busy_world = sample_world\<lparr>aw_others :=
     [update_session_with ''s2'' (\<lambda>s. s\<lparr>ses_last_invoke_tx := Some ''0xff''\<rparr>), \<lambda>st. snd (get_session ''s3'' st),
      update_session_with ''s2'' (\<lambda>s. s\<lparr>ses_invoke_block := Some 6\<rparr>)]\<rparr>"

lemma busy_others: "others_leave ''s1'' busy_world"
  by (simp add: others_leave_def others_keep_def busy_world_def)

lemma sample_invoke_run: "\<exists>r w'. invoke_increment ref_ext ref_host sample_invoke busy_world = (Inr r, w') \<and> ir_block_number r = Some 7"
proof -
  have "session_at ''s1'' (seen busy_world) = session_at ''s1'' sample_state"
    using others_leave_access [OF busy_others] by (simp add: busy_world_def sample_world_simps)
  then have "fst (get_session ''s1'' (seen busy_world)) = the (as_sessions sample_state ''s1'')"
    by (simp add: session_at_def sample_world_simps)
  then show ?thesis
    by (simp add: invoke_increment_def await_inclusion_def sample_invoke_def sample_world_simps stateW_def askW_def liftW_def bindW_def call_raw_def
        map_errW_def ref_host_http ref_node_def rpc_payload_def submitted_hash_def modifyW_def tryW_def wait_ref_host returnW_def Let_def
        jget_str_def receipt_block_number_def ref_receipt_def)
qed

theorem invoke_recorded_witness:
  "\<exists>r w' receipt. invoke_increment ref_ext ref_host sample_invoke busy_world = (Inr r, w') \<and> ir_block_number r = Some 7 \<and>
     receipt_answered ref_host ref_ext (as_rpc (aw_state busy_world)) (ir_tx_hash r) (tick busy_world) (tick w') receipt"
proof -
  obtain r w' where r: "invoke_increment ref_ext ref_host sample_invoke busy_world = (Inr r, w')" "ir_block_number r = Some 7"
    using sample_invoke_run by blast
  have "others_leave (iq_session_id sample_invoke) busy_world" using busy_others by (simp add: sample_invoke_def)
  from invoke_recorded [OF this r(1)] r(2) have "invoke_record ref_ext ref_host (as_rpc (aw_state busy_world)) ''s1'' busy_world r w'"
    by (auto simp: sample_invoke_def)
  with r show ?thesis by (auto simp: invoke_record_def)
qed

end
