(* ===== verification/Prove_Block.thy ===== *)
theory Prove_Block
  imports Server_Routes
begin

text \<open>
  The full cycle of the playground, \<open>crates/snip36-server/src/routes/prove_block.rs\<close>: construct a
  multicall, sign and write it, prove it with the command-line tool, sign the payload with the
  proof facts, submit it at most twenty times, wait for its inclusion and read the counter. The
  phases are definitions of their own; the game of theory \<open>Coinflip\<close> shares the helpers.
  Products of 64-bit numbers wrap, as in a release build.
\<close>

section \<open>Helpers\<close>

definition find_in_manifest :: "host_sys \<Rightarrow> ('e, string option) handler" where
  "find_in_manifest H =
     (case hs_env H ''CARGO_MANIFEST_DIR'' of
        None \<Rightarrow> returnW None
      | Some manifest_dir \<Rightarrow>
          let candidate = (\<lambda>profile. path_join (path_join (path_join manifest_dir ''../../target'') profile) ''snip36'')
          in bindW (do_exists H (candidate ''release'')) (\<lambda>release.
             if release then returnW (Some (candidate ''release''))
             else bindW (do_exists H (candidate ''debug'')) (\<lambda>debug.
                  returnW (if debug then Some (candidate ''debug'') else None))))"

definition find_snip36_bin :: "host_sys \<Rightarrow> ('e, string) handler" where
  "find_snip36_bin H =
     (case hs_env H ''SNIP36_CLI_BIN'' of
        Some bin \<Rightarrow> returnW bin
      | None \<Rightarrow>
          bindW (case hs_exe_dir H of
                   None \<Rightarrow> returnW False
                 | Some dir \<Rightarrow> do_exists H (path_join dir ''snip36'')) (\<lambda>sibling.
          if sibling then returnW (path_join (unwrap_or (hs_exe_dir H) []) ''snip36'')
          else bindW (find_in_manifest H) (\<lambda>found. returnW (unwrap_or found ''snip36''))))"

text \<open>\<open>Path::with_extension\<close>: the last extension of the file name is replaced.\<close>

definition with_extension :: "string \<Rightarrow> string \<Rightarrow> string" where
  "with_extension path extension =
     (let name = rev (takeWhile (\<lambda>c. c \<noteq> CHR ''/'') (rev path));
          old = takeWhile (\<lambda>c. c \<noteq> CHR ''.'') (rev name);
          stem = (if Suc (length old) < length name then rev (drop (Suc (length old)) (rev name)) else name)
      in take (length path - length name) path @ stem @ ''.'' @ extension)"

definition prover_args :: "host_sys \<Rightarrow> config \<Rightarrow> u64 \<Rightarrow> string \<Rightarrow> string \<Rightarrow> string list" where
  "prover_args H cfg reference_block tx_path proof_path =
     [''prove'', ''virtual-os'', ''--block-number'', fmt_dec (unat reference_block), ''--tx-json'', tx_path,
      ''--rpc-url'', cfg_rpc_url cfg, ''--output'', proof_path, ''--strk-fee-token'', STRK_TOKEN] @
     (case hs_env H ''PROVER_URL'' of
        Some url \<Rightarrow> if url \<noteq> [] then [''--prover-url'', url] else []
      | None \<Rightarrow> [])"

definition hash_prefix :: "string \<Rightarrow> string" where
  "hash_prefix h = (if 18 \<le> length h then take 18 h else h)"

definition phase :: "string \<Rightarrow> ('e, unit) handler" where
  "phase s = send ''phase'' s"

section \<open>Phase 1: the transaction\<close>

record prove_block_query =
  pq_increment_amount :: u64
  pq_increments_per_block :: u32

definition default_prove_block_query :: prove_block_query where
  "default_prove_block_query = \<lparr>pq_increment_amount = 1, pq_increments_per_block = 1\<rparr>"

definition expected_increment :: "prove_block_query \<Rightarrow> u64" where
  "expected_increment q = pq_increment_amount q * ucast (pq_increments_per_block q)"

definition multicall_strs :: "string \<Rightarrow> prove_block_query \<Rightarrow> string list" where
  "multicall_strs contract_address q =
     fmt_hex (unat (pq_increments_per_block q)) #
     concat (replicate (unat (pq_increments_per_block q))
       [contract_address, INCREMENT_SELECTOR, ''0x1'', fmt_hex (unat (pq_increment_amount q))])"

text \<open>What the first phase hands on.\<close>

record 'f constructed =
  ct_sender :: 'f
  ct_private_key :: 'f
  ct_calldata :: "'f list"
  ct_chain_id :: 'f
  ct_nonce :: u64

text \<open>The transaction the virtual OS validates: hashed and signed without proof facts.\<close>

definition standard_signature ::
  "('f, 'x) ext_scheme \<Rightarrow> 'f constructed \<Rightarrow> resource_bounds \<Rightarrow> sign_error + 'f signature"
where
  "standard_signature X c bounds =
     sign X (ct_private_key c)
       (compute_invoke_v3_tx_hash X (ct_sender c) (ct_calldata c) (ct_chain_id c) (x_from_u64 X (ct_nonce c)) (x_zero X)
          bounds [] [] 0 0 [])"

definition standard_tx_json ::
  "('f, 'x) ext_scheme \<Rightarrow> config \<Rightarrow> string list \<Rightarrow> u64 \<Rightarrow> resource_bounds \<Rightarrow> 'f signature \<Rightarrow> json"
where
  "standard_tx_json X cfg calldata_strs nonce bounds sig =
     invoke_json (cfg_account_address cfg) calldata_strs (fmt_hex (unat nonce)) bounds (sig_json X sig) []"

definition nonce_at :: "('f, 'x) ext_scheme \<Rightarrow> host_sys \<Rightarrow> config \<Rightarrow> starknet_rpc \<Rightarrow> u64 \<Rightarrow> (string, u64) handler" where
  "nonce_at X H cfg rpc block =
     map_errW rpc_error_display
       (get_nonce_at_block H X rpc (cfg_account_address cfg) (JObj [(''block_number'', ju64 block)]))"

definition parse_accounts ::
  "('f, 'x) ext_scheme \<Rightarrow> config \<Rightarrow> string \<Rightarrow> string list \<Rightarrow> string + 'f list \<times> 'f \<times> 'f \<times> 'f"
where
  "parse_accounts X cfg account_name calldata_strs =
     bindR (map_err (\<lambda>e. ''Failed to parse calldata: '' @ e) (collectR (map (felt_from_hex X) calldata_strs))) (\<lambda>calldata.
     bindR (map_err (\<lambda>e. ''Invalid '' @ account_name @ '' address: '' @ e) (felt_from_hex X (cfg_account_address cfg))) (\<lambda>sender.
     bindR (map_err (\<lambda>e. ''Invalid private key: '' @ e) (felt_from_hex X (cfg_private_key cfg))) (\<lambda>private_key.
     bindR (map_err (\<lambda>e. ''Invalid chain_id: '' @ config_error_display e) (config_chain_id_felt X cfg)) (\<lambda>chain_id.
     Inr (calldata, sender, private_key, chain_id)))))"

definition construct_phase ::
  "('f, 'x) ext_scheme \<Rightarrow> host_sys \<Rightarrow> config \<Rightarrow> starknet_rpc \<Rightarrow> string \<Rightarrow> string \<Rightarrow> u64 \<Rightarrow> prove_block_query
   \<Rightarrow> (string, 'f constructed \<times> string \<times> string) handler"
where
  "construct_phase X H cfg rpc session_id contract_address reference_block q =
     bindW (log (''Starting SNIP-36 cycle: '' @ fmt_dec (unat (pq_increments_per_block q)) @ '' calls x increment('' @
                 fmt_dec (unat (pq_increment_amount q)) @ '') = +'' @ fmt_dec (unat (expected_increment q)) @ '' per block'')) (\<lambda>_.
     bindW (phase ''constructing'') (\<lambda>_.
     let calldata_strs = multicall_strs contract_address q
     in bindW (liftW (parse_accounts X cfg ''account'' calldata_strs)) (\<lambda>(calldata, sender, private_key, chain_id).
        bindW (map_errW (\<lambda>e. ''Failed to get nonce at block '' @ fmt_dec (unat reference_block) @ '': '' @ e)
                 (nonce_at X H cfg rpc reference_block)) (\<lambda>nonce.
        let c = \<lparr>ct_sender = sender, ct_private_key = private_key, ct_calldata = calldata, ct_chain_id = chain_id, ct_nonce = nonce\<rparr>
        in bindW (liftW (map_err (\<lambda>e. ''Signing failed: '' @ sign_error_display e) (standard_signature X c default_bounds))) (\<lambda>sig.
           let output_dir = path_join (cfg_output_dir cfg) ''playground'';
               tx_path = path_join output_dir (session_id @ ''_tx.json'');
               tx_json = standard_tx_json X cfg calldata_strs nonce default_bounds sig
           in bindW (map_errW (\<lambda>e. ''Failed to create output dir: '' @ e) (do_mkdir H output_dir)) (\<lambda>_.
              bindW (map_errW (\<lambda>e. ''Failed to write tx JSON: '' @ e) (do_write H tx_path (x_json_pretty X tx_json))) (\<lambda>_.
              bindW (log (''Transaction constructed (nonce: '' @ fmt_dec (unat nonce) @ '', ref block: '' @
                          fmt_dec (unat reference_block) @ '')'')) (\<lambda>_.
              returnW (c, tx_path, path_join output_dir (session_id @ ''.proof''))))))))))"

section \<open>Phase 2: the proof\<close>

definition spawn_prover ::
  "host_sys \<Rightarrow> config \<Rightarrow> u64 \<Rightarrow> string \<Rightarrow> string \<Rightarrow> (string, child_run) handler"
where
  "spawn_prover H cfg reference_block tx_path proof_path =
     bindW (phase ''proving'') (\<lambda>_.
     bindW (log (''Proving against block '' @ fmt_dec (unat reference_block) @ ''...'')) (\<lambda>_.
     bindW (find_snip36_bin H) (\<lambda>snip36_bin.
     map_errW (\<lambda>e. ''Failed to spawn prover ('' @ snip36_bin @ ''): '' @ e)
       (do_child H snip36_bin (prover_args H cfg reference_block tx_path proof_path) []))))"

definition proving_phase ::
  "host_sys \<Rightarrow> config \<Rightarrow> u64 \<Rightarrow> string \<Rightarrow> string \<Rightarrow> (string, u64) handler"
where
  "proving_phase H cfg reference_block tx_path proof_path =
     bindW (spawn_prover H cfg reference_block tx_path proof_path) (\<lambda>child.
     bindW (forW log (filter (\<lambda>l. l \<noteq> []) (ch_lines child))) (\<lambda>_.
     bindW (if ch_success child then do_exists H proof_path else returnW False) (\<lambda>proved.
     if \<not> proved then throwW ''Proof generation failed''
     else
       bindW (do_size H proof_path) (\<lambda>proof_size.
       bindW (log (''Proof generated ('' @ fmt_dec (unat proof_size) @ '' bytes)'')) (\<lambda>_.
       let messages_file = with_extension proof_path ''raw_messages.json''
       in bindW (do_exists H messages_file) (\<lambda>saved.
          bindW (if saved then log (''L2'' @ bytes [0xE2, 0x86, 0x92] @ ''L1 messages saved: '' @ messages_file) else returnW ()) (\<lambda>_.
          returnW proof_size)))))))"

section \<open>Phase 3: the payload and its submission\<close>

text \<open>The payload signed over the proof facts in the files of the prover.\<close>

definition proof_files ::
  "('f, 'x) ext_scheme \<Rightarrow> host_sys \<Rightarrow> string \<Rightarrow> (string, string \<times> 'f list) handler"
where
  "proof_files X H proof_path =
     bindW (phase ''submitting'') (\<lambda>_.
     bindW (map_errW (\<lambda>e. ''Failed to read proof: '' @ e) (do_read H proof_path)) (\<lambda>proof_text.
     bindW (map_errW (\<lambda>e. ''Failed to read proof_facts: '' @ e) (do_read H (with_extension proof_path ''proof_facts''))) (\<lambda>facts_text.
     bindW (liftW (map_err (\<lambda>e. ''Invalid proof_facts: '' @ proof_error_display e)
              (parse_proof_facts_json X facts_text))) (\<lambda>facts_hex.
     bindW (liftW (map_err (\<lambda>e. ''Failed to parse proof_facts: '' @ e) (collectR (map (felt_from_hex X) facts_hex)))) (\<lambda>facts.
     returnW (trim proof_text, facts))))))"

definition submission_params ::
  "('f, 'x) ext_scheme \<Rightarrow> 'f constructed \<Rightarrow> string \<times> 'f list \<Rightarrow> 'f \<Rightarrow> 'f submit_params"
where
  "submission_params X c files nonce =
     \<lparr>sp_sender_address = ct_sender c, sp_private_key = ct_private_key c, sp_calldata = ct_calldata c,
      sp_proof_base64 = fst files, sp_proof_facts = snd files, sp_nonce = nonce,
      sp_chain_id = ct_chain_id c, sp_resource_bounds = default_bounds\<rparr>"

definition signed_payload ::
  "('f, 'x) ext_scheme \<Rightarrow> host_sys \<Rightarrow> 'f constructed \<Rightarrow> string \<Rightarrow> (string, 'f \<times> json) handler"
where
  "signed_payload X H c proof_path =
     bindW (proof_files X H proof_path) (\<lambda>files.
     liftW (map_err (\<lambda>e. ''SNIP-36 signing failed: '' @ sign_error_display e)
              (sign_and_build_payload X (submission_params X c files (x_from_u64 X (ct_nonce c))))))"

definition max_attempts :: nat where "max_attempts = 20"

definition attempt_text :: "nat \<Rightarrow> string" where
  "attempt_text attempt = ''(attempt '' @ fmt_dec attempt @ ''/'' @ fmt_dec max_attempts @ '')''"

text \<open>The attempts left, from \<open>attempt\<close> on.\<close>

function submit_loop ::
  "('f, 'x) ext_scheme \<Rightarrow> host_sys \<Rightarrow> starknet_rpc \<Rightarrow> json \<Rightarrow> nat \<Rightarrow> (string, string option) handler"
where
  "submit_loop X H rpc invoke_tx attempt =
     (if max_attempts < attempt then returnW None
      else
        bindW (tryW (add_invoke_transaction H X rpc invoke_tx)) (\<lambda>r.
        case r of
          Inr accepted_tx_hash \<Rightarrow>
            bindW (log (''RPC accepted '' @ attempt_text attempt @ '': '' @ accepted_tx_hash)) (\<lambda>_.
            returnW (Some accepted_tx_hash))
        | Inl e \<Rightarrow>
            (case e of
               JsonRpc msg \<Rightarrow>
                 if attempt < max_attempts
                 then
                   bindW (log (''RPC error '' @ attempt_text attempt @ '', waiting 10s... ('' @ msg @ '')'')) (\<lambda>_.
                   bindW (sleepW H 10) (\<lambda>_. submit_loop X H rpc invoke_tx (Suc attempt)))
                 else throwW (''RPC submission failed: '' @ rpc_error_display e)
             | _ \<Rightarrow> throwW (''RPC submission failed: '' @ rpc_error_display e))))"
  by pat_completeness auto
termination by (relation "measure (\<lambda>(X, H, rpc, tx, attempt). Suc max_attempts - attempt)") auto

declare submit_loop.simps [simp del]

section \<open>Phase 4: inclusion\<close>

definition counter_after ::
  "('f, 'x) ext_scheme \<Rightarrow> host_sys \<Rightarrow> starknet_rpc \<Rightarrow> string \<Rightarrow> ('e, u64) handler"
where
  "counter_after X H rpc contract_address =
     bindW (tryW (starknet_call H X rpc contract_address GET_COUNTER_SELECTOR [])) (\<lambda>r.
     let counter_value = (case r of Inr result \<Rightarrow> first_u64 result | Inl _ \<Rightarrow> 0)
     in bindW (log (''Counter value: '' @ fmt_dec (unat counter_value))) (\<lambda>_. returnW counter_value))"

definition verify_phase ::
  "('f, 'x) ext_scheme \<Rightarrow> host_sys \<Rightarrow> starknet_rpc \<Rightarrow> string \<Rightarrow> string \<Rightarrow> string \<Rightarrow> (string, u64) handler"
where
  "verify_phase X H rpc session_id contract_address rpc_tx_hash =
     bindW (phase ''verifying'') (\<lambda>_.
     bindW (log ''Waiting for tx inclusion...'') (\<lambda>_.
     bindW (map_errW (\<lambda>e. ''Tx not confirmed: '' @ rpc_error_display e) (wait_for_tx H X rpc rpc_tx_hash 180 5)) (\<lambda>receipt.
     let bn = unwrap_or (receipt_block_number receipt) 0
     in bindW (log (''Tx included in block '' @ fmt_dec (unat bn))) (\<lambda>_.
        bindW (modifyW (update_session_with session_id (\<lambda>s. s\<lparr>ses_last_reference_block := Some bn\<rparr>))) (\<lambda>_.
        counter_after X H rpc contract_address)))))"

definition complete_json :: "string \<Rightarrow> u64 \<Rightarrow> u64 \<Rightarrow> u64 \<Rightarrow> json" where
  "complete_json tx_hash counter_value proof_size increment =
     JObj [(''tx_hash'', JStr tx_hash), (''counter_value'', ju64 counter_value), (''proof_size'', ju64 proof_size),
           (''increment'', ju64 increment)]"

section \<open>The cycle\<close>

definition submit_text :: "('f, 'x) ext_scheme \<Rightarrow> 'f \<Rightarrow> string" where
  "submit_text X h = ''Submitting tx '' @ hash_prefix (x_to_hex X h) @ '' via RPC...''"

definition prove_block_task ::
  "('f, 'x) ext_scheme \<Rightarrow> host_sys \<Rightarrow> string \<Rightarrow> string \<Rightarrow> u64 \<Rightarrow> prove_block_query \<Rightarrow> (string, unit) handler"
where
  "prove_block_task X H session_id contract_address reference_block q =
     bindW (askW as_config) (\<lambda>cfg. bindW (askW as_rpc) (\<lambda>rpc.
     bindW (construct_phase X H cfg rpc session_id contract_address reference_block q) (\<lambda>(c, tx_path, proof_path).
     bindW (proving_phase H cfg reference_block tx_path proof_path) (\<lambda>proof_size.
     bindW (signed_payload X H c proof_path) (\<lambda>(local_tx_hash, invoke_tx).
     bindW (log (submit_text X local_tx_hash)) (\<lambda>_.
     bindW (submit_loop X H rpc invoke_tx 1) (\<lambda>accepted.
     bindW (liftW (ok_or ''RPC did not accept after all retries'' accepted)) (\<lambda>rpc_tx_hash.
     bindW (verify_phase X H rpc session_id contract_address rpc_tx_hash) (\<lambda>counter_value.
     send ''complete'' (x_json_text X (complete_json rpc_tx_hash counter_value proof_size (expected_increment q))))))))))))"

definition prove_block_route ::
  "('f, 'x) ext_scheme \<Rightarrow> host_sys \<Rightarrow> string \<Rightarrow> prove_block_query \<Rightarrow> (api_error, unit) handler"
where
  "prove_block_route X H session_id q =
     bindW (stateW (get_session session_id)) (\<lambda>session.
     bindW (liftW (ok_or (error_response BAD_REQUEST ''No counter contract deployed'') (ses_contract_address session))) (\<lambda>contract_address.
     bindW (liftW (ok_or (error_response BAD_REQUEST ''Deploy block not tracked'')
                     (or_else (ses_last_reference_block session) (ses_deploy_block session)))) (\<lambda>reference_block.
     run_task (prove_block_task X H session_id contract_address reference_block q))))"

section \<open>The submission is bounded\<close>

lemma add_invoke_requests:
  "http_reqs (effs (snd (add_invoke_transaction H X rpc tx w))) =
     http_reqs (effs w) @ [(client_url rpc, rpc_payload ''starknet_addInvokeTransaction'' (JObj [(''invoke_transaction'', tx)]))]"
  by (simp add: add_invoke_transaction_def call_world)

lemma submit_loop_requests:
  assumes "attempt \<le> max_attempts"
  shows "fst (submit_loop X H rpc tx attempt w) \<noteq> Inr None \<and>
    (\<exists>k. 1 \<le> k \<and> k \<le> Suc max_attempts - attempt \<and>
       http_reqs (effs (snd (submit_loop X H rpc tx attempt w))) = http_reqs (effs w) @
         replicate k (client_url rpc, rpc_payload ''starknet_addInvokeTransaction'' (JObj [(''invoke_transaction'', tx)])))"
  using assms
proof (induction "max_attempts - attempt" arbitrary: attempt w rule: less_induct)
  case (less attempt)
  let ?q = "(client_url rpc, rpc_payload ''starknet_addInvokeTransaction'' (JObj [(''invoke_transaction'', tx)]))"
  obtain r v where add: "add_invoke_transaction H X rpc tx w = (r, v)" by force
  have v: "http_reqs (effs v) = http_reqs (effs w) @ [?q]" using add_invoke_requests [of H X rpc tx w] add by simp
  note unfold = submit_loop.simps [of X H rpc tx attempt] bindW_def tryW_def add log_def send_def step_world_def returnW_def throwW_def sleepW_def
  show ?case
  proof (cases "\<exists>msg. r = Inl (JsonRpc msg) \<and> attempt < max_attempts")
    case True
    then obtain msg where r: "r = Inl (JsonRpc msg)" and lt: "attempt < max_attempts" by blast
    define u where "u = do_sleep H 10 (v\<lparr>tick := Suc (tick v), effs := effs v @
       [ESse ''log'' (''RPC error '' @ attempt_text attempt @ '', waiting 10s... ('' @ msg @ '')'')]\<rparr>)"
    have step: "submit_loop X H rpc tx attempt w = submit_loop X H rpc tx (Suc attempt) u"
      using lt by (simp add: unfold r u_def)
    have u: "http_reqs (effs u) = http_reqs (effs v)" by (simp add: u_def)
    have "max_attempts - Suc attempt < max_attempts - attempt" "Suc attempt \<le> max_attempts" using lt by simp_all
    from less.hyps [OF this, of u] obtain k where "1 \<le> k" "k \<le> Suc max_attempts - Suc attempt" and none: "fst (submit_loop X H rpc tx (Suc attempt) u) \<noteq> Inr None"
      and "http_reqs (effs (snd (submit_loop X H rpc tx (Suc attempt) u))) = http_reqs (effs u) @ replicate k ?q"
      by blast
    then have "http_reqs (effs (snd (submit_loop X H rpc tx attempt w))) = http_reqs (effs w) @ replicate (Suc k) ?q"
      "Suc k \<le> Suc max_attempts - attempt"
      using lt by (simp_all add: step u v)
    with none show ?thesis unfolding step [symmetric] by (intro conjI exI [of _ "Suc k"]) simp_all
  next
    case False
    have "fst (submit_loop X H rpc tx attempt w) \<noteq> Inr None \<and>
      http_reqs (effs (snd (submit_loop X H rpc tx attempt w))) = http_reqs (effs w) @ replicate 1 ?q"
      using False less.prems v by (cases r) (auto simp: unfold split: rpc_error.splits)
    then show ?thesis using less.prems by (intro conjI exI [of _ 1]) simp_all
  qed
qed

section \<open>What a completed cycle has done\<close>

lemmas handler_simps = bindW_Inr_iff liftW_eq returnW_eq map_errW_Inr_iff askW_def send_def modifyW_def tryW_def

lemma appends_phases:
  "appends (construct_phase X H cfg rpc i addr b q)" "appends (proving_phase H cfg b t p)" "appends (signed_payload X H c p)"
  "appends (verify_phase X H rpc i addr h)"
  unfolding construct_phase_def proving_phase_def signed_payload_def verify_phase_def nonce_at_def spawn_prover_def
    find_snip36_bin_def find_in_manifest_def proof_files_def counter_after_def log_def phase_def Let_def
  by (intro appends_intros appends_split)+

lemma appends_nonce_at: "appends (nonce_at X H cfg rpc b)"
  unfolding nonce_at_def by (intro appends_intros)

lemma appends_submit_loop: "appends (submit_loop X H rpc tx attempt)"
proof (induction "Suc max_attempts - attempt" arbitrary: attempt rule: less_induct)
  case (less attempt)
  have again: "attempt < max_attempts \<Longrightarrow> appends (submit_loop X H rpc tx (Suc attempt))" by (rule less) simp
  show ?case
    by (subst submit_loop.simps) (auto simp: log_def intro!: appends_intros again split: sum.split rpc_error.split)
qed

text \<open>
  The transaction file: what an asynchronous task adds to the trace between two worlds has the write of
  the invoke that was built, signed without proof facts.
\<close>

definition tx_written ::
  "('f, 'x) ext_scheme \<Rightarrow> config \<Rightarrow> string list \<Rightarrow> resource_bounds \<Rightarrow> string \<Rightarrow> 'f constructed
   \<Rightarrow> effect list \<Rightarrow> effect list \<Rightarrow> bool"
where
  "tx_written X cfg strs bounds path c old new \<longleftrightarrow>
     (\<exists>sig es. new = old @ es \<and> standard_signature X c bounds = Inr sig \<and>
        EWrite path (x_json_pretty X (standard_tx_json X cfg strs (ct_nonce c) bounds sig)) \<in> set es)"

lemma tx_written_wider:
  "tx_written X cfg strs bounds path c old new \<Longrightarrow> \<exists>es. old = before @ es \<Longrightarrow> \<exists>es. later = new @ es \<Longrightarrow>
     tx_written X cfg strs bounds path c before later"
  unfolding tx_written_def by fastforce

lemma appends_reqs: "appends m \<Longrightarrow> m w = (r, w') \<Longrightarrow> \<exists>es. http_reqs (effs w') = http_reqs (effs w) @ es"
  using appendsD by fastforce

lemma step_world_reqs: "http_reqs (effs (step_world [ESse ev d] w)) = http_reqs (effs w)"
  by (simp add: step_world_def)

text \<open>The account, the key, the chain and the calls of the transaction are those of the configuration.\<close>

definition constructed_for :: "('f, 'x) ext_scheme \<Rightarrow> config \<Rightarrow> string list \<Rightarrow> 'f constructed \<Rightarrow> bool" where
  "constructed_for X cfg strs c \<longleftrightarrow>
     map (felt_from_hex X) strs = map Inr (ct_calldata c) \<and> felt_from_hex X (cfg_account_address cfg) = Inr (ct_sender c) \<and>
     felt_from_hex X (cfg_private_key cfg) = Inr (ct_private_key c) \<and> config_chain_id_felt X cfg = Inr (ct_chain_id c)"

lemma parse_accounts_for:
  assumes "parse_accounts X cfg name strs = Inr (cd, sender, key, chain)"
  shows "constructed_for X cfg strs \<lparr>ct_sender = sender, ct_private_key = key, ct_calldata = cd, ct_chain_id = chain, ct_nonce = n\<rparr>"
  using assms by (auto simp: parse_accounts_def bindR_Inr_iff collectR_Inr_iff constructed_for_def)

text \<open>The nonce is the one the node answers for the account at a block, in an exchange from \<open>a\<close> on and before \<open>z\<close>.\<close>

definition nonce_answered ::
  "('f, 'x) ext_scheme \<Rightarrow> host_sys \<Rightarrow> config \<Rightarrow> starknet_rpc \<Rightarrow> u64 \<Rightarrow> nat \<Rightarrow> nat \<Rightarrow> u64 \<Rightarrow> bool"
where
  "nonce_answered X H cfg rpc block a z nonce \<longleftrightarrow>
     (\<exists>n answer. a \<le> n \<and> n < z \<and>
        answer_at H X rpc ''starknet_getNonce''
          (JObj [(''block_id'', JObj [(''block_number'', ju64 block)]), (''contract_address'', JStr (cfg_account_address cfg))]) n
            = Some answer \<and> parse_nonce X answer = Inr nonce)"

lemma nonce_at_answered:
  assumes "nonce_at X H cfg rpc block w = (Inr nonce, w')"
  shows "nonce_answered X H cfg rpc block (tick w) (tick w') nonce"
proof -
  let ?params = "JObj [(''block_id'', JObj [(''block_number'', ju64 block)]), (''contract_address'', JStr (cfg_account_address cfg))]"
  from assms obtain r where r: "call H X rpc ''starknet_getNonce'' ?params w = (Inr r, w')" "parse_nonce X r = Inr nonce"
    by (auto simp: nonce_at_def get_nonce_at_block_def handler_simps)
  have "answer_at H X rpc ''starknet_getNonce'' ?params (tick w) = Some r" using call_answer [of H X rpc _ ?params w] r(1) by (metis fst_conv ok_opt.simps(2))
  moreover have "tick w' = Suc (tick w)" using call_world [of H X rpc _ ?params w] r(1) by (metis do_http_simps(2) snd_conv)
  ultimately show ?thesis using r(2) unfolding nonce_answered_def by (intro exI [of _ "tick w"]) auto
qed

lemma nonce_answered_wider:
  "nonce_answered X H cfg rpc block a z n \<Longrightarrow> a' \<le> a \<Longrightarrow> z \<le> z' \<Longrightarrow> nonce_answered X H cfg rpc block a' z' n"
  unfolding nonce_answered_def by (meson le_trans less_le_trans)

text \<open>
  What the code reads back of a proof: the text of the proof file and the felts of the facts file,
  as the host returns them from \<open>a\<close> on and before \<open>z\<close>; before it the prover has run on the
  transaction and succeeded.
\<close>

definition files_read ::
  "('f, 'x) ext_scheme \<Rightarrow> host_sys \<Rightarrow> string \<Rightarrow> nat \<Rightarrow> nat \<Rightarrow> string \<times> 'f list \<Rightarrow> bool"
where
  "files_read X H proof_path a z files \<longleftrightarrow>
     (\<exists>m n proof_text facts_text facts_hex. a \<le> m \<and> m < n \<and> n < z \<and>
        hs_read H m proof_path = Inr proof_text \<and> fst files = trim proof_text \<and>
        hs_read H n (with_extension proof_path ''proof_facts'') = Inr facts_text \<and>
        parse_proof_facts_json X facts_text = Inr facts_hex \<and> map (felt_from_hex X) facts_hex = map Inr (snd files))"

definition prover_ran :: "host_sys \<Rightarrow> config \<Rightarrow> u64 \<Rightarrow> string \<Rightarrow> string \<Rightarrow> nat \<Rightarrow> nat \<Rightarrow> bool" where
  "prover_ran H cfg block tx_path proof_path a z \<longleftrightarrow>
     (\<exists>m bin child. a \<le> m \<and> m < z \<and> hs_child H m bin (prover_args H cfg block tx_path proof_path) [] = Inr child \<and>
        ch_success child)"

definition files_proved ::
  "('f, 'x) ext_scheme \<Rightarrow> host_sys \<Rightarrow> config \<Rightarrow> u64 \<Rightarrow> string \<Rightarrow> string \<Rightarrow> nat \<Rightarrow> nat \<Rightarrow> string \<times> 'f list \<Rightarrow> bool"
where
  "files_proved X H cfg block tx_path proof_path a z files \<longleftrightarrow>
     (\<exists>m. prover_ran H cfg block tx_path proof_path a m \<and> files_read X H proof_path m z files)"

lemma proof_files_read:
  assumes "proof_files X H p w = (Inr files, w')"
  shows "files_read X H p (tick w) (tick w') files"
proof -
  from assms obtain proof_text facts_text facts_hex facts where f:
    "hs_read H (Suc (tick w)) p = Inr proof_text" "hs_read H (Suc (Suc (tick w))) (with_extension p ''proof_facts'') = Inr facts_text"
    "parse_proof_facts_json X facts_text = Inr facts_hex" "map (felt_from_hex X) facts_hex = map Inr facts"
    "files = (trim proof_text, facts)" "tick w' = Suc (Suc (Suc (tick w)))"
    by (auto simp: proof_files_def handler_simps phase_def do_read_def step_world_def collectR_Inr_iff)
  show ?thesis unfolding files_read_def
    by (rule exI [of _ "Suc (tick w)"], rule exI [of _ "Suc (Suc (tick w))"], rule exI [of _ proof_text],
        rule exI [of _ facts_text], rule exI [of _ facts_hex]) (simp add: f)
qed

lemma spawned:
  assumes "spawn_prover H cfg b t p w = (Inr child, w')"
  shows "\<exists>m bin. tick w \<le> m \<and> m < tick w' \<and> hs_child H m bin (prover_args H cfg b t p) [] = Inr child"
proof -
  from assms obtain bin v where find: "(find_snip36_bin H :: (string, string) handler) (step_world [ESse ''log'' (''Proving against block '' @ fmt_dec (unat b) @ ''...'')]
      (step_world [ESse ''phase'' ''proving''] w)) = (Inr bin, v)"
    and child: "do_child H bin (prover_args H cfg b t p) [] v = (Inr child, w')"
    by (auto simp: spawn_prover_def handler_simps phase_def log_def)
  have "appends (find_snip36_bin H :: (string, string) handler)"
    unfolding find_snip36_bin_def find_in_manifest_def Let_def by (intro appends_intros appends_split)
  from appends_tick [OF this find] child show ?thesis
    by (intro exI [of _ "tick v"] exI [of _ bin]) (auto simp: do_child_def step_world_def)
qed

lemma forW_log_tick: "forW log ls w = (r, v) \<Longrightarrow> tick w \<le> tick v"
proof -
  have "appends (forW log ls :: ('e, unit) handler)" unfolding log_def by (intro appends_intros)
  then show "forW log ls w = (r, v) \<Longrightarrow> tick w \<le> tick v" by (rule appends_tick)
qed

lemma proving_ran:
  assumes "proving_phase H cfg b t p w = (Inr sz, w')"
  shows "prover_ran H cfg b t p (tick w) (tick w')"
proof -
  obtain child v where child: "spawn_prover H cfg b t p w = (Inr child, v)"
    and rest: "(bindW (forW log (filter (\<lambda>l. l \<noteq> []) (ch_lines child))) (\<lambda>_.
     bindW (if ch_success child then do_exists H p else returnW False) (\<lambda>proved.
     if \<not> proved then throwW ''Proof generation failed''
     else
       bindW (do_size H p) (\<lambda>proof_size.
       bindW (log (''Proof generated ('' @ fmt_dec (unat proof_size) @ '' bytes)'')) (\<lambda>_.
       let messages_file = with_extension p ''raw_messages.json''
       in bindW (do_exists H messages_file) (\<lambda>saved.
          bindW (if saved then log (''L2'' @ bytes [0xE2, 0x86, 0x92] @ ''L1 messages saved: '' @ messages_file) else returnW ()) (\<lambda>_.
          returnW proof_size)))))) :: (string, u64) handler) v = (Inr sz, w')"
    using assms unfolding proving_phase_def by (subst (asm) bindW_Inr_iff) (elim exE conjE, rule that)
  have success: "ch_success child" using rest by (auto simp: bindW_Inr_iff returnW_eq split: if_splits)
  have "tick v \<le> tick w'" using rest unfolding log_def Let_def
    by (rule appends_tick [rotated]) (intro appends_intros appends_split)
  with spawned [OF child(1)] success show ?thesis unfolding prover_ran_def by (meson less_le_trans)
qed

text \<open>The hash of a submission is the one the node answered to it.\<close>

definition submission_answered ::
  "('f, 'x) ext_scheme \<Rightarrow> host_sys \<Rightarrow> starknet_rpc \<Rightarrow> json \<Rightarrow> string \<Rightarrow> nat \<Rightarrow> nat \<Rightarrow> bool"
where
  "submission_answered X H rpc tx h a z \<longleftrightarrow>
     (\<exists>n answer. a \<le> n \<and> n < z \<and>
        answer_at H X rpc ''starknet_addInvokeTransaction'' (JObj [(''invoke_transaction'', tx)]) n = Some answer \<and>
        jget_str ''transaction_hash'' answer = Some h)"

lemma submission_answered_wider:
  "submission_answered X H rpc tx h a z \<Longrightarrow> a' \<le> a \<Longrightarrow> z \<le> z' \<Longrightarrow> submission_answered X H rpc tx h a' z'"
  unfolding submission_answered_def by (meson le_trans less_le_trans)

lemma add_invoke_answered:
  assumes "add_invoke_transaction H X rpc tx w = (Inr h, w')"
  shows "submission_answered X H rpc tx h (tick w) (tick w')"
proof -
  let ?params = "JObj [(''invoke_transaction'', tx)]"
  from assms obtain r where r: "call H X rpc ''starknet_addInvokeTransaction'' ?params w = (Inr r, w')"
    "jget_str ''transaction_hash'' r = Some h"
    by (auto simp: add_invoke_transaction_def handler_simps)
  have "answer_at H X rpc ''starknet_addInvokeTransaction'' ?params (tick w) = Some r"
    using call_answer [of H X rpc _ ?params w] r(1) by (metis fst_conv ok_opt.simps(2))
  moreover have "tick w' = Suc (tick w)" using call_world [of H X rpc _ ?params w] r(1) by (metis do_http_simps(2) snd_conv)
  ultimately show ?thesis using r(2) unfolding submission_answered_def by (intro exI [of _ "tick w"]) auto
qed

lemma submit_loop_answered:
  assumes "submit_loop X H rpc tx attempt w = (Inr (Some h), w')"
  shows "submission_answered X H rpc tx h (tick w) (tick w')"
  using assms
proof (induction "Suc max_attempts - attempt" arbitrary: attempt w rule: less_induct)
  case (less attempt)
  obtain r v where add: "add_invoke_transaction H X rpc tx w = (r, v)" by force
  have v: "tick w \<le> tick v" using appends_tick [OF appends_rpc(6) add] .
  note unfold = submit_loop.simps [of X H rpc tx attempt] bindW_def tryW_def add log_def send_def step_world_def returnW_def throwW_def sleepW_def
  show ?case
  proof (cases r)
    case (Inr acc)
    then have "acc = h" "tick w' = Suc (tick v)" using less.prems by (auto simp: unfold split: if_splits)
    then show ?thesis using submission_answered_wider [OF add_invoke_answered [OF add [unfolded Inr]], of "tick w" "tick w'"] by simp
  next
    case (Inl e)
    then obtain msg where e: "e = JsonRpc msg" and lt: "attempt < max_attempts"
      using less.prems by (cases e) (auto simp: unfold split: if_splits)
    define u where "u = do_sleep H 10 (v\<lparr>tick := Suc (tick v), effs := effs v @
       [ESse ''log'' (''RPC error '' @ attempt_text attempt @ '', waiting 10s... ('' @ msg @ '')'')]\<rparr>)"
    have "submit_loop X H rpc tx (Suc attempt) u = (Inr (Some h), w')"
      using less.prems lt by (simp add: unfold Inl e u_def)
    moreover have "tick w \<le> tick u" using v by (simp add: u_def)
    ultimately show ?thesis using less.hyps [of "Suc attempt" u] lt submission_answered_wider by fastforce
  qed
qed

text \<open>The block recorded at the end is that of the receipt the node answered.\<close>

lemma verify_phase_session:
  assumes "verify_phase X H rpc i addr h w = (Inr n, w')"
  shows "\<exists>receipt. receipt_answered H X rpc h (tick w) (tick w') receipt \<and> confirmed_receipt receipt \<and>
     ses_last_reference_block (session_at i (aw_state w')) = Some (unwrap_or (receipt_block_number receipt) 0)"
proof -
  let ?upd = "\<lambda>receipt. update_session_with i (\<lambda>s. s\<lparr>ses_last_reference_block := Some (unwrap_or (receipt_block_number receipt) 0)\<rparr>)"
  let ?l = "\<lambda>receipt. step_world [ESse ''log'' (''Tx included in block '' @ fmt_dec (unat (unwrap_or (receipt_block_number receipt) 0)))]"
  define u where "u = step_world [ESse ''log'' ''Waiting for tx inclusion...''] (step_world [ESse ''phase'' ''verifying''] w)"
  from assms obtain receipt v where wait: "wait_for_tx H X rpc h 180 5 u = (Inr receipt, v)"
    and last: "(counter_after X H rpc addr :: (string, u64) handler) (after_access (?upd receipt) (?l receipt v)) = (Inr n, w')"
    by (auto simp: verify_phase_def handler_simps log_def phase_def Let_def u_def)
  have keeps: "untouched (counter_after X H rpc addr :: (string, u64) handler)"
    unfolding counter_after_def log_def Let_def by (intro keeps_intros)
  have "appends (counter_after X H rpc addr :: (string, u64) handler)"
    unfolding counter_after_def log_def Let_def by (intro appends_intros)
  from appends_tick [OF this last] have "tick v \<le> tick w'" by (simp add: step_world_def)
  moreover have "tick w \<le> tick u" by (simp add: u_def step_world_def)
  ultimately have "receipt_answered H X rpc h (tick w) (tick w') receipt"
    using receipt_answered_wider [OF wait_for_tx_receipt(2) [OF wait]] by blast
  then show ?thesis using untouched_shared [OF keeps last] wait_for_tx_receipt(1) [OF wait] by (auto simp: shared_parts)
qed

lemma construct_phase_done:
  assumes "construct_phase X H cfg rpc i addr b q w = (Inr (c, t, p), w')"
  shows "constructed_for X cfg (multicall_strs addr q) c" and "nonce_answered X H cfg rpc b (tick w) (tick w') (ct_nonce c)"
    and "t = path_join (path_join (cfg_output_dir cfg) ''playground'') (i @ ''_tx.json'')"
    and "p = path_join (path_join (cfg_output_dir cfg) ''playground'') (i @ ''.proof'')"
    and "tx_written X cfg (multicall_strs addr q) default_bounds t c (effs w) (effs w')"
proof -
  define u where "u = step_world [ESse ''phase'' ''constructing''] (step_world [ESse ''log'' (''Starting SNIP-36 cycle: '' @
     fmt_dec (unat (pq_increments_per_block q)) @ '' calls x increment('' @
     fmt_dec (unat (pq_increment_amount q)) @ '') = +'' @ fmt_dec (unat (expected_increment q)) @ '' per block'')] w)"
  from assms obtain cd sender key chain nonce v sig es where
    accounts: "parse_accounts X cfg ''account'' (multicall_strs addr q) = Inr (cd, sender, key, chain)"
    and nonce: "nonce_at X H cfg rpc b u = (Inr nonce, v)"
    and c: "c = \<lparr>ct_sender = sender, ct_private_key = key, ct_calldata = cd, ct_chain_id = chain, ct_nonce = nonce\<rparr>"
    and t: "t = path_join (path_join (cfg_output_dir cfg) ''playground'') (i @ ''_tx.json'')"
      "p = path_join (path_join (cfg_output_dir cfg) ''playground'') (i @ ''.proof'')"
    and w': "tick v \<le> tick w'" and sig: "standard_signature X c default_bounds = Inr sig"
    and es: "effs w' = effs v @ [EWrite t (x_json_pretty X (standard_tx_json X cfg (multicall_strs addr q) nonce default_bounds sig))] @ es"
    by (auto simp: construct_phase_def handler_simps log_def phase_def Let_def u_def do_mkdir_def do_write_def step_world_def)
  show "constructed_for X cfg (multicall_strs addr q) c" using parse_accounts_for [OF accounts] by (simp add: c)
  have "tick w \<le> tick u" by (simp add: u_def step_world_def)
  then show "nonce_answered X H cfg rpc b (tick w) (tick w') (ct_nonce c)"
    using nonce_answered_wider [OF nonce_at_answered [OF nonce] _ w'] by (simp add: c)
  show "t = path_join (path_join (cfg_output_dir cfg) ''playground'') (i @ ''_tx.json'')"
    "p = path_join (path_join (cfg_output_dir cfg) ''playground'') (i @ ''.proof'')" by (rule t)+
  obtain es' where "effs v = effs w @ es'" using appendsD [OF appends_nonce_at nonce] by (auto simp: u_def step_world_def)
  then show "tx_written X cfg (multicall_strs addr q) default_bounds t c (effs w) (effs w')"
    unfolding tx_written_def using sig es by (auto simp: c)
qed

lemma signed_payload_read:
  assumes "signed_payload X H c p w = (Inr (h, payload), w')"
  shows "\<exists>files. files_read X H p (tick w) (tick w') files \<and>
     sign_and_build_payload X (submission_params X c files (x_from_u64 X (ct_nonce c))) = Inr (h, payload)"
proof -
  from assms obtain files where f: "proof_files X H p w = (Inr files, w')"
    "sign_and_build_payload X (submission_params X c files (x_from_u64 X (ct_nonce c))) = Inr (h, payload)"
    by (auto simp: signed_payload_def handler_simps)
  from proof_files_read [OF f(1)] f(2) show ?thesis by blast
qed

text \<open>C18. Whatever other requests do to the shared state meanwhile, a completed proving cycle has built the multicall of the query with the nonce a node answered for the account, written it, signed without proof facts, to the transaction file of the session, run the prover, which succeeded, and read the proof and the facts back from the files it was told to write; it signed that multicall with those facts and submitted exactly that payload one to twenty times in a row. The node answered a submission with a transaction hash, and later answered a receipt request for that hash with a confirmed receipt; the block of that receipt, or 0 when it names none, is the next reference block of the session.\<close>
theorem prove_block_cycle:
  assumes "prove_block_task X H i addr b q w = (Inr (), w')"
  shows "let cfg = as_config (aw_state w); rpc = as_rpc (aw_state w);
             dir = path_join (cfg_output_dir cfg) ''playground''
   in \<exists>c files h payload m k before after accepted receipt.
     constructed_for X cfg (multicall_strs addr q) c \<and> nonce_answered X H cfg rpc b (tick w) (tick w') (ct_nonce c) \<and>
     tx_written X cfg (multicall_strs addr q) default_bounds (path_join dir (i @ ''_tx.json'')) c (effs w) (effs w') \<and>
     files_proved X H cfg b (path_join dir (i @ ''_tx.json'')) (path_join dir (i @ ''.proof'')) (tick w) m files \<and>
     sign_and_build_payload X (submission_params X c files (x_from_u64 X (ct_nonce c))) = Inr (h, payload) \<and>
     1 \<le> k \<and> k \<le> max_attempts \<and>
     http_reqs (effs w') = http_reqs (effs w) @ before @
       replicate k (client_url rpc,
         rpc_payload ''starknet_addInvokeTransaction'' (JObj [(''invoke_transaction'', payload)])) @ after \<and>
     (\<exists>m'. submission_answered X H rpc payload accepted m m' \<and>
        receipt_answered H X rpc accepted m' (tick w') receipt) \<and> confirmed_receipt receipt \<and>
     ses_last_reference_block (session_at i (aw_state w')) = Some (unwrap_or (receipt_block_number receipt) 0)"
proof -
  let ?rpc = "as_rpc (aw_state w)" and ?cfg = "as_config (aw_state w)"
  let ?dir = "path_join (cfg_output_dir ?cfg) ''playground''"
  from assms obtain c t p w1 proof_size w2 h payload w3 acc w4 n w5 where
    s1: "construct_phase X H ?cfg ?rpc i addr b q w = (Inr (c, t, p), w1)"
    and s2: "proving_phase H ?cfg b t p w1 = (Inr proof_size, w2)"
    and s3: "signed_payload X H c p w2 = (Inr (h, payload), w3)"
    and s4: "submit_loop X H ?rpc payload 1 (step_world [ESse ''log'' (submit_text X h)] w3) = (Inr (Some acc), w4)"
    and s5: "verify_phase X H ?rpc i addr acc w4 = (Inr n, w5)"
    and w': "w' = step_world [ESse ''complete'' (x_json_text X (complete_json acc n proof_size (expected_increment q)))] w5"
    by (auto simp: prove_block_task_def handler_simps log_def)
  note c = construct_phase_done [OF s1]
  obtain files where files: "files_read X H p (tick w2) (tick w3) files"
    "sign_and_build_payload X (submission_params X c files (x_from_u64 X (ct_nonce c))) = Inr (h, payload)"
    using signed_payload_read [OF s3] by blast
  have t1: "tick w \<le> tick w1" using appends_tick [OF appends_phases(1) s1] .
  have t2: "tick w1 \<le> tick w2" using appends_tick [OF appends_phases(2) s2] .
  have t3: "tick w2 \<le> tick w3" using appends_tick [OF appends_phases(3) s3] .
  have t5: "tick w4 \<le> tick w5" using appends_tick [OF appends_phases(4) s5] .
  have t4: "tick w3 \<le> tick w4" using submit_loop_answered [OF s4] by (auto simp: submission_answered_def step_world_def)
  have w5: "tick w5 \<le> tick w'" "aw_state w' = aw_state w5" by (simp_all add: w' step_world_def)
  have ran: "prover_ran H ?cfg b t p (tick w) (tick w2)"
    using proving_ran [OF s2] t1 unfolding prover_ran_def by (meson le_trans)
  have proved: "files_proved X H ?cfg b (path_join ?dir (i @ ''_tx.json'')) (path_join ?dir (i @ ''.proof'')) (tick w) (tick w3) files"
    using ran files(1) unfolding files_proved_def c(3,4) by blast
  have nonce: "nonce_answered X H ?cfg ?rpc b (tick w) (tick w') (ct_nonce c)"
    using nonce_answered_wider [OF c(2)] t2 t3 t4 t5 w5(1) by (meson le_trans order_refl)
  have sub: "submission_answered X H ?rpc payload acc (tick w3) (tick w4)"
    using submission_answered_wider [OF submit_loop_answered [OF s4]] by (simp add: step_world_def)
  obtain receipt where receipt: "receipt_answered H X ?rpc acc (tick w4) (tick w5) receipt" "confirmed_receipt receipt"
    "ses_last_reference_block (session_at i (aw_state w5)) = Some (unwrap_or (receipt_block_number receipt) 0)"
    using verify_phase_session [OF s5] by blast
  have rcpt: "receipt_answered H X ?rpc acc (tick w4) (tick w') receipt" using receipt_answered_wider [OF receipt(1)] w5(1) by blast
  have later: "\<exists>es. effs w' = effs w1 @ es"
    using appendsD [OF appends_phases(2) s2] appendsD [OF appends_phases(3) s3] appendsD [OF appends_submit_loop s4]
      appendsD [OF appends_phases(4) s5] by (auto simp: w' step_world_def)
  have written: "tx_written X ?cfg (multicall_strs addr q) default_bounds (path_join ?dir (i @ ''_tx.json'')) c (effs w) (effs w')"
    using tx_written_wider [OF c(5) _ later, of "effs w"] by (simp add: c(3))
  obtain e1 where e1: "http_reqs (effs w1) = http_reqs (effs w) @ e1" using appends_reqs [OF appends_phases(1) s1] by blast
  obtain e2 where e2: "http_reqs (effs w2) = http_reqs (effs w1) @ e2" using appends_reqs [OF appends_phases(2) s2] by blast
  obtain e3 where e3: "http_reqs (effs w3) = http_reqs (effs w2) @ e3" using appends_reqs [OF appends_phases(3) s3] by blast
  obtain e5 where e5: "http_reqs (effs w5) = http_reqs (effs w4) @ e5" using appends_reqs [OF appends_phases(4) s5] by blast
  obtain k where k: "1 \<le> k" "k \<le> max_attempts"
    "http_reqs (effs w4) = http_reqs (effs w3) @ replicate k (client_url ?rpc,
       rpc_payload ''starknet_addInvokeTransaction'' (JObj [(''invoke_transaction'', payload)]))"
    using submit_loop_requests [of 1 X H ?rpc payload "step_world [ESse ''log'' (submit_text X h)] w3"]
    unfolding s4 snd_conv step_world_reqs by (auto simp: max_attempts_def)
  have reqs: "http_reqs (effs w') = http_reqs (effs w) @ (e1 @ e2 @ e3) @
      replicate k (client_url ?rpc, rpc_payload ''starknet_addInvokeTransaction'' (JObj [(''invoke_transaction'', payload)])) @ e5"
    by (simp add: w' step_world_def e5 k(3) e3 e2 e1)
  show ?thesis unfolding Let_def
    by (rule exI [of _ c], rule exI [of _ files], rule exI [of _ h], rule exI [of _ payload], rule exI [of _ "tick w3"],
        rule exI [of _ k], rule exI [of _ "e1 @ e2 @ e3"], rule exI [of _ e5], rule exI [of _ acc], rule exI [of _ receipt])
      (intro conjI exI [of _ "tick w4"] c(1) nonce written proved files(2) k(1,2) reqs sub rcpt receipt(2) receipt(3) [folded w5(2)])
qed

section \<open>A run of the cycle\<close>

definition sample_query :: prove_block_query where
  "sample_query = \<lparr>pq_increment_amount = 2, pq_increments_per_block = 1\<rparr>"

lemma sample_felts:
  assumes "list_all (\<lambda>s. list_all (\<lambda>c. hex_val c \<noteq> None) (trim_start_0x s)) ss"
  shows "\<exists>fs. collectR (map (felt_from_hex ref_ext) ss) = Inr fs"
  using assms
proof (induction ss)
  case (Cons s ss)
  then have "is_ok (ref_from_hex s)" by (auto intro: ref_from_hex_ok)
  then obtain f where "felt_from_hex ref_ext s = Inr f" by (auto simp: is_ok_iff felt_from_hex_def ref_ext_def)
  with Cons show ?case by auto
qed simp

lemma ref_small_felts: "felt_from_hex ref_ext ''0x1'' = Inr 1" "felt_from_hex ref_ext ''0x2'' = Inr 2"
  "felt_from_hex ref_ext ''0x7'' = Inr 7"
proof -
  have "ref_from_hex ''0x1'' = Inr 1" "ref_from_hex ''0x2'' = Inr 2" "ref_from_hex ''0x7'' = Inr 7" by code_simp+
  then show "felt_from_hex ref_ext ''0x1'' = Inr 1" "felt_from_hex ref_ext ''0x2'' = Inr 2" "felt_from_hex ref_ext ''0x7'' = Inr 7"
    by (simp_all add: felt_from_hex_def ref_ext_def)
qed

lemma ref_sign: "k \<noteq> 0 \<Longrightarrow> \<exists>sig. sign ref_ext k h = Inr sig"
  by (simp add: sign_def ref_ext_def Let_def)

lemma ref_chain_id: "\<exists>c. config_chain_id_felt ref_ext sample_config = Inr c"
  by (simp add: config_chain_id_felt_def sample_config_def)

lemma ref_nonce: "get_nonce_at_block ref_host ref_ext rpc a blk w =
    (Inr 3, after_http (client_url rpc) (rpc_payload ''starknet_getNonce'' (JObj [(''block_id'', blk), (''contract_address'', JStr a)])) w)"
proof -
  have "fmt_hex (unat (3 :: u64)) = ''0x3''" by code_simp
  then have "u64_from_str_radix16 (trim_start_0x ''0x3'') = Inr 3" by (metis parse_fmt_hex)
  then have "parse_nonce ref_ext (JStr ''0x3'') = Inr 3" by (simp add: parse_nonce_def)
  then show ?thesis by (simp add: get_nonce_at_block_def bindW_def liftW_def ref_call)
      (simp add: ref_node_def rpc_payload_def jget_str_def Let_def)
qed

lemma ref_host_steps:
  "do_mkdir ref_host d = (\<lambda>w. (Inr (), step_world [] w))" "do_write ref_host f t = (\<lambda>w. (Inr (), step_world [EWrite f t] w))"
  "do_exists ref_host f = (\<lambda>w. (Inr True, step_world [] w))" "do_size ref_host f = (\<lambda>w. (Inr 4, step_world [] w))"
  "do_read ref_host f = (\<lambda>w. (Inr ''0x7'', step_world [] w))"
  "do_child ref_host prog args env = (\<lambda>w. (Inr \<lparr>ch_lines = [''done''], ch_success = True\<rparr>, step_world [EExec prog args] w))"
  by (simp_all add: fun_eq_iff do_mkdir_def do_write_def do_exists_def do_size_def do_read_def do_child_def ref_host_def)

lemma sample_calldata: "\<exists>cd. collectR (map (felt_from_hex ref_ext) (multicall_strs ''0xc'' sample_query)) = Inr cd"
  by (rule sample_felts, code_simp)

lemma sample_construct:
  "\<exists>c t p w'. construct_phase ref_ext ref_host sample_config rpc i ''0xc'' b sample_query w = (Inr (c, t, p), w') \<and> ct_private_key c = 2"
proof -
  obtain cd where cd: "collectR (map (felt_from_hex ref_ext) (multicall_strs ''0xc'' sample_query)) = Inr cd" using sample_calldata by blast
  obtain cid where cid: "config_chain_id_felt ref_ext sample_config = Inr cid" using ref_chain_id by blast
  have accounts: "parse_accounts ref_ext sample_config ''account'' (multicall_strs ''0xc'' sample_query) = Inr (cd, 1, 2, cid)"
    using cid by (simp add: parse_accounts_def cd sample_config_def ref_small_felts)
  obtain sig where sig: "standard_signature ref_ext \<lparr>ct_sender = 1, ct_private_key = 2, ct_calldata = cd, ct_chain_id = cid, ct_nonce = 3\<rparr>
      default_bounds = Inr sig"
    using ref_sign [of 2] by (auto simp: standard_signature_def)
  show ?thesis
    by (simp add: construct_phase_def bindW_def log_def phase_def send_def liftW_def accounts map_errW_def nonce_at_def ref_nonce
        sig [unfolded One_nat_def] ref_host_steps Let_def returnW_def)
qed

lemma ref_find_bin: "find_snip36_bin ref_host = (\<lambda>w. (Inr ''snip36'', w))"
  by (simp add: find_snip36_bin_def find_in_manifest_def ref_host_def bindW_def returnW_def fun_eq_iff)

lemma sample_proving: "\<exists>n w'. proving_phase ref_host cfg b t p w = (Inr n, w')"
  by (simp add: proving_phase_def spawn_prover_def ref_find_bin bindW_def map_errW_def ref_host_steps
      log_def phase_def send_def returnW_def Let_def)

lemma sample_signed_payload:
  assumes "ct_private_key c = 2"
  shows "\<exists>h payload w'. signed_payload ref_ext ref_host c p w = (Inr (h, payload), w')"
proof -
  let ?files = "(trim ''0x7'', [7 :: nat])"
  obtain h payload where "sign_and_build_payload ref_ext (submission_params ref_ext c ?files (x_from_u64 ref_ext (ct_nonce c))) = Inr (h, payload)"
    using ref_sign [of 2] assms by (fastforce simp: sign_and_build_payload_def submission_params_def Let_def bindR_Inr_iff)
  moreover have "x_vec_string_parse ref_ext ''0x7'' = Inr [''0x7'']" by (simp add: ref_ext_def)
  ultimately show ?thesis
    by (simp add: signed_payload_def proof_files_def bindW_def phase_def send_def map_errW_def ref_host_steps liftW_def returnW_def
        parse_proof_facts_json_def ref_small_felts)
qed

lemma sample_submit: "\<exists>h w'. submit_loop ref_ext ref_host rpc tx 1 w = (Inr (Some h), w')"
  by (simp add: submit_loop.simps [of ref_ext] max_attempts_def bindW_def tryW_def add_invoke_transaction_def ref_call liftW_def)
    (simp add: ref_node_def rpc_payload_def jget_str_def Let_def log_def send_def returnW_def bindW_def)

lemma sample_verify: "\<exists>n w'. verify_phase ref_ext ref_host rpc i a h w = (Inr n, w')"
  by (simp add: verify_phase_def counter_after_def bindW_def phase_def log_def send_def map_errW_def wait_ref_host modifyW_def tryW_def
      returnW_def Let_def)

lemma sample_cycle:
  "\<exists>w'. prove_block_task ref_ext ref_host ''s1'' ''0xc'' 4 sample_query sample_world = (Inr (), w')"
proof -
  let ?rpc = "as_rpc sample_state"
  have cfg: "as_config sample_state = sample_config" by (simp add: sample_state_def app_state_new_def)
  obtain c t p w1 where 1: "construct_phase ref_ext ref_host sample_config ?rpc ''s1'' ''0xc'' 4 sample_query sample_world = (Inr (c, t, p), w1)"
    and key: "ct_private_key c = 2" using sample_construct by blast
  obtain n w2 where 2: "proving_phase ref_host sample_config 4 t p w1 = (Inr n, w2)" using sample_proving by blast
  obtain h payload w3 where 3: "signed_payload ref_ext ref_host c p w2 = (Inr (h, payload), w3)" using sample_signed_payload [OF key] by blast
  obtain a w4 where 4: "submit_loop ref_ext ref_host ?rpc payload 1 (step_world [ESse ''log'' (submit_text ref_ext h)] w3) = (Inr (Some a), w4)"
    using sample_submit by blast
  obtain v w5 where 5: "verify_phase ref_ext ref_host ?rpc ''s1'' ''0xc'' a w4 = (Inr v, w5)" using sample_verify by blast
  show ?thesis
    by (simp add: prove_block_task_def bindW_def askW_def sample_world_simps cfg 1 2 3 log_def send_def 4 [unfolded One_nat_def] liftW_def 5)
qed

theorem prove_block_cycle_witness:
  "\<exists>w' k before after. prove_block_task ref_ext ref_host ''s1'' ''0xc'' 4 sample_query sample_world = (Inr (), w') \<and>
     1 \<le> k \<and> k \<le> max_attempts \<and>
     (\<exists>payload. http_reqs (effs w') = before @ replicate k (''http://node'',
        rpc_payload ''starknet_addInvokeTransaction'' (JObj [(''invoke_transaction'', payload)])) @ after) \<and>
     (\<exists>b. ses_last_reference_block (session_at ''s1'' (aw_state w')) = Some b)"
proof -
  obtain w' where w': "prove_block_task ref_ext ref_host ''s1'' ''0xc'' 4 sample_query sample_world = (Inr (), w')"
    using sample_cycle by blast
  have "client_url (as_rpc (aw_state sample_world)) = ''http://node''" "http_reqs (effs sample_world) = []"
    by (simp_all add: sample_world_def sample_state_def app_state_new_def rpc_new_def sample_config_def)
  with prove_block_cycle [OF w'] w' show ?thesis by (metis append_Nil)
qed

end
