(* ===== verification/Coinflip.thy ===== *)
theory Coinflip
  imports Prove_Block "HOL-Library.Sublist"
begin

text \<open>
  The coin flip game of the playground, \<open>crates/snip36-server/src/routes/coinflip.rs\<close>: a player
  commits to a bet before the seed is locked, reveals it, and the server proves and submits the
  game. \<open>play_route\<close> is the reveal and \<open>game_task\<close> the stream it starts. A panic of that stream
  is the error \<open>None\<close>: the stream then ends without an \<open>error\<close> event, and in a release build, which aborts on
  a panic, the server ends with it (theory \<open>Server_App\<close>). The lines of the prover come before the events
  that follow its exit. \<open>serve\<close>
  records what a request has done with the commitments, at the access that did it, whatever other
  requests do to the shared state meanwhile (theory \<open>Server_Overlap\<close> puts the requests together), and
  \<open>ledger_step\<close> is the contract of the ledger of commitments it implements.
\<close>

section \<open>Status and deployment\<close>

record status_response =
  sta_deployed :: bool
  sta_contract_address :: "string option"

definition coinflip_status :: "('e, status_response) handler" where
  "coinflip_status =
     bindW (readW as_coinflip) (\<lambda>deployment.
     returnW (case deployment of
                Some d \<Rightarrow> \<lparr>sta_deployed = True, sta_contract_address = Some (cd_contract_address d)\<rparr>
              | None \<Rightarrow> \<lparr>sta_deployed = False, sta_contract_address = None\<rparr>))"

text \<open>The scan of the game's own \<open>parse_hex\<close>: the first group of one expression over the whole text.\<close>

definition coinflip_parse_hex :: "host_sys \<Rightarrow> string \<Rightarrow> string \<Rightarrow> string option" where
  "coinflip_parse_hex H key text =
     (let re = ''(?i)'' @ replace_char (CHR ''_'') ''[_ ]'' key @ ''[:'' @ [CHR 0x5C] @ ''s]+'' @ [CHR 0x5C] @ ''s*('' @ HEX_PATTERN @ '')''
      in if hs_regex_valid H re then hs_regex_group H re text else None)"

definition coinflip_extract_long_hex :: "host_sys \<Rightarrow> string \<Rightarrow> string option" where
  "coinflip_extract_long_hex H text =
     (let re = ''0x[0-9a-fA-F]{50,}'' in if hs_regex_valid H re then hs_regex_find H re text else None)"

text \<open>What follows the declaration: its transaction is awaited when the output names one.\<close>

definition await_declared :: "('f, 'x) ext_scheme \<Rightarrow> host_sys \<Rightarrow> starknet_rpc \<Rightarrow> string \<Rightarrow> ('e, unit) handler" where
  "await_declared X H rpc text =
     (case coinflip_parse_hex H ''transaction_hash'' text of
        Some tx \<Rightarrow> ignoreW (wait_for_tx H X rpc tx 120 3)
      | None \<Rightarrow> returnW ())"

definition deploy_coinflip :: "('f, 'x) ext_scheme \<Rightarrow> host_sys \<Rightarrow> (api_error, coinflip_deployment) handler" where
  "deploy_coinflip X H =
     bindW (readW as_coinflip) (\<lambda>existing.
     case existing of
       Some d \<Rightarrow> returnW d
     | None \<Rightarrow>
         bindW (askW as_config) (\<lambda>cfg. bindW (askW as_rpc) (\<lambda>rpc.
         bindW (map_errW (error_response INTERNAL_SERVER_ERROR) (declare_contract H cfg ''CoinFlip'')) (\<lambda>declared.
         bindW (liftW (ok_or (error_response INTERNAL_SERVER_ERROR (''CoinFlip declare failed: '' @ combined_output declared))
                         (coinflip_extract_long_hex H (combined_output declared)))) (\<lambda>class_hash.
         bindW (await_declared X H rpc (combined_output declared)) (\<lambda>_.
         bindW (do_random_hex H) (\<lambda>salt.
         bindW (map_errW (error_response INTERNAL_SERVER_ERROR) (deploy_class H cfg class_hash (''0x'' @ salt))) (\<lambda>out.
         if \<not> pr_success out
         then throwW (error_response INTERNAL_SERVER_ERROR (''CoinFlip deploy failed: '' @ combined_output out))
         else
           bindW (liftW (ok_or (error_response INTERNAL_SERVER_ERROR (''No contract_address in deploy output: '' @ combined_output out))
                           (coinflip_parse_hex H ''contract_address'' (combined_output out)))) (\<lambda>contract_address.
           bindW (liftW (ok_or (error_response INTERNAL_SERVER_ERROR (''No transaction_hash in deploy output: '' @ combined_output out))
                           (coinflip_parse_hex H ''transaction_hash'' (combined_output out)))) (\<lambda>tx_hash.
           bindW (map_errW (\<lambda>e. error_response GATEWAY_TIMEOUT (rpc_error_display e)) (wait_for_tx H X rpc tx_hash 120 3)) (\<lambda>receipt.
           let d = \<lparr>cd_contract_address = contract_address, cd_class_hash = class_hash,
                    cd_deploy_block = unwrap_or (receipt_block_number receipt) 0\<rparr>
           in bindW (modifyW (\<lambda>st. st\<lparr>as_coinflip := Some d\<rparr>)) (\<lambda>_. returnW d))))))))))))"

section \<open>Commit\<close>

record commit_request =
  cr_commitment :: string
  cr_player :: string

record commit_response =
  cmr_session_id :: string
  cmr_seed_block :: u64

definition u64_saturating_pred :: "u64 \<Rightarrow> u64" where
  "u64_saturating_pred n = (if n = 0 then 0 else n - 1)"

definition commit_bet ::
  "('f, 'x) ext_scheme \<Rightarrow> host_sys \<Rightarrow> commit_request \<Rightarrow> (api_error, commit_response) handler"
where
  "commit_bet X H req =
     bindW (askW as_rpc) (\<lambda>rpc.
     bindW (map_errW (\<lambda>e. error_response INTERNAL_SERVER_ERROR (''Failed to get block number: '' @ rpc_error_display e))
              (rpc_block_number H X rpc)) (\<lambda>n.
     let seed_block = u64_saturating_pred n
     in bindW (do_uuid H) (\<lambda>session_id.
        bindW (modifyW (\<lambda>st. st\<lparr>as_commitments := (as_commitments st)(session_id \<mapsto>
                 \<lparr>bc_commitment = cr_commitment req, bc_seed_block = seed_block, bc_player = cr_player req\<rparr>)\<rparr>)) (\<lambda>_.
        returnW \<lparr>cmr_session_id = session_id, cmr_seed_block = seed_block\<rparr>))))"

section \<open>Reveal\<close>

record play_query =
  pl_player :: string
  pl_bet :: "8 word"
  pl_nonce :: string

definition clamped_bet :: "play_query \<Rightarrow> 8 word" where
  "clamped_bet q = min (pl_bet q) 1"

definition bet_label :: "8 word \<Rightarrow> string" where
  "bet_label bet = (if bet = 0 then ''heads'' else ''tails'')"

text \<open>Removing a commitment, as \<open>DashMap::remove\<close> does.\<close>

definition take_commitment :: "string \<Rightarrow> app_state \<Rightarrow> bet_commitment option \<times> app_state" where
  "take_commitment session_id st =
     (as_commitments st session_id, st\<lparr>as_commitments := (as_commitments st)(session_id := None)\<rparr>)"

definition check_reveal :: "('f, 'x) ext_scheme \<Rightarrow> play_query \<Rightarrow> bet_commitment \<Rightarrow> api_error + unit" where
  "check_reveal X q c =
     (if pl_player q \<noteq> bc_player c
      then Inl (error_response BAD_REQUEST ''Player address does not match commitment.'')
      else
        bindR (map_err (\<lambda>e. error_response BAD_REQUEST (''Invalid nonce: '' @ e)) (felt_from_hex X (pl_nonce q))) (\<lambda>nonce_felt.
        let computed_hex = x_to_hex X (x_pedersen_hash X (x_from_u64 X (ucast (clamped_bet q))) nonce_felt)
        in if computed_hex \<noteq> bc_commitment c
           then Inl (error_response BAD_REQUEST
                       (''Commitment mismatch: pedersen('' @ fmt_dec (unat (clamped_bet q)) @ '', nonce) = '' @ computed_hex @
                        '', expected '' @ bc_commitment c))
           else Inr ()))"

section \<open>The game: transaction\<close>

type_synonym panic_or = "string option"

text \<open>Handlers whose error is the text of an \<open>error\<close> event, within the game.\<close>

abbreviation gameW :: "(string, 'a) handler \<Rightarrow> (panic_or, 'a) handler" where
  "gameW \<equiv> map_errW Some"

text \<open>\<open>&s[..18]\<close> at most: it panics when the cut is inside a character of the UTF-8 text.\<close>

definition utf8_continuation :: "char \<Rightarrow> bool" where
  "utf8_continuation c = (let n = (of_char c :: nat) in 128 \<le> n \<and> n < 192)"

definition cut18 :: "string \<Rightarrow> string option" where
  "cut18 s = (if 18 < length s \<and> utf8_continuation (s ! 18) then None else Some (take 18 s))"

definition play_calldata :: "string \<Rightarrow> u64 \<Rightarrow> play_query \<Rightarrow> string list" where
  "play_calldata contract_address seed_block q =
     [''0x1'', contract_address, PLAY_SELECTOR, ''0x3'', fmt_hex (unat seed_block), pl_player q, fmt_hex (unat (clamped_bet q))]"

definition announce_game :: "play_query \<Rightarrow> (panic_or, unit) handler" where
  "announce_game q =
     bindW (liftW (ok_or None (cut18 (pl_player q)))) (\<lambda>short.
     log (''CoinFlip: player='' @ short @ '' bet='' @ fmt_dec (unat (clamped_bet q)) @ '' ('' @ bet_label (clamped_bet q) @ '')''))"

definition construct_play ::
  "('f, 'x) ext_scheme \<Rightarrow> host_sys \<Rightarrow> config \<Rightarrow> starknet_rpc \<Rightarrow> string \<Rightarrow> string \<Rightarrow> u64 \<Rightarrow> play_query
   \<Rightarrow> (string, 'f constructed \<times> string \<times> string) handler"
where
  "construct_play X H cfg rpc session_id contract_address seed_block q =
     bindW (phase ''constructing'') (\<lambda>_.
     let calldata_strs = play_calldata contract_address seed_block q
     in bindW (liftW (parse_accounts X cfg ''sender'' calldata_strs)) (\<lambda>(calldata, sender, private_key, chain_id).
        bindW (map_errW (\<lambda>e. ''Failed to get nonce: '' @ e) (nonce_at X H cfg rpc seed_block)) (\<lambda>nonce.
        let c = \<lparr>ct_sender = sender, ct_private_key = private_key, ct_calldata = calldata, ct_chain_id = chain_id, ct_nonce = nonce\<rparr>
        in bindW (liftW (map_err (\<lambda>e. ''Signing failed: '' @ sign_error_display e) (standard_signature X c zero_fee))) (\<lambda>sig.
           let output_dir = path_join (cfg_output_dir cfg) ''coinflip'';
               tx_path = path_join output_dir (session_id @ ''_tx.json'')
           in bindW (ignoreW (do_mkdir H output_dir)) (\<lambda>_.
              bindW (map_errW (\<lambda>e. ''Failed to write tx JSON: '' @ e)
                       (do_write H tx_path (x_json_pretty X (standard_tx_json X cfg calldata_strs nonce zero_fee sig)))) (\<lambda>_.
              bindW (log (''Transaction constructed (nonce: '' @ fmt_dec (unat nonce) @ '', seed: '' @
                          fmt_hex (unat seed_block) @ '')'')) (\<lambda>_.
              returnW (c, tx_path, path_join output_dir (session_id @ ''.proof'')))))))))"

section \<open>The game: proof and settlement\<close>

definition prove_play :: "host_sys \<Rightarrow> config \<Rightarrow> u64 \<Rightarrow> string \<Rightarrow> string \<Rightarrow> (string, u64) handler" where
  "prove_play H cfg seed_block tx_path proof_path =
     bindW (spawn_prover H cfg seed_block tx_path proof_path) (\<lambda>child.
     bindW (forW log (ch_lines child)) (\<lambda>_.
     if \<not> ch_success child then throwW ''Proof generation failed''
     else
       bindW (do_size H proof_path) (\<lambda>proof_size.
       bindW (log (''Proof generated ('' @ fmt_dec (unat proof_size) @ '' bytes)'')) (\<lambda>_.
       returnW proof_size))))"

text \<open>The outcome in the first message: fields player, seed, bet, outcome, won.\<close>

definition settlement_of :: "json \<Rightarrow> (string \<times> bool) option" where
  "settlement_of msg_json =
     Option.bind (Option.bind (jget ''l2_to_l1_messages'' msg_json) as_array) (\<lambda>msgs.
     Option.bind (case msgs of [] \<Rightarrow> None | m # _ \<Rightarrow> Some m) (\<lambda>first.
     Option.bind (Option.bind (jget ''payload'' first) as_array) (\<lambda>payload.
     let fields = List.map_filter as_str payload
     in if 5 \<le> length fields
        then Some (if fields ! 3 = ''0x0'' then ''heads'' else ''tails'', fields ! 4 = ''0x1'')
        else None)))"

definition rust_bool :: "bool \<Rightarrow> string" where
  "rust_bool b = (if b then ''true'' else ''false'')"

definition read_settlement :: "('f, 'x) ext_scheme \<Rightarrow> host_sys \<Rightarrow> string \<Rightarrow> ('e, string \<times> bool) handler" where
  "read_settlement X H proof_path =
     (let messages_file = with_extension proof_path ''raw_messages.json''
      in bindW (do_exists H messages_file) (\<lambda>present.
         if \<not> present then returnW ([], False)
         else
           bindW (tryW (do_read H messages_file)) (\<lambda>msg_str.
           case Option.bind (ok_opt (bindR msg_str (x_json_parse X))) settlement_of of
             None \<Rightarrow> returnW ([], False)
           | Some (outcome_label, won) \<Rightarrow>
               bindW (log (''Settlement: outcome='' @ outcome_label @ '' won='' @ rust_bool won)) (\<lambda>_.
               returnW (outcome_label, won)))))"

section \<open>The game: submission\<close>

definition trim_end_slashes :: "string \<Rightarrow> string" where
  "trim_end_slashes s = rev (dropWhile (\<lambda>c. c = CHR ''/'') (rev s))"

text \<open>One POST to the gateway: a transport error, an unreadable body, or a body.\<close>

definition do_gateway :: "host_sys \<Rightarrow> string \<Rightarrow> json \<Rightarrow> ('e, string + (string + json)) handler" where
  "do_gateway H url body w = (Inr (hs_gateway H (tick w) url body), step_world [EHttp url body] w)"

definition not_ready :: "string \<Rightarrow> bool" where
  "not_ready msg \<longleftrightarrow> sublist ''too recent'' msg \<or> sublist ''stored block hash: 0'' msg"

function gateway_loop ::
  "('f, 'x) ext_scheme \<Rightarrow> host_sys \<Rightarrow> string \<Rightarrow> json \<Rightarrow> nat \<Rightarrow> (string, bool) handler"
where
  "gateway_loop X H submit_url payload attempt =
     (if max_attempts < attempt then returnW False
      else
        bindW (do_gateway H submit_url payload) (\<lambda>response.
        case response of
          Inl e \<Rightarrow> throwW (''Request failed: '' @ e)
        | Inr (Inl e) \<Rightarrow> throwW (''Failed to read response: '' @ e)
        | Inr (Inr body) \<Rightarrow>
            (let code = unwrap_or (jget_str ''code'' body) [];
                 msg = unwrap_or (jget_str ''message'' body) []
             in if code = ''TRANSACTION_RECEIVED''
                then bindW (log (''Accepted '' @ attempt_text attempt)) (\<lambda>_. returnW True)
                else if not_ready msg \<and> attempt < max_attempts
                then bindW (log (''Not ready '' @ attempt_text attempt @ '', waiting 10s...'')) (\<lambda>_.
                     bindW (sleepW H 10) (\<lambda>_. gateway_loop X H submit_url payload (Suc attempt)))
                else throwW (''Rejected: '' @ x_json_text X body))))"
  by pat_completeness auto
termination by (relation "measure (\<lambda>(X, H, url, tx, attempt). Suc max_attempts - attempt)") auto

declare gateway_loop.simps [simp del]

definition game_submit_text :: "('f, 'x) ext_scheme \<Rightarrow> 'f \<Rightarrow> string" where
  "game_submit_text X h = ''Submitting tx '' @ hash_prefix (x_to_hex X h) @ ''...''"

definition submit_play ::
  "('f, 'x) ext_scheme \<Rightarrow> host_sys \<Rightarrow> config \<Rightarrow> 'f \<Rightarrow> json \<Rightarrow> (string, unit) handler"
where
  "submit_play X H cfg gw_tx_hash payload =
     bindW (liftW (ok_or ''STARKNET_GATEWAY_URL is required for coinflip submission'' (cfg_gateway_url cfg))) (\<lambda>gateway_url.
     bindW (log (game_submit_text X gw_tx_hash)) (\<lambda>_.
     bindW (gateway_loop X H (trim_end_slashes gateway_url @ ''/gateway/add_transaction'') payload 1) (\<lambda>accepted.
     if \<not> accepted then throwW ''Not accepted after all retries'' else returnW ())))"

definition await_play :: "('f, 'x) ext_scheme \<Rightarrow> host_sys \<Rightarrow> starknet_rpc \<Rightarrow> string \<Rightarrow> (string, unit) handler" where
  "await_play X H rpc gw_tx_hash_hex =
     bindW (phase ''verifying'') (\<lambda>_.
     bindW (log ''Waiting for tx inclusion...'') (\<lambda>_.
     bindW (map_errW (\<lambda>e. ''Tx not confirmed: '' @ rpc_error_display e) (wait_for_tx H X rpc gw_tx_hash_hex 180 5)) (\<lambda>receipt.
     log (''Tx included in block '' @ fmt_dec (unat (unwrap_or (receipt_block_number receipt) 0))))))"

definition result_json :: "string \<Rightarrow> bool \<Rightarrow> string \<Rightarrow> u64 \<Rightarrow> u64 \<Rightarrow> play_query \<Rightarrow> json" where
  "result_json outcome_label won tx_hash proof_size seed_block q =
     JObj [(''outcome'', JStr outcome_label), (''bet'', JStr (bet_label (clamped_bet q))), (''won'', JBool won),
           (''tx_hash'', JStr tx_hash), (''proof_size'', ju64 proof_size), (''seed'', JStr (fmt_hex (unat seed_block))),
           (''player'', JStr (pl_player q))]"

section \<open>The game\<close>

definition game_run ::
  "('f, 'x) ext_scheme \<Rightarrow> host_sys \<Rightarrow> string \<Rightarrow> string \<Rightarrow> u64 \<Rightarrow> play_query \<Rightarrow> (string, unit) handler"
where
  "game_run X H session_id contract_address seed_block q =
     bindW (askW as_config) (\<lambda>cfg. bindW (askW as_rpc) (\<lambda>rpc.
     bindW (construct_play X H cfg rpc session_id contract_address seed_block q) (\<lambda>(c, tx_path, proof_path).
     bindW (prove_play H cfg seed_block tx_path proof_path) (\<lambda>proof_size.
     bindW (read_settlement X H proof_path) (\<lambda>(outcome_label, won).
     bindW (signed_payload X H c proof_path) (\<lambda>(gw_tx_hash, payload).
     bindW (submit_play X H cfg gw_tx_hash payload) (\<lambda>_.
     bindW (await_play X H rpc (x_to_hex X gw_tx_hash)) (\<lambda>_.
     send ''result'' (x_json_text X (result_json outcome_label won (x_to_hex X gw_tx_hash) proof_size seed_block q))))))))))"

definition game_task ::
  "('f, 'x) ext_scheme \<Rightarrow> host_sys \<Rightarrow> string \<Rightarrow> string \<Rightarrow> u64 \<Rightarrow> play_query \<Rightarrow> (panic_or, unit) handler"
where
  "game_task X H session_id contract_address seed_block q =
     bindW (announce_game q) (\<lambda>_. gameW (game_run X H session_id contract_address seed_block q))"

text \<open>The task in the background: an error is its last event; a panic that unwinds ends it silently.\<close>

definition run_game :: "(panic_or, unit) handler \<Rightarrow> ('e, unit) handler" where
  "run_game m w = (case m w of
      (Inl (Some e), v) \<Rightarrow> send ''error'' e v
    | (Inl None, v) \<Rightarrow> (Inr (), v)
    | (Inr u, v) \<Rightarrow> (Inr (), v))"

definition NOT_DEPLOYED :: string where
  "NOT_DEPLOYED = ''CoinFlip contract not deployed. Call POST /api/coinflip/deploy first.''"

definition NO_COMMITMENT :: string where
  "NO_COMMITMENT = ''No commitment found for this session. Call POST /api/coinflip/commit first.''"

definition play_route ::
  "('f, 'x) ext_scheme \<Rightarrow> host_sys \<Rightarrow> string \<Rightarrow> play_query \<Rightarrow> (api_error, unit) handler"
where
  "play_route X H session_id q =
     bindW (readW as_coinflip) (\<lambda>d.
     bindW (liftW (ok_or (error_response BAD_REQUEST NOT_DEPLOYED) d)) (\<lambda>deployment.
     bindW (stateW (take_commitment session_id)) (\<lambda>c.
     bindW (liftW (ok_or (error_response BAD_REQUEST NO_COMMITMENT) c)) (\<lambda>commitment.
     bindW (liftW (check_reveal X q commitment)) (\<lambda>_.
     run_game (game_task X H session_id (cd_contract_address deployment) (bc_seed_block commitment) q))))))"

section \<open>Serving requests\<close>

datatype coin_request = Commit commit_request | Play string play_query | Deploy

text \<open>What a request has done with the commitments. A play decides at its second access, where it takes the commitment.\<close>

datatype coin_record =
    Committed string bet_commitment
  | Started string play_query bet_commitment
  | Refused string

fun serve :: "('f, 'x) ext_scheme \<Rightarrow> host_sys \<Rightarrow> coin_request \<Rightarrow> app_world \<Rightarrow> coin_record list \<times> app_world" where
  "serve X H (Commit req) w =
     (case commit_bet X H req w of
        (Inr r, w') \<Rightarrow> ([Committed (cmr_session_id r)
            \<lparr>bc_commitment = cr_commitment req, bc_seed_block = cmr_seed_block r, bc_player = cr_player req\<rparr>], w')
      | (Inl e, w') \<Rightarrow> ([], w'))"
| "serve X H (Play i q) w =
     (let (r, w') = play_route X H i q w
      in (case accesses (play_route X H i q) w of
            [_, (st, _)] \<Rightarrow>
              (case as_commitments st i of
                 Some c \<Rightarrow> [if is_ok r then Started i q c else Refused i]
               | None \<Rightarrow> [])
          | _ \<Rightarrow> [], w'))"
| "serve X H Deploy w = ([], snd (deploy_coinflip X H w))"

fun serve_all :: "('f, 'x) ext_scheme \<Rightarrow> host_sys \<Rightarrow> coin_request list \<Rightarrow> app_world \<Rightarrow> coin_record list \<times> app_world" where
  "serve_all X H [] w = ([], w)"
| "serve_all X H (r # rs) w =
     (let (recs, v) = serve X H r w; (more, w') = serve_all X H rs v in (recs @ more, w'))"

section \<open>The contract of the ledger\<close>

text \<open>A reveal opens a commitment: the player is the committed one and the Pedersen hash of the bet
  and the nonce is the committed text.\<close>

definition opens :: "('f, 'x) ext_scheme \<Rightarrow> play_query \<Rightarrow> bet_commitment \<Rightarrow> bool" where
  "opens X q c \<longleftrightarrow>
     pl_player q = bc_player c \<and>
     (case x_from_hex X (pl_nonce q) of
        Inl e \<Rightarrow> False
      | Inr nonce \<Rightarrow> bc_commitment c = x_to_hex X (x_pedersen_hash X (x_from_u64 X (if pl_bet q = 0 then 0 else 1)) nonce))"

type_synonym ledger = "string \<Rightarrow> bet_commitment option"

fun ledger_step :: "('f, 'x) ext_scheme \<Rightarrow> coin_record \<Rightarrow> ledger \<Rightarrow> ledger option" where
  "ledger_step X (Committed i c) led = Some (led(i \<mapsto> c))"
| "ledger_step X (Started i q c) led = (if led i = Some c \<and> opens X q c then Some (led(i := None)) else None)"
| "ledger_step X (Refused i) led = (if led i \<noteq> None then Some (led(i := None)) else None)"

fun ledger_run :: "('f, 'x) ext_scheme \<Rightarrow> coin_record list \<Rightarrow> ledger \<Rightarrow> ledger option" where
  "ledger_run X [] led = Some led"
| "ledger_run X (r # rs) led = Option.bind (ledger_step X r led) (ledger_run X rs)"

lemma ledger_run_append: "ledger_run X (rs @ ss) led = Option.bind (ledger_run X rs led) (ledger_run X ss)"
  by (induction rs arbitrary: led) (auto split: Option.bind_split)

lemma clamped_bet_cases: "clamped_bet q = (if pl_bet q = 0 then 0 else 1)"
proof (cases "pl_bet q = 0")
  case False
  then have "1 \<le> pl_bet q" by (simp add: word_le_nat_alt Suc_leI unat_gt_0)
  then show ?thesis using False by (simp add: clamped_bet_def)
qed (simp add: clamped_bet_def)

lemma check_reveal_opens: "is_ok (check_reveal X q c) \<longleftrightarrow> opens X q c"
  by (cases "x_from_hex X (pl_nonce q)")
    (auto simp: check_reveal_def opens_def is_ok_iff felt_from_hex_def clamped_bet_cases Let_def)

section \<open>What the game does not touch\<close>

lemmas no_access = keeps_split keeps_intros

lemma keeps_if: "(b \<Longrightarrow> keeps R m) \<Longrightarrow> (\<not> b \<Longrightarrow> keeps R n) \<Longrightarrow> keeps R (if b then m else n)"
  by simp

lemma keeps_gateway: "keeps R (do_gateway H url tx)"
  by (rule keeps_shared) (simp add: do_gateway_def)

lemma keeps_gateway_loop: "keeps R (gateway_loop X H url tx n)"
proof (induction "Suc max_attempts - n" arbitrary: n rule: less_induct)
  case less
  have more: "keeps R (gateway_loop X H url tx (Suc n))" if "n < max_attempts" using less that by simp
  show ?case
    unfolding gateway_loop.simps [of X H url tx n] log_def Let_def
    by (intro keeps_if keeps_split(1-3) keeps_intros keeps_gateway more) auto
qed

lemma untouched_game_run: "untouched (game_run X H i addr b q)"
  unfolding game_run_def construct_play_def prove_play_def read_settlement_def signed_payload_def submit_play_def await_play_def
    nonce_at_def spawn_prover_def find_snip36_bin_def find_in_manifest_def proof_files_def log_def phase_def Let_def
  by (intro no_access keeps_gateway_loop)+

lemma run_game_shared: "shared (snd (run_game m w)) = shared (snd (m w))"
  by (simp add: run_game_def send_def split: prod.split sum.split option.split)

lemma untouched_game: "untouched (run_game (game_task X H i addr b q))"
proof -
  have "untouched (game_task X H i addr b q)"
    unfolding game_task_def announce_game_def log_def by (intro no_access untouched_game_run)
  then show ?thesis by (rule keeps_snd) (rule run_game_shared)
qed

lemma game_shared: "shared (snd (run_game (game_task X H i addr b q) w)) = shared w"
  using untouched_shared [OF untouched_game] by (metis prod.collapse)

lemma run_game_Inr: "\<exists>v. run_game m w = (Inr (), v)"
  by (simp add: run_game_def send_def split: prod.split sum.split option.split)

section \<open>The accesses of the game\<close>

text \<open>A play reads the deployment; when there is one it takes the commitment of its session.\<close>

abbreviation after_read :: "app_world \<Rightarrow> app_world" where
  "after_read \<equiv> after_access (\<lambda>st. st)"

abbreviation after_take :: "string \<Rightarrow> app_world \<Rightarrow> app_world" where
  "after_take i \<equiv> after_access (\<lambda>st. snd (take_commitment i st))"

lemma play_route_run:
  "play_route X H i q w =
     (case as_coinflip (seen w) of
        None \<Rightarrow> (Inl (error_response BAD_REQUEST NOT_DEPLOYED), after_read w)
      | Some d \<Rightarrow>
         (case as_commitments (seen (after_read w)) i of
            None \<Rightarrow> (Inl (error_response BAD_REQUEST NO_COMMITMENT), after_take i (after_read w))
          | Some c \<Rightarrow>
             (case check_reveal X q c of
                Inl e \<Rightarrow> (Inl e, after_take i (after_read w))
              | Inr u \<Rightarrow> run_game (game_task X H i (cd_contract_address d) (bc_seed_block c) q) (after_take i (after_read w)))))"
  by (auto simp: play_route_def bindW_def readW_def liftW_def stateW_def take_commitment_def
      split: option.split sum.split)

lemma play_route_shared:
  "shared (snd (play_route X H i q w)) =
     shared (if as_coinflip (seen w) = None then after_read w else after_take i (after_read w))"
  by (simp add: play_route_run game_shared split: option.split sum.split)

lemma play_served:
  "as_coinflip (seen w) \<noteq> None \<Longrightarrow> as_commitments (seen (after_read w)) i = Some c \<Longrightarrow>
     is_ok (fst (play_route X H i q w)) = opens X q c"
  using check_reveal_opens [of X q c] run_game_Inr [where ?'a = api_error]
  by (auto simp: play_route_run is_ok_iff split: sum.split option.split) (metis fst_conv)+

text \<open>What a request did with the commitments fits its accesses: the last one is a step of the ledger, those before are reads.\<close>

definition coin_kept :: "app_state \<Rightarrow> app_state \<Rightarrow> bool" where
  "coin_kept st st' \<longleftrightarrow> as_commitments st' = as_commitments st \<and> as_coinflip st' = as_coinflip st"

fun ledger_fits :: "('f, 'x) ext_scheme \<Rightarrow> coin_record list \<Rightarrow> access list \<Rightarrow> bool" where
  "ledger_fits X recs [] \<longleftrightarrow> True"
| "ledger_fits X recs [(st, st')] \<longleftrightarrow> ledger_run X recs (as_commitments st) = Some (as_commitments st')"
| "ledger_fits X recs ((st, st') # e # es) \<longleftrightarrow> as_commitments st' = as_commitments st \<and> ledger_fits X recs (e # es)"

text \<open>Once a game is deployed it stays: a first access that finds one is the last that could change it.\<close>

definition deployment_firm :: "access list \<Rightarrow> bool" where
  "deployment_firm es \<longleftrightarrow>
     (case es of
        [] \<Rightarrow> True
      | (st, _) # _ \<Rightarrow> as_coinflip st = None \<or> list_all (\<lambda>(p, q). as_coinflip q = as_coinflip p) es)"

definition coin_fits :: "('f, 'x) ext_scheme \<Rightarrow> coin_record list \<Rightarrow> access list \<Rightarrow> bool" where
  "coin_fits X recs es \<longleftrightarrow> ledger_fits X recs es \<and> deployment_firm es \<and> (recs = [] \<or> es \<noteq> [])"

lemma ledger_fits_reads: "list_all (\<lambda>(st, st'). as_commitments st' = as_commitments st) es \<Longrightarrow> ledger_fits X [] es"
  by (induction X "[] :: coin_record list" es rule: ledger_fits.induct) auto

lemma coin_fits_kept: "list_all (\<lambda>(st, st'). coin_kept st st') es \<Longrightarrow> coin_fits X [] es"
  using ledger_fits_reads [of es X]
  by (auto simp: coin_fits_def deployment_firm_def coin_kept_def list_all_iff split: list.split)

lemma play_accesses:
  "accesses (play_route X H i q) w =
     (if as_coinflip (seen w) = None then [(seen w, seen w)]
      else [(seen w, seen w), (seen (after_read w), snd (take_commitment i (seen (after_read w))))])"
  using play_route_shared [of X H i q w] by (auto simp: accesses_def shared_parts)

lemma serve_play_fits:
  assumes "serve X H (Play i q) w = (recs, w')"
  shows "coin_fits X recs (accesses (play_route X H i q) w)"
proof (cases "as_coinflip (seen w)")
  case None
  then show ?thesis using assms by (auto simp: play_accesses coin_fits_def deployment_firm_def split: prod.splits)
next
  case (Some d)
  let ?st = "seen (after_read w)"
  have firm: "deployment_firm (accesses (play_route X H i q) w)"
    using Some by (simp add: play_accesses deployment_firm_def take_commitment_def)
  show ?thesis
  proof (cases "as_commitments ?st i")
    case None
    then show ?thesis using assms Some firm
      by (auto simp: play_accesses coin_fits_def take_commitment_def fun_upd_idem split: prod.splits)
  next
    case (Some c)
    then show ?thesis using assms \<open>as_coinflip (seen w) = Some d\<close> firm play_served [of w i c X H q]
      by (auto simp: play_accesses coin_fits_def take_commitment_def split: prod.splits)
  qed
qed

lemma commit_served:
  "case commit_bet X H req w of
     (Inr r, w') \<Rightarrow> shared w' = shared (after_access (\<lambda>st. st\<lparr>as_commitments := (as_commitments st)(cmr_session_id r \<mapsto>
         \<lparr>bc_commitment = cr_commitment req, bc_seed_block = cmr_seed_block r, bc_player = cr_player req\<rparr>)\<rparr>) w)
   | (Inl e, w') \<Rightarrow> shared w' = shared w"
proof -
  obtain r v where b: "rpc_block_number H X (as_rpc (aw_state w)) w = (r, v)" by force
  then have st: "shared v = shared w" by (metis shared_steps(3) rpc_block_number_world snd_conv)
  show ?thesis
    using st by (cases r) (auto simp: commit_bet_def bindW_def askW_def map_errW_def b do_uuid_def step_world_def modifyW_def
        returnW_def Let_def shared_parts seen_def)
qed

lemma serve_commit_fits:
  assumes "serve X H (Commit req) w = (recs, w')"
  shows "coin_fits X recs (accesses (commit_bet X H req) w)"
  using assms commit_served [where X = X and H = H and req = req and w = w]
  by (auto simp: accesses_def shared_parts coin_fits_def deployment_firm_def split: prod.splits sum.splits)

lemma keeps_deploy:
  assumes "\<And>st. R st st" and "\<And>st d. R st (st\<lparr>as_coinflip := Some d\<rparr>)"
  shows "keeps R (deploy_coinflip X H)"
  unfolding deploy_coinflip_def declare_contract_def deploy_class_def await_declared_def Let_def
  by (intro no_access keeps_readW keeps_modifyW assms)

lemma deploy_known:
  "as_coinflip (seen w) = Some d \<Longrightarrow> deploy_coinflip X H w = (Inr d, after_read w)"
  by (simp add: deploy_coinflip_def bindW_def readW_def returnW_def)

lemma deploy_fits: "coin_fits X [] (accesses (deploy_coinflip X H) w)"
proof -
  let ?es = "accesses (deploy_coinflip X H) w"
  obtain r v where run: "deploy_coinflip X H w = (r, v)" by force
  have "keeps (\<lambda>st st'. as_commitments st' = as_commitments st) (deploy_coinflip X H)" by (rule keeps_deploy) simp_all
  from keepsE [OF this run] have fits: "ledger_fits X [] ?es"
    and follows: "follows (aw_others w) (aw_state w) ?es (aw_others v) (aw_state v)" by (auto dest: ledger_fits_reads)
  have "deployment_firm ?es"
  proof (cases "as_coinflip (seen w)")
    case None
    then show ?thesis using follows by (cases ?es) (auto simp: deployment_firm_def seen_def)
  next
    case (Some d)
    then show ?thesis by (simp add: accesses_def deploy_known deployment_firm_def)
  qed
  with fits show ?thesis by (simp add: coin_fits_def)
qed

section \<open>A request on its own\<close>

fun coin_accesses :: "('f, 'x) ext_scheme \<Rightarrow> host_sys \<Rightarrow> coin_request \<Rightarrow> app_world \<Rightarrow> access list" where
  "coin_accesses X H (Commit req) w = accesses (commit_bet X H req) w"
| "coin_accesses X H (Play i q) w = accesses (play_route X H i q) w"
| "coin_accesses X H Deploy w = accesses (deploy_coinflip X H) w"

lemma serve_fits: "coin_fits X (fst (serve X H req w)) (coin_accesses X H req w)"
proof (cases req)
  case (Commit cr)
  then show ?thesis using serve_commit_fits by (metis coin_accesses.simps(1) prod.collapse)
next
  case (Play i q)
  then show ?thesis using serve_play_fits by (metis coin_accesses.simps(2) prod.collapse)
next
  case Deploy
  then show ?thesis by (simp add: deploy_fits)
qed

lemma keeps_commit:
  "(\<And>st j c. R st (st\<lparr>as_commitments := (as_commitments st)(j \<mapsto> c)\<rparr>)) \<Longrightarrow> keeps R (commit_bet X H req)"
  unfolding commit_bet_def Let_def by (intro no_access keeps_modifyW) blast

lemma keeps_play:
  assumes "\<And>st. R st st" and "\<And>st j. R st (snd (take_commitment j st))"
  shows "keeps R (play_route X H i q)"
  unfolding play_route_def by (intro no_access keeps_readW keeps_stateW assms untouched_keeps [OF untouched_game])

lemma snd_serve [simp]:
  "snd (serve X H (Commit cr) w) = snd (commit_bet X H cr w)" "snd (serve X H (Play i q) w) = snd (play_route X H i q w)"
  by (simp_all split: prod.split sum.split)

lemma serve_follows:
  "follows (aw_others w) (aw_state w) (coin_accesses X H req w) (aw_others (snd (serve X H req w))) (aw_state (snd (serve X H req w)))"
proof -
  have "keeps (\<lambda>st st'. True) (commit_bet X H cr)" "keeps (\<lambda>st st'. True) (play_route X H i q)"
    "keeps (\<lambda>st st'. True) (deploy_coinflip X H)" for cr i q
    by (simp_all add: keeps_commit keeps_play keeps_deploy)
  then show ?thesis by (cases req) (simp_all add: keeps_def within_def del: serve.simps(1,2))
qed

lemma follows_alone:
  assumes "follows [] st es gs st'"
  shows "gs = []" and "ledger_fits X recs es \<Longrightarrow> recs = [] \<or> es \<noteq> [] \<Longrightarrow> ledger_run X recs (as_commitments st) = Some (as_commitments st')"
    and "deployment_firm es \<Longrightarrow> as_coinflip st = Some d \<Longrightarrow> as_coinflip st' = Some d"
proof -
  show "gs = []" using assms by (induction "[] :: (app_state \<Rightarrow> app_state) list" st es gs st' rule: follows.induct) auto
  show "ledger_run X recs (as_commitments st) = Some (as_commitments st')" if "ledger_fits X recs es" "recs = [] \<or> es \<noteq> []"
    using that assms
  proof (induction X recs es arbitrary: st rule: ledger_fits.induct)
    case (3 X recs p q e es)
    then have "p = st" "follows [] q (e # es) gs st'" by (simp_all add: found_def)
    then show ?case using 3(1) [of q] 3(2) by simp
  qed (auto simp: found_def)
  have kept: "as_coinflip st' = as_coinflip st" if "list_all (\<lambda>(p, q). as_coinflip q = as_coinflip p) es"
    using that assms by (induction es arbitrary: st) (auto simp: found_def)
  show "as_coinflip st' = Some d" if "deployment_firm es" "as_coinflip st = Some d"
    using that assms kept by (cases es) (auto simp: deployment_firm_def found_def)
qed

text \<open>Served alone, a request is one step, or none, of the ledger.\<close>

lemma serve_ledger:
  assumes "serve X H req w = (recs, w')" and "aw_others w = []"
  shows "aw_others w' = []"
    and "ledger_run X recs (as_commitments (aw_state w)) = Some (as_commitments (aw_state w'))"
    and "as_coinflip (aw_state w) = Some d \<Longrightarrow> as_coinflip (aw_state w') = Some d"
proof -
  have f: "follows [] (aw_state w) (coin_accesses X H req w) (aw_others w') (aw_state w')"
    using serve_follows [of w X H req] assms by simp
  show "aw_others w' = []"
    and "ledger_run X recs (as_commitments (aw_state w)) = Some (as_commitments (aw_state w'))"
    and "as_coinflip (aw_state w) = Some d \<Longrightarrow> as_coinflip (aw_state w') = Some d"
    using follows_alone [OF f] serve_fits [of X H req w] assms(1) by (auto simp: coin_fits_def)
qed

lemma play_alone:
  assumes "aw_others w = []" and "as_coinflip (aw_state w) \<noteq> None"
  shows "fst (serve X H (Play i q) w) =
      (case as_commitments (aw_state w) i of None \<Rightarrow> [] | Some c \<Rightarrow> [if opens X q c then Started i q c else Refused i])"
    and "shared (snd (serve X H (Play i q) w)) = shared (after_take i (after_read w))"
  using assms play_served [of w i _ X H q] play_route_shared [of X H i q w]
  by (auto simp: play_accesses split: prod.split option.split)

lemma serve_all_ledger:
  "serve_all X H reqs w = (recs, w') \<Longrightarrow> aw_others w = [] \<Longrightarrow>
     ledger_run X recs (as_commitments (aw_state w)) = Some (as_commitments (aw_state w')) \<and>
     (\<forall>d. as_coinflip (aw_state w) = Some d \<longrightarrow> as_coinflip (aw_state w') = Some d)"
proof (induction reqs arbitrary: w recs)
  case (Cons r rs)
  obtain recs1 v where 1: "serve X H r w = (recs1, v)" by force
  obtain recs2 where 2: "serve_all X H rs v = (recs2, w')" "recs = recs1 @ recs2" using Cons.prems 1 by (auto split: prod.splits)
  from Cons.IH [OF 2(1)] serve_ledger [OF 1 Cons.prems(2)] 2(2) show ?case by (simp add: ledger_run_append)
qed simp

theorem commitments_implement_ledger:
  assumes "aw_others w = []"
  shows "let (recs, w') = serve_all X H reqs w
   in ledger_run X recs (as_commitments (aw_state w)) = Some (as_commitments (aw_state w')) \<and>
      (case as_coinflip (aw_state w) of Some d \<Rightarrow> as_coinflip (aw_state w') = Some d | None \<Rightarrow> True)"
  using serve_all_ledger [of X H reqs w] assms by (auto split: prod.split option.split)

section \<open>A commitment is revealed at most once\<close>

definition starts :: "string \<Rightarrow> coin_record list \<Rightarrow> nat" where
  "starts i recs = length (filter (\<lambda>r. case r of Started j q c \<Rightarrow> j = i | _ \<Rightarrow> False) recs)"

definition commits :: "string \<Rightarrow> coin_record list \<Rightarrow> nat" where
  "commits i recs = length (filter (\<lambda>r. case r of Committed j c \<Rightarrow> j = i | _ \<Rightarrow> False) recs)"

lemma ledger_single_use:
  "ledger_run X recs led = Some led' \<Longrightarrow>
     starts i recs + (if led' i = None then 0 else 1) \<le> commits i recs + (if led i = None then 0 else 1)"
proof (induction recs arbitrary: led)
  case (Cons r rs)
  then obtain led1 where 1: "ledger_step X r led = Some led1" and 2: "ledger_run X rs led1 = Some led'"
    by (auto simp: bind_eq_Some_conv)
  from Cons.IH [OF 2] 1 show ?case by (cases r) (auto simp: starts_def commits_def split: if_splits)
qed (simp add: starts_def commits_def)

text \<open>Every started game opens a commitment made before it.\<close>

definition game_backed :: "('f, 'x) ext_scheme \<Rightarrow> coin_record list \<Rightarrow> coin_record \<Rightarrow> bool" where
  "game_backed X recs r = (case r of Started i q c \<Rightarrow> opens X q c \<and> Committed i c \<in> set recs | _ \<Rightarrow> True)"

lemma ledger_backed:
  "ledger_run X recs led = Some led' \<Longrightarrow> Started i q c \<in> set recs \<Longrightarrow>
     opens X q c \<and> (Committed i c \<in> set recs \<or> led i = Some c)"
proof (induction recs arbitrary: led)
  case (Cons r rs)
  then obtain led1 where 1: "ledger_step X r led = Some led1" and 2: "ledger_run X rs led1 = Some led'"
    by (auto simp: bind_eq_Some_conv)
  show ?case
  proof (cases "r = Started i q c")
    case True
    then show ?thesis using 1 by (auto split: if_splits)
  next
    case False
    then have "Started i q c \<in> set rs" using Cons.prems(2) by auto
    from Cons.IH [OF 2 this] 1 show ?thesis by (cases r) (auto split: if_splits)
  qed
qed simp

theorem commitments_single_use:
  assumes "aw_others w = []" and "as_commitments (aw_state w) = Map.empty" and "serve_all X H reqs w = (recs, w')"
  shows "starts i recs \<le> commits i recs \<and> list_all (game_backed X recs) recs"
proof -
  from serve_all_ledger [OF assms(3,1)] assms(2)
  have run: "ledger_run X recs Map.empty = Some (as_commitments (aw_state w'))" by simp
  have "game_backed X recs r" if "r \<in> set recs" for r
    using ledger_backed [OF run] that by (cases r) (auto simp: game_backed_def)
  then show ?thesis using ledger_single_use [OF run, of i] by (auto simp: list_all_iff)
qed

section \<open>A commitment binds the bet\<close>

definition pedersen_collision :: "('f, 'x) ext_scheme \<Rightarrow> 'f \<times> 'f \<Rightarrow> 'f \<times> 'f \<Rightarrow> bool" where
  "pedersen_collision X a b \<longleftrightarrow> a \<noteq> b \<and> x_pedersen_hash X (fst a) (snd a) = x_pedersen_hash X (fst b) (snd b)"

definition bet_felt :: "('f, 'x) ext_scheme \<Rightarrow> play_query \<Rightarrow> 'f" where
  "bet_felt X q = x_from_u64 X (ucast (clamped_bet q))"

lemma opens_hash:
  "opens X q c \<Longrightarrow> \<exists>n. felt_from_hex X (pl_nonce q) = Inr n \<and> bc_commitment c = x_to_hex X (x_pedersen_hash X (bet_felt X q) n)"
  by (auto simp: opens_def felt_from_hex_def bet_felt_def clamped_bet_cases split: sum.splits if_splits)

text \<open>C16. Two accepted reveals of the same commitment text have the same bet and the same nonce, unless they are a collision of the Pedersen hash.\<close>
theorem commitment_binding:
  assumes "hex_laws X" and "felt_arith_laws X val"
    and "check_reveal X q c = Inr ()" and "check_reveal X q' c' = Inr ()" and "bc_commitment c = bc_commitment c'"
  shows "\<exists>n n'. felt_from_hex X (pl_nonce q) = Inr n \<and> felt_from_hex X (pl_nonce q') = Inr n' \<and>
     (if pedersen_collision X (bet_felt X q, n) (bet_felt X q', n') then True
      else clamped_bet q = clamped_bet q' \<and> n = n')"
proof -
  have "opens X q c" "opens X q' c'" using assms(3,4) by (auto simp: check_reveal_opens [symmetric] is_ok_iff)
  then obtain n n' where n: "felt_from_hex X (pl_nonce q) = Inr n" "bc_commitment c = x_to_hex X (x_pedersen_hash X (bet_felt X q) n)"
    and n': "felt_from_hex X (pl_nonce q') = Inr n'" "bc_commitment c' = x_to_hex X (x_pedersen_hash X (bet_felt X q') n')"
    by (auto dest!: opens_hash)
  have "x_pedersen_hash X (bet_felt X q) n = x_pedersen_hash X (bet_felt X q') n'"
    using n(2) n'(2) assms(1,5) by (metis hex_laws_def sum.inject(2))
  moreover have "clamped_bet q = clamped_bet q'" if "bet_felt X q = bet_felt X q'"
  proof -
    have u: "val (x_from_u64 X m) = unat m" for m using assms(2) by (simp add: felt_arith_laws_def)
    have "unat (ucast (clamped_bet q) :: u64) = unat (ucast (clamped_bet q') :: u64)"
      using that by (metis bet_felt_def u)
    then show ?thesis by (simp add: clamped_bet_cases split: if_splits)
  qed
  ultimately show ?thesis using n(1) n'(1) by (auto simp: pedersen_collision_def)
qed

section \<open>What a finished game has submitted\<close>

lemma appends_gateway: "appends (do_gateway H url tx)"
  by (simp add: appends_def do_gateway_def step_world_def)

lemma appends_game:
  "appends (construct_play X H cfg rpc i addr b q)" "appends (prove_play H cfg b t p)" "appends (read_settlement X H p)"
  unfolding construct_play_def prove_play_def read_settlement_def nonce_at_def spawn_prover_def
    find_snip36_bin_def find_in_manifest_def log_def phase_def Let_def
  by (intro appends_intros appends_split)+

lemma appends_gateway_loop: "appends (gateway_loop X H url tx attempt)"
proof (induction "Suc max_attempts - attempt" arbitrary: attempt rule: less_induct)
  case (less attempt)
  have again: "attempt < max_attempts \<Longrightarrow> appends (gateway_loop X H url tx (Suc attempt))" by (rule less) simp
  show ?case
    by (subst gateway_loop.simps) (auto simp: log_def Let_def intro!: appends_intros appends_gateway again split: sum.split)
qed

lemma appends_settling: "appends (submit_play X H cfg h payload)" "appends (await_play X H rpc h')"
  unfolding submit_play_def await_play_def log_def phase_def by (intro appends_intros appends_split appends_gateway_loop)+

lemma gateway_requests:
  assumes "attempt \<le> max_attempts"
  shows "fst (gateway_loop X H url tx attempt w) \<noteq> Inr False \<and>
    (\<exists>k. 1 \<le> k \<and> k \<le> Suc max_attempts - attempt \<and>
       http_reqs (effs (snd (gateway_loop X H url tx attempt w))) = http_reqs (effs w) @ replicate k (url, tx))"
  using assms
proof (induction "max_attempts - attempt" arbitrary: attempt w rule: less_induct)
  case (less attempt)
  obtain r v where post: "(do_gateway H url tx :: (string, string + (string + json)) handler) w = (Inr r, v)"
    by (simp add: do_gateway_def)
  have v: "http_reqs (effs v) = http_reqs (effs w) @ [(url, tx)]"
    using post by (auto simp: do_gateway_def step_world_def)
  note unfold = gateway_loop.simps [of X H url tx attempt] bindW_def post log_def send_def step_world_def returnW_def throwW_def
    sleepW_def Let_def
  show ?case
  proof (cases "\<exists>body. r = Inr (Inr body) \<and> unwrap_or (jget_str ''code'' body) [] \<noteq> ''TRANSACTION_RECEIVED'' \<and>
      not_ready (unwrap_or (jget_str ''message'' body) []) \<and> attempt < max_attempts")
    case True
    then have lt: "attempt < max_attempts" by blast
    define u where "u = do_sleep H 10 (v\<lparr>tick := Suc (tick v), effs := effs v @
       [ESse ''log'' (''Not ready '' @ attempt_text attempt @ '', waiting 10s...'')]\<rparr>)"
    have step: "gateway_loop X H url tx attempt w = gateway_loop X H url tx (Suc attempt) u"
      using True by (auto simp: unfold u_def)
    have u: "http_reqs (effs u) = http_reqs (effs v)" by (simp add: u_def)
    have "max_attempts - Suc attempt < max_attempts - attempt" "Suc attempt \<le> max_attempts" using lt by simp_all
    from less.hyps [OF this, of u] obtain k where "1 \<le> k" "k \<le> Suc max_attempts - Suc attempt"
      and none: "fst (gateway_loop X H url tx (Suc attempt) u) \<noteq> Inr False"
      and "http_reqs (effs (snd (gateway_loop X H url tx (Suc attempt) u))) = http_reqs (effs u) @ replicate k (url, tx)"
      by blast
    then have "http_reqs (effs (snd (gateway_loop X H url tx attempt w))) = http_reqs (effs w) @ replicate (Suc k) (url, tx)"
      "Suc k \<le> Suc max_attempts - attempt"
      using lt by (simp_all add: step u v)
    with none show ?thesis unfolding step [symmetric] by (intro conjI exI [of _ "Suc k"]) simp_all
  next
    case False
    have "fst (gateway_loop X H url tx attempt w) \<noteq> Inr False \<and>
      http_reqs (effs (snd (gateway_loop X H url tx attempt w))) = http_reqs (effs w) @ replicate 1 (url, tx)"
      using False less.prems v by (auto simp: unfold split: sum.splits)
    then show ?thesis using less.prems by (intro conjI exI [of _ 1]) simp_all
  qed
qed

lemma wait_requests:
  "\<exists>n. http_reqs (effs (snd (wait_for_tx_loop S X rpc h t p d w))) = http_reqs (effs w) @
     replicate n (client_url rpc, rpc_payload ''starknet_getTransactionReceipt'' (JObj [(''transaction_hash'', JStr h)]))"
proof (induction S X rpc h t p d w rule: wait_for_tx_loop.induct)
  case (1 S X rpc h t p d w)
  let ?q = "(client_url rpc, rpc_payload ''starknet_getTransactionReceipt'' (JObj [(''transaction_hash'', JStr h)]))"
  note unfold = wait_for_tx_loop.simps [of S X rpc h t p d w]
  obtain r w1 where g: "get_receipt S X rpc h w = (r, w1)" by fastforce
  then have e1: "http_reqs (effs w1) = http_reqs (effs w) @ [?q]"
    using get_receipt_world [of S X rpc h w] by (metis do_http_simps(3) http_reqs.simps(1,2) http_reqs_append snd_conv)
  show ?case
  proof (cases "d \<le> clk w")
    case True
    then show ?thesis by (intro exI [of _ 0]) (simp add: unfold)
  next
    case False
    show ?thesis
    proof (cases "Option.bind (ok_opt r) (receipt_verdict X)")
      case None
      obtain n where "http_reqs (effs (snd (wait_for_tx_loop S X rpc h t p d (do_sleep S (unat p) w1)))) = http_reqs (effs w1) @ replicate n ?q"
        using 1 [OF False g [symmetric] refl None] by auto
      then show ?thesis using False None g e1 by (intro exI [of _ "Suc n"]) (simp add: unfold)
    qed (use False g e1 in \<open>intro exI [of _ 1], simp add: unfold\<close>)
  qed
qed

lemma construct_play_done:
  assumes "construct_play X H cfg rpc i addr b q w = (Inr (c, t, p), w')"
  shows "constructed_for X cfg (play_calldata addr b q) c" and "nonce_answered X H cfg rpc b (tick w) (tick w') (ct_nonce c)"
    and "t = path_join (path_join (cfg_output_dir cfg) ''coinflip'') (i @ ''_tx.json'')"
    and "p = path_join (path_join (cfg_output_dir cfg) ''coinflip'') (i @ ''.proof'')"
    and "tx_written X cfg (play_calldata addr b q) zero_fee t c (effs w) (effs w')"
proof -
  define u where "u = step_world [ESse ''phase'' ''constructing''] w"
  from assms obtain cd sender key chain nonce v sig es where
    accounts: "parse_accounts X cfg ''sender'' (play_calldata addr b q) = Inr (cd, sender, key, chain)"
    and nonce: "nonce_at X H cfg rpc b u = (Inr nonce, v)"
    and c: "c = \<lparr>ct_sender = sender, ct_private_key = key, ct_calldata = cd, ct_chain_id = chain, ct_nonce = nonce\<rparr>"
    and t: "t = path_join (path_join (cfg_output_dir cfg) ''coinflip'') (i @ ''_tx.json'')"
      "p = path_join (path_join (cfg_output_dir cfg) ''coinflip'') (i @ ''.proof'')"
    and w': "tick v \<le> tick w'" and sig: "standard_signature X c zero_fee = Inr sig"
    and es: "effs w' = effs v @ [EWrite t (x_json_pretty X (standard_tx_json X cfg (play_calldata addr b q) nonce zero_fee sig))] @ es"
    by (auto simp: construct_play_def handler_simps log_def phase_def Let_def u_def ignoreW_def do_mkdir_def do_write_def step_world_def)
  show "constructed_for X cfg (play_calldata addr b q) c" using parse_accounts_for [OF accounts] by (simp add: c)
  have "tick w \<le> tick u" by (simp add: u_def step_world_def)
  then show "nonce_answered X H cfg rpc b (tick w) (tick w') (ct_nonce c)"
    using nonce_answered_wider [OF nonce_at_answered [OF nonce] _ w'] by (simp add: c)
  show "t = path_join (path_join (cfg_output_dir cfg) ''coinflip'') (i @ ''_tx.json'')"
    "p = path_join (path_join (cfg_output_dir cfg) ''coinflip'') (i @ ''.proof'')" by (rule t)+
  obtain es' where "effs v = effs w @ es'" using appendsD [OF appends_nonce_at nonce] by (auto simp: u_def step_world_def)
  then show "tx_written X cfg (play_calldata addr b q) zero_fee t c (effs w) (effs w')"
    unfolding tx_written_def using sig es by (auto simp: c)
qed

lemma prove_play_ran:
  assumes "prove_play H cfg b t p w = (Inr n, w')"
  shows "prover_ran H cfg b t p (tick w) (tick w')"
proof -
  from assms obtain child v u where child: "spawn_prover H cfg b t p w = (Inr child, v)" "ch_success child"
    and lines: "(forW log (ch_lines child) :: (string, unit) handler) v = (Inr (), u)" and "tick w' = Suc (Suc (tick u))"
    by (auto simp: prove_play_def handler_simps log_def do_size_def step_world_def split: if_splits)
  then have "tick v \<le> tick w'" using forW_log_tick [OF lines] by simp
  with spawned [OF child(1)] child(2) show ?thesis unfolding prover_ran_def by (meson less_le_trans)
qed

text \<open>The gateway took a payload: an exchange with it was answered with this code.\<close>

definition gateway_took :: "host_sys \<Rightarrow> string \<Rightarrow> json \<Rightarrow> nat \<Rightarrow> nat \<Rightarrow> bool" where
  "gateway_took H url payload a z \<longleftrightarrow>
     (\<exists>n body. a \<le> n \<and> n < z \<and> hs_gateway H n url payload = Inr (Inr body) \<and>
        jget_str ''code'' body = Some ''TRANSACTION_RECEIVED'')"

lemma gateway_took_wider: "gateway_took H url tx a z \<Longrightarrow> a' \<le> a \<Longrightarrow> z \<le> z' \<Longrightarrow> gateway_took H url tx a' z'"
  unfolding gateway_took_def by (meson le_trans less_le_trans)

lemma gateway_loop_took:
  assumes "gateway_loop X H url tx attempt w = (Inr True, w')"
  shows "gateway_took H url tx (tick w) (tick w')"
  using assms
proof (induction "Suc max_attempts - attempt" arbitrary: attempt w rule: less_induct)
  case (less attempt)
  note unfold = gateway_loop.simps [of X H url tx attempt] bindW_def do_gateway_def log_def send_def step_world_def returnW_def
    throwW_def sleepW_def Let_def
  from less.prems obtain body where body: "hs_gateway H (tick w) url tx = Inr (Inr body)" and le: "\<not> max_attempts < attempt"
    by (auto simp: unfold split: if_splits sum.splits)
  let ?v = "w\<lparr>tick := Suc (tick w), effs := effs w @ [EHttp url tx]\<rparr>"
  show ?case
  proof (cases "unwrap_or (jget_str ''code'' body) [] = ''TRANSACTION_RECEIVED''")
    case True
    then have "tick w' = Suc (Suc (tick w))" "jget_str ''code'' body = Some ''TRANSACTION_RECEIVED''"
      using less.prems body le by (auto simp: unfold split: if_splits) (cases "jget_str ''code'' body"; simp)
    with body show ?thesis unfolding gateway_took_def by (intro exI [of _ "tick w"]) auto
  next
    case False
    then have lt: "attempt < max_attempts" "not_ready (unwrap_or (jget_str ''message'' body) [])"
      using less.prems body le by (auto simp: unfold split: if_splits)
    define u where "u = do_sleep H 10 (?v\<lparr>tick := Suc (tick ?v), effs := effs ?v @
       [ESse ''log'' (''Not ready '' @ attempt_text attempt @ '', waiting 10s...'')]\<rparr>)"
    have "gateway_loop X H url tx (Suc attempt) u = (Inr True, w')"
      using less.prems lt body False by (simp add: unfold u_def)
    moreover have "tick w \<le> tick u" by (simp add: u_def)
    ultimately show ?thesis using less.hyps [of "Suc attempt" u] lt gateway_took_wider by fastforce
  qed
qed

lemma submit_play_requests:
  assumes "submit_play X H cfg h tx w = (Inr (), w')"
  shows "\<exists>gw k. cfg_gateway_url cfg = Some gw \<and> 1 \<le> k \<and> k \<le> max_attempts \<and>
     http_reqs (effs w') = http_reqs (effs w) @ replicate k (trim_end_slashes gw @ ''/gateway/add_transaction'', tx) \<and>
     gateway_took H (trim_end_slashes gw @ ''/gateway/add_transaction'') tx (tick w) (tick w')"
proof -
  let ?w = "step_world [ESse ''log'' (game_submit_text X h)] w"
  from assms obtain gw where gw: "cfg_gateway_url cfg = Some gw"
    and loop: "gateway_loop X H (trim_end_slashes gw @ ''/gateway/add_transaction'') tx 1 ?w = (Inr True, w')"
    by (auto simp: submit_play_def handler_simps log_def throwW_def split: if_splits)
  moreover have "gateway_took H (trim_end_slashes gw @ ''/gateway/add_transaction'') tx (tick w) (tick w')"
    using gateway_took_wider [OF gateway_loop_took [OF loop]] by (simp add: step_world_def)
  ultimately show ?thesis
    using gateway_requests [of 1 X H "trim_end_slashes gw @ ''/gateway/add_transaction''" tx ?w]
    unfolding loop snd_conv step_world_reqs by (auto simp: max_attempts_def)
qed

lemma await_play_requests:
  assumes "await_play X H rpc h w = (Inr (), w')"
  shows "\<exists>n receipt. http_reqs (effs w') = http_reqs (effs w) @
     replicate n (client_url rpc, rpc_payload ''starknet_getTransactionReceipt'' (JObj [(''transaction_hash'', JStr h)])) \<and>
     receipt_answered H X rpc h (tick w) (tick w') receipt \<and> confirmed_receipt receipt"
proof -
  define u where "u = step_world [ESse ''log'' ''Waiting for tx inclusion...''] (step_world [ESse ''phase'' ''verifying''] w)"
  from assms obtain receipt v where wait: "wait_for_tx H X rpc h 180 5 u = (Inr receipt, v)"
    and v: "http_reqs (effs w') = http_reqs (effs v)" "tick v \<le> tick w'"
    by (auto simp: await_play_def handler_simps log_def phase_def u_def step_world_reqs) (simp add: step_world_def)
  have u: "http_reqs (effs u) = http_reqs (effs w)" "tick w \<le> tick u" by (simp_all add: u_def step_world_reqs) (simp add: step_world_def)
  have "receipt_answered H X rpc h (tick w) (tick w') receipt"
    using receipt_answered_wider [OF wait_for_tx_receipt(2) [OF wait] u(2) v(2)] .
  then show ?thesis using wait v(1) u(1) wait_for_tx_receipt(1) [OF wait]
      wait_requests [of H X rpc h 180 5 "clk u + unat (180 :: u64) * 1000" u] by (simp add: wait_for_tx_def) blast
qed

text \<open>C17. A game that ends has built an invoke whose calldata are the felts of one call of play with the seed block, the player and the bet of the reveal, with the nonce a node answered for the account, written it, signed without proof facts, to the transaction file of the session, run the prover, which succeeded, and read the proof and the facts back from the files it was told to write; it signed that invoke with those facts, posted the payload to the gateway one to twenty times until the gateway took it, and sent nothing after that but receipt requests for the hash it signed, of which the node answered one with a confirmed receipt. The shared state is as it was.\<close>
theorem game_plays_committed_bet:
  assumes "game_task X H i addr b q w = (Inr (), w')"
  shows "let cfg = as_config (aw_state w); rpc = as_rpc (aw_state w);
             dir = path_join (cfg_output_dir cfg) ''coinflip''
   in \<exists>c files h payload gw k n before m m' receipt.
     constructed_for X cfg (play_calldata addr b q) c \<and> nonce_answered X H cfg rpc b (tick w) (tick w') (ct_nonce c) \<and>
     tx_written X cfg (play_calldata addr b q) zero_fee (path_join dir (i @ ''_tx.json'')) c (effs w) (effs w') \<and>
     files_proved X H cfg b (path_join dir (i @ ''_tx.json'')) (path_join dir (i @ ''.proof'')) (tick w) m files \<and>
     sign_and_build_payload X (submission_params X c files (x_from_u64 X (ct_nonce c))) = Inr (h, payload) \<and>
     cfg_gateway_url cfg = Some gw \<and> 1 \<le> k \<and> k \<le> max_attempts \<and>
     http_reqs (effs w') = http_reqs (effs w) @ before @
       replicate k (trim_end_slashes gw @ ''/gateway/add_transaction'', payload) @
       replicate n (client_url rpc,
         rpc_payload ''starknet_getTransactionReceipt'' (JObj [(''transaction_hash'', JStr (x_to_hex X h))])) \<and>
     gateway_took H (trim_end_slashes gw @ ''/gateway/add_transaction'') payload m m' \<and>
     receipt_answered H X rpc (x_to_hex X h) m' (tick w') receipt \<and> confirmed_receipt receipt \<and>
     aw_state w' = aw_state w"
proof -
  let ?rpc = "as_rpc (aw_state w)" and ?cfg = "as_config (aw_state w)"
  let ?dir = "path_join (cfg_output_dir ?cfg) ''coinflip''"
  from assms obtain w0 where run: "game_run X H i addr b q w0 = (Inr (), w')"
    and w0: "aw_state w0 = aw_state w" "http_reqs (effs w0) = http_reqs (effs w)" "tick w \<le> tick w0" "\<exists>es. effs w0 = effs w @ es"
    by (auto simp: game_task_def announce_game_def handler_simps log_def step_world_def)
  from run obtain c t p w1 proof_size w2 label won w3 h payload w4 w5 w6 where
    s1: "construct_play X H ?cfg ?rpc i addr b q w0 = (Inr (c, t, p), w1)"
    and s2: "prove_play H ?cfg b t p w1 = (Inr proof_size, w2)"
    and s3: "(read_settlement X H p :: (string, string \<times> bool) handler) w2 = (Inr (label, won), w3)"
    and s4: "signed_payload X H c p w3 = (Inr (h, payload), w4)"
    and s5: "submit_play X H ?cfg h payload w4 = (Inr (), w5)"
    and s6: "await_play X H ?rpc (x_to_hex X h) w5 = (Inr (), w6)"
    and w': "w' = step_world [ESse ''result'' (x_json_text X (result_json label won (x_to_hex X h) proof_size b q))] w6"
    by (auto simp: game_run_def handler_simps w0)
  note c = construct_play_done [OF s1]
  obtain files where files: "files_read X H p (tick w3) (tick w4) files"
    "sign_and_build_payload X (submission_params X c files (x_from_u64 X (ct_nonce c))) = Inr (h, payload)"
    using signed_payload_read [OF s4] by blast
  obtain gw k where k: "cfg_gateway_url ?cfg = Some gw" "1 \<le> k" "k \<le> max_attempts"
    "http_reqs (effs w5) = http_reqs (effs w4) @ replicate k (trim_end_slashes gw @ ''/gateway/add_transaction'', payload)"
    and took: "gateway_took H (trim_end_slashes gw @ ''/gateway/add_transaction'') payload (tick w4) (tick w5)"
    using submit_play_requests [OF s5] by blast
  obtain n receipt where
    n: "http_reqs (effs w6) = http_reqs (effs w5) @ replicate n (client_url ?rpc,
       rpc_payload ''starknet_getTransactionReceipt'' (JObj [(''transaction_hash'', JStr (x_to_hex X h))]))"
    and receipt: "receipt_answered H X ?rpc (x_to_hex X h) (tick w5) (tick w6) receipt" "confirmed_receipt receipt"
    using await_play_requests [OF s6] by blast
  have t1: "tick w0 \<le> tick w1" using appends_tick [OF appends_game(1) s1] .
  have t2: "tick w1 \<le> tick w2" using appends_tick [OF appends_game(2) s2] .
  have t3: "tick w2 \<le> tick w3" using appends_tick [OF appends_game(3) s3] .
  have t4: "tick w3 \<le> tick w4" using appends_tick [OF appends_phases(3) s4] .
  have t5: "tick w4 \<le> tick w5" using took by (auto simp: gateway_took_def)
  have t6: "tick w5 \<le> tick w6" "tick w6 \<le> tick w'" using receipt(1) by (auto simp: receipt_answered_def w' step_world_def)
  have ran: "prover_ran H ?cfg b t p (tick w) (tick w3)"
    using prove_play_ran [OF s2] w0(3) t1 t3 unfolding prover_ran_def by (meson le_trans less_le_trans)
  have proved: "files_proved X H ?cfg b (path_join ?dir (i @ ''_tx.json'')) (path_join ?dir (i @ ''.proof'')) (tick w) (tick w4) files"
    using ran files(1) unfolding files_proved_def c(3,4) by blast
  have nonce: "nonce_answered X H ?cfg ?rpc b (tick w) (tick w') (ct_nonce c)"
    by (rule nonce_answered_wider [OF c(2)]) (use w0(3) t2 t3 t4 t5 t6 in linarith)+
  have rcpt: "receipt_answered H X ?rpc (x_to_hex X h) (tick w5) (tick w') receipt"
    using receipt_answered_wider [OF receipt(1)] t6(2) by blast
  have later: "\<exists>es. effs w' = effs w1 @ es"
    using appendsD [OF appends_game(2) s2] appendsD [OF appends_game(3) s3] appendsD [OF appends_phases(3) s4]
      appendsD [OF appends_settling(1) s5] appendsD [OF appends_settling(2) s6] by (auto simp: w' step_world_def)
  have written: "tx_written X ?cfg (play_calldata addr b q) zero_fee (path_join ?dir (i @ ''_tx.json'')) c (effs w) (effs w')"
    using tx_written_wider [OF c(5) w0(4) later] by (simp add: c(3))
  obtain e1 where e1: "http_reqs (effs w1) = http_reqs (effs w0) @ e1" using appends_reqs [OF appends_game(1) s1] by blast
  obtain e2 where e2: "http_reqs (effs w2) = http_reqs (effs w1) @ e2" using appends_reqs [OF appends_game(2) s2] by blast
  obtain e3 where e3: "http_reqs (effs w3) = http_reqs (effs w2) @ e3" using appends_reqs [OF appends_game(3) s3] by blast
  obtain e4 where e4: "http_reqs (effs w4) = http_reqs (effs w3) @ e4" using appends_reqs [OF appends_phases(3) s4] by blast
  have reqs: "http_reqs (effs w') = http_reqs (effs w) @ (e1 @ e2 @ e3 @ e4) @
      replicate k (trim_end_slashes gw @ ''/gateway/add_transaction'', payload) @
      replicate n (client_url ?rpc, rpc_payload ''starknet_getTransactionReceipt'' (JObj [(''transaction_hash'', JStr (x_to_hex X h))]))"
    by (simp add: w' step_world_def n k(4) e4 e3 e2 e1 w0)
  have state: "aw_state w' = aw_state w" using untouched_shared [OF untouched_game_run run] w0 by (simp add: shared_parts)
  show ?thesis unfolding Let_def
    by (rule exI [of _ c], rule exI [of _ files], rule exI [of _ h], rule exI [of _ payload], rule exI [of _ gw], rule exI [of _ k],
        rule exI [of _ n], rule exI [of _ "e1 @ e2 @ e3 @ e4"], rule exI [of _ "tick w4"], rule exI [of _ "tick w5"],
        rule exI [of _ receipt])
      (intro conjI c(1) nonce written proved files(2) k(1-3) reqs took rcpt receipt(2) state)
qed

section \<open>A sample game\<close>

definition sample_play :: play_query where
  "sample_play = \<lparr>pl_player = ''0x1'', pl_bet = 5, pl_nonce = ''0x7''\<rparr>"

definition sample_commitment :: bet_commitment where
  "sample_commitment = \<lparr>bc_commitment = fmt_hex (ref_hash [1, 7]), bc_seed_block = 8, bc_player = ''0x1''\<rparr>"

lemma sample_reveal: "check_reveal ref_ext sample_play sample_commitment = Inr ()"
proof -
  have "x_pedersen_hash ref_ext 1 7 = ref_hash [1, 7]" "x_from_u64 ref_ext 1 = 1" "x_to_hex ref_ext = fmt_hex" by (simp_all add: ref_ext_def)
  moreover have "clamped_bet sample_play = 1" by (simp add: clamped_bet_cases sample_play_def)
  ultimately show ?thesis
    by (simp add: check_reveal_def sample_commitment_def Let_def) (simp add: sample_play_def ref_small_felts)
qed

theorem commitment_binding_witness:
  "\<exists>n n'. felt_from_hex ref_ext (pl_nonce sample_play) = Inr n \<and> felt_from_hex ref_ext (pl_nonce sample_play) = Inr n' \<and>
     (if pedersen_collision ref_ext (bet_felt ref_ext sample_play, n) (bet_felt ref_ext sample_play, n') then True
      else clamped_bet sample_play = clamped_bet sample_play \<and> n = n')"
  by (rule commitment_binding [OF ref_hex_laws ref_arith_laws sample_reveal sample_reveal refl])

text \<open>A server with the game deployed and no commitment.\<close>

definition coin_world :: app_world where
  "coin_world = sample_world\<lparr>aw_state := (aw_state sample_world)
     \<lparr>as_coinflip := Some \<lparr>cd_contract_address = ''0xc'', cd_class_hash = ''0xd'', cd_deploy_block = 4\<rparr>,
      as_config := sample_config\<lparr>cfg_gateway_url := Some ''http://gw/''\<rparr>\<rparr>\<rparr>"

definition sample_commit :: commit_request where
  "sample_commit = \<lparr>cr_commitment = fmt_hex (ref_hash [1, 7]), cr_player = ''0x1''\<rparr>"

definition sample_requests :: "coin_request list" where
  "sample_requests = [Commit sample_commit, Play ''u1'' sample_play, Play ''u1'' sample_play]"

lemma sample_session: "hs_uuid ref_host 1 = ''u1''"
proof -
  have "fmt_dec 1 = ''1''" by code_simp
  then show ?thesis by (simp add: ref_host_def)
qed

lemma sample_committed:
  "\<exists>w1. serve ref_ext ref_host (Commit sample_commit) coin_world =
       ([Committed ''u1'' sample_commitment], w1) \<and>
     as_commitments (aw_state w1) = Map.empty(''u1'' \<mapsto> sample_commitment) \<and> as_coinflip (aw_state w1) \<noteq> None \<and>
     aw_others w1 = []"
proof -
  have block: "rpc_block_number ref_host ref_ext rpc w =
      (Inr 9, after_http (client_url rpc) (rpc_payload ''starknet_blockNumber'' (JObj [])) w)" for rpc and w :: app_world
    by (simp add: rpc_block_number_def bindW_def liftW_def ref_call) (simp add: ref_node_def rpc_payload_def jget_str_def Let_def)
  have uuid: "do_uuid ref_host w = (Inr ''u1'', step_world [] w)" if "tick w = 1" for w
    using sample_session that by (simp add: do_uuid_def)
  show ?thesis
    by (simp add: sample_commit_def commit_bet_def bindW_def askW_def map_errW_def block uuid after_http_def coin_world_def sample_world_def modifyW_def
        returnW_def u64_saturating_pred_def sample_commitment_def step_world_def sample_state_def app_state_new_def Let_def)
qed

theorem commitments_single_use_witness:
  "\<exists>w'. serve_all ref_ext ref_host sample_requests coin_world =
       ([Committed ''u1'' sample_commitment, Started ''u1'' sample_play sample_commitment], w') \<and>
     starts ''u1'' [Committed ''u1'' sample_commitment, Started ''u1'' sample_play sample_commitment] \<le> 1"
proof -
  from sample_committed obtain w1 where w1: "serve ref_ext ref_host (Commit sample_commit) coin_world =
       ([Committed ''u1'' sample_commitment], w1)" and led: "as_commitments (aw_state w1) = Map.empty(''u1'' \<mapsto> sample_commitment)"
    and d: "as_coinflip (aw_state w1) \<noteq> None" and alone: "aw_others w1 = []" by auto
  have "opens ref_ext sample_play sample_commitment" using sample_reveal by (simp add: check_reveal_opens [symmetric] is_ok_iff)
  then have first: "fst (serve ref_ext ref_host (Play ''u1'' sample_play) w1) = [Started ''u1'' sample_play sample_commitment]"
    by (simp add: play_alone(1) [OF alone d] led del: serve.simps)
  obtain w2 where 2: "serve ref_ext ref_host (Play ''u1'' sample_play) w1 = ([Started ''u1'' sample_play sample_commitment], w2)"
    using first by (metis prod.collapse)
  then have w2: "shared w2 = shared (after_take ''u1'' (after_read w1))"
    using play_alone(2) [OF alone d, of ref_ext ref_host "''u1''" sample_play] by (simp del: serve.simps)
  from w2 have d2: "as_coinflip (aw_state w2) \<noteq> None" "as_commitments (aw_state w2) ''u1'' = None" "aw_others w2 = []"
    using alone d by (simp_all add: shared_parts take_commitment_def)
  have "fst (serve ref_ext ref_host (Play ''u1'' sample_play) w2) = []" by (simp add: play_alone(1) [OF d2(3,1)] d2(2) del: serve.simps)
  then obtain w3 where 3: "serve ref_ext ref_host (Play ''u1'' sample_play) w2 = ([], w3)" by (metis prod.collapse)
  obtain w' where run: "serve_all ref_ext ref_host sample_requests coin_world =
       ([Committed ''u1'' sample_commitment, Started ''u1'' sample_play sample_commitment], w')"
    by (simp add: sample_requests_def w1 2 3 del: serve.simps)
  have "as_commitments (aw_state coin_world) = Map.empty" "aw_others coin_world = []" by (simp_all add: coin_world_def sample_world_def sample_state_def app_state_new_def)
  from commitments_single_use [OF this(2,1) run, of "''u1''"] run show ?thesis by (simp add: commits_def)
qed

lemma coin_world_state:
  "as_config (aw_state coin_world) = sample_config\<lparr>cfg_gateway_url := Some ''http://gw/''\<rparr>" "effs coin_world = []"
  "as_rpc (aw_state coin_world) = rpc_new ''http://node''"
  by (simp_all add: coin_world_def sample_world_def sample_state_def app_state_new_def sample_config_def)

lemma sample_construct_play:
  "\<exists>c t p w'. construct_play ref_ext ref_host (sample_config\<lparr>cfg_gateway_url := g\<rparr>) rpc i ''0xc'' 8 sample_play w = (Inr (c, t, p), w') \<and>
     ct_private_key c = 2"
proof -
  have "list_all (\<lambda>s. list_all (\<lambda>c. hex_val c \<noteq> None) (trim_start_0x s)) (play_calldata ''0xc'' 8 sample_play)"
  proof -
    have "play_calldata ''0xc'' 8 sample_play = [''0x1'', ''0xc'', PLAY_SELECTOR, ''0x3'', fmt_hex 8, ''0x1'', fmt_hex 1]"
      by (simp add: play_calldata_def clamped_bet_cases sample_play_def)
    moreover have "list_all (\<lambda>s. list_all (\<lambda>c. hex_val c \<noteq> None) (trim_start_0x s))
        [''0x1'', ''0xc'', PLAY_SELECTOR, ''0x3'', fmt_hex 8, ''0x1'', fmt_hex 1]" by code_simp
    ultimately show ?thesis by simp
  qed
  then obtain cd where cd: "collectR (map (felt_from_hex ref_ext) (play_calldata ''0xc'' 8 sample_play)) = Inr cd" using sample_felts by blast
  obtain cid where cid: "config_chain_id_felt ref_ext sample_config = Inr cid" using ref_chain_id by blast
  then have "config_chain_id_felt ref_ext (sample_config\<lparr>cfg_gateway_url := g\<rparr>) = Inr cid" by (simp add: config_chain_id_felt_def Let_def split: if_splits)
  then have accounts: "parse_accounts ref_ext (sample_config\<lparr>cfg_gateway_url := g\<rparr>) ''sender'' (play_calldata ''0xc'' 8 sample_play) = Inr (cd, 1, 2, cid)"
    by (simp add: parse_accounts_def cd) (simp add: sample_config_def ref_small_felts)
  obtain sig where sig: "standard_signature ref_ext \<lparr>ct_sender = 1, ct_private_key = 2, ct_calldata = cd, ct_chain_id = cid, ct_nonce = 3\<rparr>
      zero_fee = Inr sig"
    using ref_sign [of 2] by (auto simp: standard_signature_def)
  show ?thesis
    by (simp add: construct_play_def bindW_def log_def phase_def send_def liftW_def accounts map_errW_def nonce_at_def ref_nonce ignoreW_def
        sig [unfolded One_nat_def] ref_host_steps Let_def returnW_def)
qed

lemma sample_prove_play: "\<exists>n w'. prove_play ref_host cfg b t p w = (Inr n, w')"
  by (simp add: prove_play_def spawn_prover_def ref_find_bin bindW_def map_errW_def ref_host_steps
      log_def phase_def send_def returnW_def Let_def)

lemma sample_settlement: "\<exists>x w'. (read_settlement ref_ext ref_host p :: (string, string \<times> bool) handler) w = (Inr x, w')"
proof -
  have "x_json_parse ref_ext ''0x7'' = Inr (JStr ''0x7'')" by (simp add: ref_ext_def)
  then show ?thesis by (simp add: read_settlement_def bindW_def ref_host_steps tryW_def settlement_of_def returnW_def Let_def)
      blast
qed

lemma sample_submit_play: "\<exists>w'. submit_play ref_ext ref_host (sample_config\<lparr>cfg_gateway_url := Some g\<rparr>) h tx w = (Inr (), w')"
proof -
  have "(do_gateway ref_host url tx :: (string, string + (string + json)) handler) w = (Inr (Inr (Inr (JObj [(''code'', JStr ''TRANSACTION_RECEIVED'')]))), step_world [EHttp url tx] w)" for url w
    by (simp add: do_gateway_def ref_host_def)
  then show ?thesis
    by (simp add: submit_play_def gateway_loop.simps [of ref_ext] max_attempts_def bindW_def liftW_def log_def send_def returnW_def
        jget_str_def Let_def)
qed

lemma sample_await: "\<exists>w'. await_play ref_ext ref_host rpc h w = (Inr (), w')"
  by (simp add: await_play_def bindW_def phase_def log_def send_def map_errW_def wait_ref_host)

theorem game_plays_committed_bet_witness:
  "\<exists>w' k before after payload. game_task ref_ext ref_host ''u1'' ''0xc'' 8 sample_play coin_world = (Inr (), w') \<and>
     1 \<le> k \<and> k \<le> max_attempts \<and>
     http_reqs (effs w') = before @ replicate k (''http://gw/gateway/add_transaction'', payload) @ after"
proof -
  let ?cfg = "sample_config\<lparr>cfg_gateway_url := Some ''http://gw/''\<rparr>" and ?rpc = "rpc_new ''http://node''"
  have "cut18 (pl_player sample_play) = Some ''0x1''" by (simp add: cut18_def sample_play_def)
  then obtain w0 where 0: "announce_game sample_play coin_world = (Inr (), w0)" and w0: "aw_state w0 = aw_state coin_world"
    by (simp add: announce_game_def bindW_def liftW_def log_def send_def step_world_def)
  obtain c t p w1 where 1: "construct_play ref_ext ref_host ?cfg ?rpc ''u1'' ''0xc'' 8 sample_play w0 = (Inr (c, t, p), w1)"
    and key: "ct_private_key c = 2" using sample_construct_play by blast
  obtain n w2 where 2: "prove_play ref_host ?cfg 8 t p w1 = (Inr n, w2)" using sample_prove_play by blast
  obtain label won w3 where 3: "(read_settlement ref_ext ref_host p :: (string, string \<times> bool) handler) w2 = (Inr (label, won), w3)"
    using sample_settlement by (metis surj_pair)
  obtain h payload w4 where 4: "signed_payload ref_ext ref_host c p w3 = (Inr (h, payload), w4)" using sample_signed_payload [OF key] by blast
  obtain w5 where 5: "submit_play ref_ext ref_host ?cfg h payload w4 = (Inr (), w5)" using sample_submit_play by blast
  obtain w6 where 6: "await_play ref_ext ref_host ?rpc (x_to_hex ref_ext h) w5 = (Inr (), w6)" using sample_await by blast
  have "\<exists>w'. game_task ref_ext ref_host ''u1'' ''0xc'' 8 sample_play coin_world = (Inr (), w')"
    by (simp add: game_task_def game_run_def bindW_def map_errW_def 0 askW_def w0 coin_world_state 1 2 3 4 5 6 send_def)
  then obtain w' where w': "game_task ref_ext ref_host ''u1'' ''0xc'' 8 sample_play coin_world = (Inr (), w')" by blast
  have "trim_end_slashes ''http://gw/'' @ ''/gateway/add_transaction'' = ''http://gw/gateway/add_transaction''"
    by (simp add: trim_end_slashes_def)
  note url = this
  obtain gw k n before payload h where gw: "cfg_gateway_url ?cfg = Some gw" and k: "1 \<le> k" "k \<le> max_attempts"
    and reqs: "http_reqs (effs w') = http_reqs [] @ before @ replicate k (trim_end_slashes gw @ ''/gateway/add_transaction'', payload) @
       replicate n (client_url ?rpc, rpc_payload ''starknet_getTransactionReceipt'' (JObj [(''transaction_hash'', JStr (x_to_hex ref_ext h))]))"
    using game_plays_committed_bet [OF w', unfolded Let_def coin_world_state] by (elim exE conjE) (rule that)
  have "gw = ''http://gw/''" using gw by simp
  with reqs url w' k show ?thesis by auto
qed

end
