(* ===== verification/Server_App.thy ===== *)
theory Server_App
  imports Coinflip
begin

text \<open>
  The playground server as a whole: the table of routes of \<open>crates/snip36-server/src/routes/mod.rs\<close>,
  the request and response types of the handlers, and \<open>main.rs\<close>, which loads the configuration,
  imports the account, builds the shared state and serves. Matching a path, extracting the
  arguments of a handler and binding the port are axum and tokio: the record \<open>axum\<close> and the
  argument \<open>bind\<close>. \<open>serve_http\<close> is the router: the CORS layer that \<open>main.rs\<close> puts around it is
  \<open>playground_cors\<close>, and an OPTIONS request, which that layer answers itself, does not reach the router.
  \<open>serve_requests\<close>
  serves requests one after the other; theory \<open>Server_Overlap\<close> lets them overlap. The lemmas show that no two routes can
  claim a path, and that whatever requests arrive the configuration stays the one loaded, only
  sessions that are named come to exist, and the ledger of commitments is the one of theory
  \<open>Coinflip\<close>. \<open>serve_release\<close> is the server of a release build, which a panic or an allocation that
  fails ends; the memory is its argument \<open>room\<close>.
\<close>

section \<open>Requests\<close>

record fund_request =
  frq_account_address :: string

record deploy_counter_request =
  dcq_session_id :: string

record submit_proof_request =
  spq_session_id :: string

record read_counter_request =
  rcq_contract_address :: string

record read_counter_response =
  rcr_counter_value :: u64

record deploy_coinflip_response =
  dfr_contract_address :: string
  dfr_class_hash :: string
  dfr_deploy_block :: u64

definition deploy_coinflip_response_of :: "coinflip_deployment \<Rightarrow> deploy_coinflip_response" where
  "deploy_coinflip_response_of d =
     \<lparr>dfr_contract_address = cd_contract_address d, dfr_class_hash = cd_class_hash d,
      dfr_deploy_block = cd_deploy_block d\<rparr>"

text \<open>The fields with a serde default: absent is \<open>None\<close>.\<close>

definition invoke_request_of :: "string \<Rightarrow> u64 option \<Rightarrow> string \<Rightarrow> string \<Rightarrow> u64 \<Rightarrow> invoke_request" where
  "invoke_request_of session_id amount r s nonce =
     \<lparr>iq_session_id = session_id, iq_amount = unwrap_or amount default_amount, iq_signature_r = r,
      iq_signature_s = s, iq_nonce = nonce\<rparr>"

definition prove_block_query_of :: "u64 option \<Rightarrow> u32 option \<Rightarrow> prove_block_query" where
  "prove_block_query_of amount per_block =
     \<lparr>pq_increment_amount = unwrap_or amount (pq_increment_amount default_prove_block_query),
      pq_increments_per_block = unwrap_or per_block (pq_increments_per_block default_prove_block_query)\<rparr>"

definition play_query_of :: "string \<Rightarrow> u8 option \<Rightarrow> string option \<Rightarrow> play_query" where
  "play_query_of player bet nonce = \<lparr>pl_player = player, pl_bet = unwrap_or bet 0, pl_nonce = unwrap_or nonce []\<rparr>"

text \<open>A call of a handler: what its extractors hand to it.\<close>

datatype api_call =
    CHealth
  | CFund fund_request
  | CDeployAccount deploy_account_request
  | CDeployCounter deploy_counter_request
  | CInvoke string "u64 option" string string u64
  | CProve string
  | CProveBlock string "u64 option" "u32 option"
  | CSubmit submit_proof_request
  | CReadCounter read_counter_request
  | CNonce string
  | CStatus
  | CDeployCoinflip
  | CCommit commit_request
  | CPlay string string "u8 option" "string option"

datatype api_reply =
    RHealth health_response
  | RFund fund_response
  | RDeployAccount deploy_account_response
  | RDeployCounter deploy_counter_response
  | RInvoke invoke_response
  | RStream
  | RSubmit submit_response
  | RCounter read_counter_response
  | RNonce nonce_response
  | RStatus status_response
  | RDeployCoinflip deploy_coinflip_response
  | RCommit commit_response

definition reply :: "('a \<Rightarrow> api_reply) \<Rightarrow> (api_error, 'a) handler \<Rightarrow> (api_error, api_reply) handler" where
  "reply f m = bindW m (\<lambda>r. returnW (f r))"

fun handle :: "('f, 'x) ext_scheme \<Rightarrow> host_sys \<Rightarrow> api_call \<Rightarrow> (api_error, api_reply) handler" where
  "handle X H CHealth = reply RHealth health"
| "handle X H (CFund r) = reply RFund (fund_account X H (frq_account_address r))"
| "handle X H (CDeployAccount r) = reply RDeployAccount (deploy_account X H r)"
| "handle X H (CDeployCounter r) = reply RDeployCounter (deploy_counter X H (dcq_session_id r))"
| "handle X H (CInvoke i a r s n) = reply RInvoke (invoke_increment X H (invoke_request_of i a r s n))"
| "handle X H (CProve i) = reply (\<lambda>_. RStream) (prove_route X H i)"
| "handle X H (CProveBlock i a n) = reply (\<lambda>_. RStream) (prove_block_route X H i (prove_block_query_of a n))"
| "handle X H (CSubmit r) = reply RSubmit (submit_proof X H (spq_session_id r))"
| "handle X H (CReadCounter r) =
     reply (\<lambda>v. RCounter \<lparr>rcr_counter_value = v\<rparr>) (read_counter X H (rcq_contract_address r))"
| "handle X H (CNonce a) = reply RNonce (route_get_nonce X H a)"
| "handle X H CStatus = reply RStatus coinflip_status"
| "handle X H CDeployCoinflip =
     reply (\<lambda>d. RDeployCoinflip (deploy_coinflip_response_of d)) (deploy_coinflip X H)"
| "handle X H (CCommit r) = reply RCommit (commit_bet X H r)"
| "handle X H (CPlay i p b n) = reply (\<lambda>_. RStream) (play_route X H i (play_query_of p b n))"

section \<open>The JSON of a response\<close>

text \<open>An entry that is left out when it is absent, and one that is \<open>null\<close> then.\<close>

definition skip_none :: "string \<Rightarrow> string option \<Rightarrow> (string \<times> json) list" where
  "skip_none k v = (case v of None \<Rightarrow> [] | Some s \<Rightarrow> [(k, JStr s)])"

definition or_null :: "u64 option \<Rightarrow> json" where
  "or_null v = (case v of None \<Rightarrow> JNull | Some n \<Rightarrow> ju64 n)"

fun reply_json :: "api_reply \<Rightarrow> json option" where
  "reply_json (RHealth r) = Some (JObj [(''status'', JStr (hr_status r)), (''rpc_url'', JStr (hr_rpc_url r))])"
| "reply_json (RFund r) = Some (JObj [(''tx_hash'', JStr (fu_tx_hash r)), (''amount'', JStr (fu_amount r)),
     (''block_number'', or_null (fu_block_number r))])"
| "reply_json (RDeployAccount r) = Some (JObj [(''account_address'', JStr (dar_account_address r)),
     (''tx_hash'', JStr (dar_tx_hash r)), (''block_number'', or_null (dar_block_number r))])"
| "reply_json (RDeployCounter r) = Some (JObj [(''class_hash'', JStr (dcr_class_hash r)),
     (''contract_address'', JStr (dcr_contract_address r)), (''tx_hash'', JStr (dcr_tx_hash r)),
     (''block_number'', or_null (dcr_block_number r))])"
| "reply_json (RInvoke r) = Some (JObj ([(''tx_hash'', JStr (ir_tx_hash r)),
     (''block_number'', or_null (ir_block_number r))] @ skip_none ''warning'' (ir_warning r)))"
| "reply_json RStream = None"
| "reply_json (RSubmit r) = Some (JObj (skip_none ''tx_hash'' (sr_tx_hash r) @
     skip_none ''local_tx_hash'' (sr_local_tx_hash r) @ [(''output'', JStr (sr_output r))]))"
| "reply_json (RCounter r) = Some (JObj [(''counter_value'', ju64 (rcr_counter_value r))])"
| "reply_json (RNonce r) = Some (JObj [(''nonce'', ju64 (nr_nonce r)), (''nonce_hex'', JStr (nr_nonce_hex r))])"
| "reply_json (RStatus r) = Some (JObj ((''deployed'', JBool (sta_deployed r)) #
     skip_none ''contract_address'' (sta_contract_address r)))"
| "reply_json (RDeployCoinflip r) = Some (JObj [(''contract_address'', JStr (dfr_contract_address r)),
     (''class_hash'', JStr (dfr_class_hash r)), (''deploy_block'', ju64 (dfr_deploy_block r))])"
| "reply_json (RCommit r) = Some (JObj [(''session_id'', JStr (cmr_session_id r)),
     (''seed_block'', ju64 (cmr_seed_block r))])"

section \<open>The router\<close>

datatype http_method = GET | POST | Other_method string

datatype endpoint =
    E_health | E_fund_account | E_deploy_account | E_deploy_counter | E_invoke_increment | E_prove_transaction
  | E_prove_block | E_submit_proof | E_read_counter | E_get_nonce | E_coinflip_status | E_deploy_coinflip
  | E_commit_bet | E_play_coinflip

definition api_router :: "(string \<times> http_method \<times> endpoint) list" where
  "api_router =
     [(''/api/health'', GET, E_health),
      (''/api/fund'', POST, E_fund_account),
      (''/api/deploy-account'', POST, E_deploy_account),
      (''/api/deploy-counter'', POST, E_deploy_counter),
      (''/api/invoke'', POST, E_invoke_increment),
      (''/api/prove/{session_id}'', GET, E_prove_transaction),
      (''/api/prove-block/{session_id}'', GET, E_prove_block),
      (''/api/submit-proof'', POST, E_submit_proof),
      (''/api/read-counter'', POST, E_read_counter),
      (''/api/nonce/{address}'', GET, E_get_nonce),
      (''/api/coinflip/status'', GET, E_coinflip_status),
      (''/api/coinflip/deploy'', POST, E_deploy_coinflip),
      (''/api/coinflip/commit'', POST, E_commit_bet),
      (''/api/coinflip/play/{session_id}'', GET, E_play_coinflip)]"

text \<open>
  What the server takes from axum: whether a pattern matches a path and what it captures, which
  methods a method router serves, and the extraction of the arguments of a handler from the
  captures and the rest of the request, \<open>'q\<close>.
\<close>

record 'q axum =
  ax_match :: "string \<Rightarrow> string \<Rightarrow> string list option"
  ax_serves :: "http_method \<Rightarrow> http_method \<Rightarrow> bool"
  ax_extract :: "endpoint \<Rightarrow> string list \<Rightarrow> 'q \<Rightarrow> api_error + api_call"

record 'q http_request =
  rq_method :: http_method
  rq_path :: string
  rq_rest :: 'q

datatype routed = To endpoint "string list" | Not_found | Method_not_allowed

definition dispatch :: "'q axum \<Rightarrow> http_method \<Rightarrow> string \<Rightarrow> routed" where
  "dispatch A meth path =
     (case List.find (\<lambda>(p, m, e). ax_match A p path \<noteq> None) api_router of
        None \<Rightarrow> Not_found
      | Some (p, m, e) \<Rightarrow> if ax_serves A m meth then To e (unwrap_or (ax_match A p path) []) else Method_not_allowed)"

text \<open>The call a request makes, if it reaches a handler.\<close>

definition call_of :: "'q axum \<Rightarrow> 'q http_request \<Rightarrow> api_error + api_call" where
  "call_of A rq =
     (case dispatch A (rq_method rq) (rq_path rq) of
        Not_found \<Rightarrow> Inl (404, JNull)
      | Method_not_allowed \<Rightarrow> Inl (405, JNull)
      | To e captures \<Rightarrow> ax_extract A e captures (rq_rest rq))"

definition serve_http ::
  "'q axum \<Rightarrow> ('f, 'x) ext_scheme \<Rightarrow> host_sys \<Rightarrow> 'q http_request \<Rightarrow> (api_error, api_reply) handler"
where
  "serve_http A X H rq = bindW (liftW (call_of A rq)) (handle X H)"

fun serve_requests ::
  "'q axum \<Rightarrow> ('f, 'x) ext_scheme \<Rightarrow> host_sys \<Rightarrow> 'q http_request list \<Rightarrow> app_world
   \<Rightarrow> (api_error + api_reply) list \<times> app_world"
where
  "serve_requests A X H [] w = ([], w)"
| "serve_requests A X H (rq # rqs) w =
     (let (a, v) = serve_http A X H rq w; (as, w') = serve_requests A X H rqs v in (a # as, w'))"

section \<open>Start-up\<close>

datatype allowed = Any

record playground_cors =
  pg_allow_origin :: allowed
  pg_allow_methods :: allowed
  pg_allow_headers :: allowed

record listening =
  ls_addr :: string
  ls_cors :: playground_cors
  ls_routes :: "(string \<times> http_method \<times> endpoint) list"
  ls_host :: host_sys

datatype main_outcome =
    Config_failed config_error
  | Bind_failed string app_world
  | Serving listening app_world

text \<open>
  \<open>AppState::new\<close> is pure, so the state is there already when sncast runs. The handlers see the
  environment with the variables of the \<open>.env\<close> file. That serving ends with an error is left out.
\<close>

definition boot_world :: "world \<Rightarrow> config \<Rightarrow> app_world" where
  "boot_world w0 config = \<lparr>clk = clk w0, tick = tick w0, effs = effs w0, aw_state = app_state_new config,
     aw_others = [], aw_trace = []\<rparr>"

definition import_account :: "host_sys \<Rightarrow> config \<Rightarrow> app_world \<Rightarrow> app_world" where
  "import_account H config w = snd ((ensure_sncast_account H config :: (unit, unit) handler) w)"

definition playground_main :: "host \<Rightarrow> (string \<Rightarrow> string + unit) \<Rightarrow> host_sys \<Rightarrow> world \<Rightarrow> main_outcome" where
  "playground_main HO bind H w0 =
     (case from_env HO None of
        Inl e \<Rightarrow> Config_failed e
      | Inr config \<Rightarrow>
          (let env = load_env HO None;
               host = H\<lparr>hs_env := env\<rparr>;
               w = import_account host config (boot_world w0 config);
               cors = \<lparr>pg_allow_origin = Any, pg_allow_methods = Any, pg_allow_headers = Any\<rparr>;
               port = unwrap_or (env ''PORT'') ''8090'';
               addr = ''0.0.0.0:'' @ port
           in case bind addr of
                Inl e \<Rightarrow> Bind_failed e w
              | Inr _ \<Rightarrow> Serving \<lparr>ls_addr = addr, ls_cors = cors, ls_routes = api_router, ls_host = host\<rparr> w))"

section \<open>No two routes claim a path\<close>

text \<open>
  The documented rules of axum: a pattern without a parameter matches itself only, and one that ends
  in a parameter after a slash matches its prefix followed by one non-empty segment, which it
  captures; a method router serves its own method and not the other one.
\<close>

definition segment_after :: "string \<Rightarrow> string \<Rightarrow> string list option" where
  "segment_after pre path =
     (let seg = drop (length pre) path
      in if take (length pre) path = pre \<and> seg \<noteq> [] \<and> CHR ''/'' \<notin> set seg then Some [seg] else None)"

definition axum_laws :: "'q axum \<Rightarrow> bool" where
  "axum_laws A \<longleftrightarrow>
     (\<forall>p path. CHR ''{'' \<notin> set p \<longrightarrow> ax_match A p path = (if path = p then Some [] else None)) \<and>
     (\<forall>pre name path. pre \<noteq> [] \<and> last pre = CHR ''/'' \<and> CHR ''{'' \<notin> set pre \<and> set name \<inter> set ''/{}*'' = {} \<longrightarrow>
        ax_match A (pre @ ''{'' @ name @ ''}'') path = segment_after pre path) \<and>
     ax_serves A GET GET \<and> ax_serves A POST POST \<and> \<not> ax_serves A GET POST \<and> \<not> ax_serves A POST GET"

fun route_match :: "string \<Rightarrow> string \<Rightarrow> string list option" where
  "route_match p path =
     (if CHR ''{'' \<in> set p then segment_after (takeWhile (\<lambda>c. c \<noteq> CHR ''{'') p) path
      else if path = p then Some [] else None)"

lemma segment_after_Some:
  "segment_after pre path = Some caps \<longleftrightarrow>
     (\<exists>seg. path = pre @ seg \<and> seg \<noteq> [] \<and> CHR ''/'' \<notin> set seg \<and> caps = [seg])"
proof
  assume "segment_after pre path = Some caps"
  then have "take (length pre) path = pre" "drop (length pre) path \<noteq> []" "CHR ''/'' \<notin> set (drop (length pre) path)"
    "caps = [drop (length pre) path]" by (auto simp: segment_after_def Let_def split: if_splits)
  then show "\<exists>seg. path = pre @ seg \<and> seg \<noteq> [] \<and> CHR ''/'' \<notin> set seg \<and> caps = [seg]"
    by (metis append_take_drop_id)
qed (auto simp: segment_after_def)

lemma router_patterns:
  "list_all (\<lambda>(p, m, e). CHR ''{'' \<notin> set p \<or>
     (let pre = takeWhile (\<lambda>c. c \<noteq> CHR ''{'') p; name = takeWhile (\<lambda>c. c \<noteq> CHR ''}'') (drop (Suc (length pre)) p)
      in pre \<noteq> [] \<and> last pre = CHR ''/'' \<and> CHR ''{'' \<notin> set pre \<and> set name \<inter> set ''/{}*'' = {} \<and>
         p = pre @ ''{'' @ name @ ''}'')) api_router"
  by code_simp

lemma router_match:
  assumes "axum_laws A" and "(p, m, e) \<in> set api_router"
  shows "ax_match A p path = route_match p path"
proof (cases "CHR ''{'' \<in> set p")
  case False
  then show ?thesis using assms(1) by (simp add: axum_laws_def)
next
  case True
  with assms(2) router_patterns obtain pre name where
    "pre = takeWhile (\<lambda>c. c \<noteq> CHR ''{'') p" "pre \<noteq> []" "last pre = CHR ''/''" "CHR ''{'' \<notin> set pre"
    "set name \<inter> set ''/{}*'' = {}" "p = pre @ ''{'' @ name @ ''}''"
    unfolding list_all_iff Let_def by fast
  then show ?thesis using assms(1) True unfolding axum_laws_def by (metis route_match.simps)
qed

text \<open>Two patterns that match the same path have the same prefix.\<close>

lemma same_prefix:
  assumes "pre1 @ s1 = pre2 @ s2" "CHR ''/'' \<notin> set s1" "CHR ''/'' \<notin> set s2"
    and "pre1 \<noteq> []" "last pre1 = CHR ''/''" "pre2 \<noteq> []" "last pre2 = CHR ''/''"
  shows "pre1 = pre2"
proof -
  have cut: "takeWhile (\<lambda>c. c \<noteq> CHR ''/'') (rev (pre @ s)) = rev s"
    if "CHR ''/'' \<notin> set s" "pre \<noteq> []" "last pre = CHR ''/''" for pre s :: string
  proof -
    have pre: "rev pre = CHR ''/'' # rev (butlast pre)" using that(2,3) by (cases pre rule: rev_cases) auto
    have "\<And>c. c \<in> set (rev s) \<Longrightarrow> c \<noteq> CHR ''/''" using that(1) by auto
    then have "takeWhile (\<lambda>c. c \<noteq> CHR ''/'') (rev s @ rev pre) = rev s" by (subst takeWhile_append2) (simp_all add: pre)
    then show ?thesis by simp
  qed
  have "rev s1 = rev s2" using cut [of s1 pre1] cut [of s2 pre2] assms by simp
  then show ?thesis using assms(1) by simp
qed

text \<open>The prefixes and the literal paths of the table, checked pair by pair.\<close>

lemma router_distinct: "distinct (map (\<lambda>(p, m, e). takeWhile (\<lambda>c. c \<noteq> CHR ''{'') p) api_router)"
  by code_simp

lemma router_literals:
  "list_all (\<lambda>(p, m, e). CHR ''{'' \<in> set p \<or>
     list_all (\<lambda>(q, m', e'). CHR ''{'' \<in> set q \<longrightarrow> route_match q p = None) api_router) api_router"
  by code_simp

lemma find_SomeD: "List.find P xs = Some x \<Longrightarrow> x \<in> set xs \<and> P x"
  by (induction xs) (auto split: if_splits)

lemma route_match_prefix:
  assumes "(p, m, e) \<in> set api_router" "(q, m', e') \<in> set api_router"
    and "route_match p path \<noteq> None" "route_match q path \<noteq> None"
  shows "takeWhile (\<lambda>c. c \<noteq> CHR ''{'') p = takeWhile (\<lambda>c. c \<noteq> CHR ''{'') q"
proof -
  have mixed: False if "(a, n, f) \<in> set api_router" "(b, n', f') \<in> set api_router" "CHR ''{'' \<notin> set a"
    "CHR ''{'' \<in> set b" "route_match a path \<noteq> None" "route_match b path \<noteq> None" for a n f b n' f'
  proof -
    have "path = a" using that by (simp split: if_splits)
    moreover have "route_match b a = None" using router_literals that(1-4) unfolding list_all_iff by fastforce
    ultimately show False using that(6) by simp
  qed
  consider "CHR ''{'' \<notin> set p" "CHR ''{'' \<notin> set q" | "CHR ''{'' \<in> set p" "CHR ''{'' \<in> set q"
    using mixed assms by blast
  then show ?thesis
  proof cases
    case 1
    then show ?thesis using assms(3,4) by (simp split: if_splits)
  next
    case 2
    let ?pre = "\<lambda>p. takeWhile (\<lambda>c. c \<noteq> CHR ''{'') p"
    have seg: "\<exists>s. path = ?pre a @ s \<and> CHR ''/'' \<notin> set s" if "CHR ''{'' \<in> set a" "route_match a path \<noteq> None" for a
      using that by (auto simp: segment_after_Some)
    obtain s1 s2 where "path = ?pre p @ s1" "path = ?pre q @ s2" "CHR ''/'' \<notin> set s1" "CHR ''/'' \<notin> set s2"
      using seg [OF 2(1) assms(3)] seg [OF 2(2) assms(4)] by blast
    moreover have "?pre p \<noteq> []" "last (?pre p) = CHR ''/''" "?pre q \<noteq> []" "last (?pre q) = CHR ''/''"
      using router_patterns assms(1,2) 2 unfolding list_all_iff Let_def by fast+
    ultimately show ?thesis using same_prefix [of "?pre p" s1 "?pre q" s2] by simp
  qed
qed

lemma route_unique:
  assumes "r \<in> set api_router" "s \<in> set api_router" "route_match (fst r) path \<noteq> None" "route_match (fst s) path \<noteq> None"
  shows "r = s"
proof -
  obtain p m e q m' e' where "r = (p, m, e)" "s = (q, m', e')" by (metis prod_cases3)
  then show ?thesis
    using assms route_match_prefix [of p m e q m' e' path] router_distinct
    unfolding distinct_map inj_on_def by force
qed

text \<open>C40. In the router of the playground API, before the CORS layer of main (which answers OPTIONS requests itself), a path is claimed by at most one route: the route whose pattern matches it gets the request when the method is its own, with the captured segment, and the request is refused with 405 otherwise.\<close>
theorem router_unambiguous:
  assumes "axum_laws A" and "(p, m, e) \<in> set api_router" and "ax_match A p path = Some captures"
  shows "dispatch A meth path = (if ax_serves A m meth then To e captures else Method_not_allowed) \<and>
     (let pre = takeWhile (\<lambda>c. c \<noteq> CHR ''{'') p
      in if pre = p then path = p \<and> captures = []
         else \<exists>seg. path = pre @ seg \<and> captures = [seg] \<and> seg \<noteq> [] \<and> CHR ''/'' \<notin> set seg)"
proof -
  let ?hit = "\<lambda>(p, m, e). ax_match A p path \<noteq> None"
  have m: "route_match p path = Some captures" using router_match [OF assms(1,2)] assms(3) by simp
  have "?hit (p, m, e)" using assms(3) by simp
  then obtain r where r: "List.find ?hit api_router = Some r"
    using assms(2) by (metis (no_types, lifting) find_None_iff not_None_eq)
  then have in_r: "r \<in> set api_router" "?hit r" by (auto dest: find_SomeD)
  obtain q m' e' where q: "r = (q, m', e')" by (metis prod_cases3)
  have "route_match q path \<noteq> None" using in_r router_match [OF assms(1)] by (auto simp: q)
  then have "r = (p, m, e)" using route_unique [OF in_r(1) assms(2)] m by (simp add: q)
  then have "dispatch A meth path = (if ax_serves A m meth then To e captures else Method_not_allowed)"
    using r assms(3) by (simp add: dispatch_def)
  moreover have "(takeWhile (\<lambda>c. c \<noteq> CHR ''{'') p = p) = (CHR ''{'' \<notin> set p)"
    by (auto simp: takeWhile_eq_all_conv)
  ultimately show ?thesis using m by (auto simp: segment_after_Some Let_def split: if_splits)
qed

definition ref_axum :: "api_call axum" where
  "ref_axum = \<lparr>ax_match = route_match, ax_serves = (=), ax_extract = (\<lambda>e captures call. Inr call)\<rparr>"

lemma ref_axum_laws: "axum_laws ref_axum"
proof -
  have "takeWhile (\<lambda>c. c \<noteq> CHR ''{'') (pre @ CHR ''{'' # rest) = pre" if "CHR ''{'' \<notin> set pre" for pre rest :: string
    using that by (subst takeWhile_append2) auto
  then show ?thesis by (simp add: axum_laws_def ref_axum_def)
qed

theorem router_unambiguous_witness:
  "dispatch ref_axum GET ''/api/coinflip/play/u1'' = To E_play_coinflip [''u1'']"
proof -
  have "(''/api/coinflip/play/{session_id}'', GET, E_play_coinflip) \<in> set api_router" by (simp add: api_router_def)
  moreover have "ax_match ref_axum ''/api/coinflip/play/{session_id}'' ''/api/coinflip/play/u1'' = Some [''u1'']"
    by (simp add: ref_axum_def segment_after_def)
  ultimately show ?thesis using router_unambiguous [OF ref_axum_laws] by (simp add: ref_axum_def)
qed

section \<open>What a call leaves alone\<close>

text \<open>The session a call names, and the coin flip request it is.\<close>

fun session_named :: "api_call \<Rightarrow> string option" where
  "session_named (CDeployAccount r) = Some (da_session_id r)"
| "session_named (CDeployCounter r) = Some (dcq_session_id r)"
| "session_named (CInvoke i a r s n) = Some i"
| "session_named (CProve i) = Some i"
| "session_named (CProveBlock i a n) = Some i"
| "session_named (CSubmit r) = Some (spq_session_id r)"
| "session_named _ = None"

fun coin_request_of :: "api_call \<Rightarrow> coin_request option" where
  "coin_request_of CDeployCoinflip = Some Deploy"
| "coin_request_of (CCommit r) = Some (Commit r)"
| "coin_request_of (CPlay i p b n) = Some (Play i (play_query_of p b n))"
| "coin_request_of _ = None"

lemma keeps_rpc_error:
  "(\<And>m. keeps R (f1 m)) \<Longrightarrow> (\<And>m. keeps R (f2 m)) \<Longrightarrow> (\<And>m. keeps R (f3 m)) \<Longrightarrow> (\<And>h t. keeps R (f4 h t)) \<Longrightarrow>
   (\<And>m. keeps R (f5 m)) \<Longrightarrow> (\<And>b t. keeps R (f6 b t)) \<Longrightarrow> keeps R (case_rpc_error f1 f2 f3 f4 f5 f6 e)"
  by (cases e) simp_all

lemma keeps_submit_loop: "keeps R (submit_loop X H rpc tx n)"
proof (induction "Suc max_attempts - n" arbitrary: n rule: less_induct)
  case less
  have more: "keeps R (submit_loop X H rpc tx (Suc n))" if "n < max_attempts" using less that by simp
  show ?case
    unfolding submit_loop.simps [of X H rpc tx n] log_def
    by (intro keeps_if keeps_split(1-3) keeps_intros more keeps_rpc_error) auto
qed

lemma keeps_phases:
  "keeps R (construct_phase X H cfg rpc i addr b q)" "keeps R (proving_phase H cfg b t p)"
  "keeps R (signed_payload X H c p)" "keeps R (counter_after X H rpc addr)"
  unfolding construct_phase_def proving_phase_def signed_payload_def counter_after_def nonce_at_def spawn_prover_def
    find_snip36_bin_def find_in_manifest_def proof_files_def log_def phase_def Let_def
  by (intro no_access)+

lemma keeps_prove_block: "keeps (touches i [Reference]) (prove_block_route X H i q)"
  unfolding prove_block_route_def prove_block_task_def verify_phase_def log_def phase_def Let_def
  by (intro keeps_split session_keeps keeps_phases keeps_submit_loop)

lemma keeps_readers:
  "keeps (=) health" "keeps (=) (fund_account X H a)" "keeps (=) (read_counter X H a)"
  "keeps (=) (route_get_nonce X H a)" "keeps (=) coinflip_status"
  unfolding health_def fund_account_def read_counter_def route_get_nonce_def coinflip_status_def wait_next_block_def Let_def
  by (intro no_access keeps_readW refl)+

lemma keeps_reads: "keeps (=) m \<Longrightarrow> (\<And>st. R st st) \<Longrightarrow> keeps R m"
  by (erule keeps_mono) simp

text \<open>The part of the state no request changes, but for the session it names.\<close>

definition base_kept :: "string option \<Rightarrow> app_state \<Rightarrow> app_state \<Rightarrow> bool" where
  "base_kept n st st' \<longleftrightarrow> as_config st' = as_config st \<and> as_rpc st' = as_rpc st \<and>
     (\<forall>j. n \<noteq> Some j \<longrightarrow> as_sessions st' j = as_sessions st j)"

lemma base_kept_refl_trans: "reflp (base_kept n)" "transp (base_kept n)"
  by (auto simp: base_kept_def reflp_def transp_def)

lemma only_session_parts: "only_session i st st' \<longleftrightarrow> base_kept (Some i) st st' \<and> coin_kept st st'"
  by (auto simp: only_session_def base_kept_def coin_kept_def)

lemma coin_base:
  "keeps (base_kept None) (deploy_coinflip X H)" "keeps (base_kept None) (commit_bet X H r)"
  "keeps (base_kept None) (play_route X H i q)"
  by (intro keeps_deploy keeps_commit keeps_play; simp add: base_kept_def take_commitment_def)+

lemma keeps_reply: "keeps R m \<Longrightarrow> keeps R (reply f m)"
  unfolding reply_def by (intro keeps_intros)

text \<open>The fields of its session a request writes.\<close>

fun fields_written :: "api_call \<Rightarrow> session_field list" where
  "fields_written (CDeployAccount r) = [Account]"
| "fields_written (CDeployCounter r) = [Contract, Reference]"
| "fields_written (CInvoke i a r s n) = [Invocation]"
| "fields_written (CProve i) = [Proving]"
| "fields_written (CProveBlock i a n) = [Reference]"
| "fields_written _ = []"

lemma handle_fields: "session_named c = Some i \<Longrightarrow> keeps (touches i (fields_written c)) (handle X H c)"
  using keeps_invoke [of "invoke_request_of i _ _ _ _" X H]
  by (cases c) (auto simp: invoke_request_of_def
      intro!: keeps_reply keeps_deploy_account keeps_deploy_counter keeps_prove keeps_prove_block keeps_submit)

lemma handle_session: "session_named c = Some i \<Longrightarrow> keeps (only_session i) (handle X H c)"
  by (rule keeps_mono [OF handle_fields touches_only])

lemma handle_base: "keeps (base_kept (session_named c)) (handle X H c)"
proof (cases "session_named c")
  case (Some i)
  from handle_session [OF this] show ?thesis unfolding Some by (rule keeps_mono) (simp add: only_session_parts)
next
  case None
  show ?thesis using None
    by (cases c) (simp_all add: keeps_reply coin_base keeps_readers [THEN keeps_reads] base_kept_def)
qed

lemma handle_other:
  assumes "coin_request_of c = None"
  shows "keeps coin_kept (handle X H c)"
proof (cases "session_named c")
  case (Some i)
  from handle_session [OF this] show ?thesis by (rule keeps_mono) (simp add: only_session_parts)
next
  case None
  show ?thesis using None assms by (cases c) (simp_all add: keeps_reply keeps_readers [THEN keeps_reads] coin_kept_def)
qed

lemma snd_reply [simp]: "snd (reply f m w) = snd (m w)"
  by (simp add: reply_def bindW_def returnW_def split_beta split: sum.split)

lemma accesses_reply [simp]: "accesses (reply f m) w = accesses m w"
  by (simp add: accesses_def)

lemma handle_coin:
  "coin_request_of c = Some r \<Longrightarrow> snd (handle X H c w) = snd (serve X H r w) \<and> accesses (handle X H c) w = coin_accesses X H r w"
  by (cases c) (auto simp del: serve.simps(1,2))

section \<open>Runs\<close>

fun handle_all :: "('f, 'x) ext_scheme \<Rightarrow> host_sys \<Rightarrow> api_call list \<Rightarrow> app_world \<Rightarrow> app_world" where
  "handle_all X H [] w = w"
| "handle_all X H (c # cs) w = handle_all X H cs (snd (handle X H c w))"

text \<open>The calls that reach a handler, and what they have done with the commitments.\<close>

definition calls_of :: "'q axum \<Rightarrow> 'q http_request list \<Rightarrow> api_call list" where
  "calls_of A rqs = List.map_filter (\<lambda>rq. ok_opt (call_of A rq)) rqs"

fun coin_history :: "('f, 'x) ext_scheme \<Rightarrow> host_sys \<Rightarrow> api_call list \<Rightarrow> app_world \<Rightarrow> coin_record list" where
  "coin_history X H [] w = []"
| "coin_history X H (c # cs) w =
     (case coin_request_of c of None \<Rightarrow> [] | Some r \<Rightarrow> fst (serve X H r w)) @
     coin_history X H cs (snd (handle X H c w))"

lemma serve_requests_calls: "snd (serve_requests A X H rqs w) = handle_all X H (calls_of A rqs) w"
proof (induction rqs arbitrary: w)
  case (Cons rq rqs)
  then show ?case
    by (cases "call_of A rq")
      (simp_all add: serve_http_def bindW_def liftW_def calls_of_def map_filter_simps split_beta)
qed (simp add: calls_of_def map_filter_simps)

text \<open>A server that answers one request after the other.\<close>

lemma handle_all_base:
  "aw_others w = [] \<Longrightarrow>
   as_config (aw_state (handle_all X H cs w)) = as_config (aw_state w) \<and>
   as_rpc (aw_state (handle_all X H cs w)) = as_rpc (aw_state w) \<and>
   (Some i \<notin> session_named ` set cs \<longrightarrow> as_sessions (aw_state (handle_all X H cs w)) i = as_sessions (aw_state w) i)"
proof (induction cs arbitrary: w)
  case (Cons c cs)
  obtain r v where run: "handle X H c w = (r, v)" by force
  from keeps_alone [OF handle_base base_kept_refl_trans Cons.prems run] Cons.IH [of v] run show ?case by (auto simp: base_kept_def)
qed simp

lemma handle_all_ledger:
  "aw_others w = [] \<Longrightarrow>
   ledger_run X (coin_history X H cs w) (as_commitments (aw_state w)) =
     Some (as_commitments (aw_state (handle_all X H cs w))) \<and>
   (as_coinflip (aw_state w) = Some d \<longrightarrow> as_coinflip (aw_state (handle_all X H cs w)) = Some d)"
proof (induction cs arbitrary: w)
  case (Cons c cs)
  obtain a v where run: "handle X H c w = (a, v)" by force
  show ?case
  proof (cases "coin_request_of c")
    case None
    have "reflp coin_kept" "transp coin_kept" by (auto simp: reflp_def transp_def coin_kept_def)
    from keeps_alone [OF handle_other [OF None] this Cons.prems run] Cons.IH [of v] run None show ?thesis
      by (simp add: coin_kept_def)
  next
    case (Some r)
    then have "serve X H r w = (fst (serve X H r w), v)" using handle_coin [OF Some, of X H w] run by (metis prod.collapse snd_conv)
    from serve_ledger [OF this Cons.prems] Cons.IH [of v] run Some show ?thesis by (simp add: ledger_run_append)
  qed
qed simp

section \<open>The server from its start\<close>

lemma import_account_simps:
  "aw_state (import_account H config w) = aw_state w" "aw_others (import_account H config w) = aw_others w"
  "effs (import_account H config w) = effs w @
     [EExec ''sncast'' [''account'', ''import'', ''--name'', sncast_account (hs_env H), ''--address'', cfg_account_address config,
        ''--private-key'', cfg_private_key config, ''--type'', ''oz'', ''--url'', cfg_rpc_url config]]"
  by (simp_all add: import_account_def ensure_sncast_account_def ignoreW_def do_output_def step_world_def)

lemma main_Serving:
  assumes "playground_main HO bind H w0 = Serving l w"
  shows "\<exists>config. from_env HO None = Inr config \<and> aw_state w = app_state_new config \<and> aw_others w = [] \<and>
     ls_host l = H\<lparr>hs_env := load_env HO None\<rparr> \<and> w = import_account (ls_host l) config (boot_world w0 config) \<and>
     ls_addr l = ''0.0.0.0:'' @ unwrap_or (load_env HO None ''PORT'') ''8090'' \<and> bind (ls_addr l) = Inr () \<and>
     ls_routes l = api_router"
  using assms
  by (auto simp: playground_main_def Let_def import_account_simps boot_world_def split: sum.splits)

theorem playground_start_up:
  "case playground_main HO bind H w0 of
     Config_failed e \<Rightarrow> (\<exists>v. e = Missing v \<and> load_env HO None v = None)
   | Bind_failed e w \<Rightarrow> bind (''0.0.0.0:'' @ unwrap_or (load_env HO None ''PORT'') ''8090'') = Inl e
   | Serving l w \<Rightarrow>
       ls_addr l = ''0.0.0.0:'' @ unwrap_or (load_env HO None ''PORT'') ''8090'' \<and> bind (ls_addr l) = Inr () \<and>
       hs_env (ls_host l) = load_env HO None \<and>
       from_env HO None = Inr (as_config (aw_state w)) \<and> client_url (as_rpc (aw_state w)) = cfg_rpc_url (as_config (aw_state w)) \<and>
       as_sessions (aw_state w) = Map.empty \<and> as_commitments (aw_state w) = Map.empty \<and> as_coinflip (aw_state w) = None \<and>
       (\<exists>args. effs w = effs w0 @ [EExec ''sncast'' args] \<and> take 3 args = [''account'', ''import'', ''--name''] \<and>
          cfg_private_key (as_config (aw_state w)) \<in> set args)"
proof -
  have missing: "\<exists>v. e = Missing v \<and> load_env HO None v = None" if "from_env HO None = Inl e" for e
    using that by (auto simp: from_env_def Let_def result_simps)
  have client: "client_url (rpc_new u) = u" for u by (simp add: rpc_new_def)
  show ?thesis
    by (auto simp: playground_main_def Let_def import_account_simps boot_world_def app_state_new_def client
        split: sum.split dest: missing)
qed

theorem server_run_keeps_configuration:
  assumes "playground_main HO bind H w0 = Serving l w" and "serve_requests A X (ls_host l) rqs w = (answers, w')"
  shows "from_env HO None = Inr (as_config (aw_state w')) \<and>
     as_rpc (aw_state w') = rpc_new (cfg_rpc_url (as_config (aw_state w'))) \<and> length answers = length rqs \<and>
     dom (as_sessions (aw_state w')) \<subseteq> {i. Some i \<in> session_named ` set (calls_of A rqs)}"
proof -
  obtain config where c: "from_env HO None = Inr config" "aw_state w = app_state_new config" and alone: "aw_others w = []"
    using main_Serving [OF assms(1)] by blast
  have w': "w' = handle_all X (ls_host l) (calls_of A rqs) w" using serve_requests_calls [of A X "ls_host l" rqs w] assms(2) by simp
  have "length (fst (serve_requests A X H' rqs v)) = length rqs" for H' v
    by (induction rqs arbitrary: v) (simp_all add: split_beta)
  then have "length answers = length rqs" using assms(2) by (metis fst_conv)
  moreover have "dom (as_sessions (aw_state w')) \<subseteq> {i. Some i \<in> session_named ` set (calls_of A rqs)}"
  proof
    fix i assume "i \<in> dom (as_sessions (aw_state w'))"
    then have "as_sessions (aw_state w') i \<noteq> None" by (simp add: domIff)
    then show "i \<in> {i. Some i \<in> session_named ` set (calls_of A rqs)}"
      using handle_all_base [OF alone, where cs = "calls_of A rqs" and i = i and X = X and H = "ls_host l"]
      by (auto simp: w' c(2) app_state_new_def)
  qed
  ultimately show ?thesis
    using c handle_all_base [OF alone, where cs = "calls_of A rqs" and X = X and H = "ls_host l"]
    by (simp add: w' app_state_new_def)
qed

text \<open>C13. Whatever requests the playground server gets after its start, one after the other, its commitments are those of the ledger run on its history from an empty ledger: a commit enters its commitment, a play removes the one of its session whether it starts a game or is refused, no session starts more games than it has commitments, and every game started opens, with its player, bet and nonce, a commitment made in the run.\<close>
theorem server_run_implements_ledger:
  assumes "playground_main HO bind H w0 = Serving l w" and "serve_requests A X (ls_host l) rqs w = (answers, w')"
  shows "let hist = coin_history X (ls_host l) (calls_of A rqs) w
     in ledger_run X hist Map.empty = Some (as_commitments (aw_state w')) \<and>
        starts i hist \<le> commits i hist \<and> list_all (game_backed X hist) hist"
proof -
  obtain config where c: "aw_state w = app_state_new config" and alone: "aw_others w = []" using main_Serving [OF assms(1)] by blast
  have w': "w' = handle_all X (ls_host l) (calls_of A rqs) w" using serve_requests_calls [of A X "ls_host l" rqs w] assms(2) by simp
  let ?hist = "coin_history X (ls_host l) (calls_of A rqs) w"
  have run: "ledger_run X ?hist Map.empty = Some (as_commitments (aw_state w'))"
    using handle_all_ledger [OF alone, of X "ls_host l" "calls_of A rqs"] by (simp add: c w' app_state_new_def)
  have "game_backed X ?hist r" if "r \<in> set ?hist" for r
    using ledger_backed [OF run] that by (cases r) (auto simp: game_backed_def)
  then show ?thesis using run ledger_single_use [OF run, of i] by (simp add: list_all_iff Let_def)
qed

section \<open>Release builds\<close>

text \<open>
  The workspace builds releases with \<open>panic = "abort"\<close>: a panic in the stream of a game, or an
  allocation that fails, ends the server, and the requests after it are not answered. \<open>room n\<close> says
  that the process can hold the \<open>n\<close> strings of a multicall, whose number is that of the query and
  may exceed 17 thousand million; every other allocation is taken to succeed. \<open>aborts\<close> is the end of
  the process in a call, and \<open>serve_release\<close> answers until the first one; \<open>None\<close> is that end.
\<close>

fun aborts :: "(nat \<Rightarrow> bool) \<Rightarrow> ('f, 'x) ext_scheme \<Rightarrow> host_sys \<Rightarrow> api_call \<Rightarrow> app_world \<Rightarrow> bool" where
  "aborts room X H (CPlay i p b n) w =
     (case (as_coinflip (seen w), as_commitments (seen (after_read w)) i) of
        (Some d, Some c) \<Rightarrow>
          is_ok (check_reveal X (play_query_of p b n) c) \<and>
          fst (game_task X H i (cd_contract_address d) (bc_seed_block c) (play_query_of p b n)
                 (after_take i (after_read w))) = Inl None
      | _ \<Rightarrow> False)"
| "aborts room X H (CProveBlock i a n) w =
     (let session = fst (get_session i (seen w))
      in case (ses_contract_address session, or_else (ses_last_reference_block session) (ses_deploy_block session)) of
           (Some contract_address, Some reference_block) \<Rightarrow>
             \<not> room (length (multicall_strs contract_address (prove_block_query_of a n)))
         | _ \<Rightarrow> False)"
| "aborts room X H c w = False"



lemma game_panics: "fst (game_task X H i addr b q w) = Inl None \<longleftrightarrow> cut18 (pl_player q) = None"
  by (cases "cut18 (pl_player q)")
    (auto simp: game_task_def announce_game_def log_def send_def bindW_def liftW_def map_errW_def split_beta
      split: sum.split elim: map_err.elims)

lemma aborts_iff:
  "aborts room X H (CPlay i p b n) w \<longleftrightarrow>
     as_coinflip (seen w) \<noteq> None \<and> cut18 p = None \<and>
     (\<exists>c. as_commitments (seen (after_read w)) i = Some c \<and> opens X (play_query_of p b n) c)"
  by (auto simp: game_panics check_reveal_opens play_query_of_def split: option.split)

text \<open>Whoever can commit can end the server, once the game is deployed.\<close>

lemma committed_player_aborts:
  assumes "commit_bet X H \<lparr>cr_commitment = text, cr_player = p\<rparr> w = (Inr r, w')" and "aw_others w = []"
    and "as_coinflip (aw_state w) \<noteq> None" and "cut18 p = None" and "x_from_hex X nonce = Inr k"
    and "text = x_to_hex X (x_pedersen_hash X (x_from_u64 X 0) k)"
  shows "aborts room X H (CPlay (cmr_session_id r) p None (Some nonce)) w'"
proof -
  from commit_served [where X = X and H = H and req = "\<lparr>cr_commitment = text, cr_player = p\<rparr>" and w = w] assms(1)
  have "aw_state w' = (aw_state w)\<lparr>as_commitments := (as_commitments (aw_state w))(cmr_session_id r \<mapsto>
      \<lparr>bc_commitment = text, bc_seed_block = cmr_seed_block r, bc_player = p\<rparr>)\<rparr>" "aw_others w' = []"
    using assms(2) by (simp_all add: shared_parts)
  then show ?thesis using assms(3-6) by (simp add: aborts_iff opens_def play_query_of_def del: aborts.simps)
qed








section \<open>A session id is a path\<close>

text \<open>
  The id of a session is chosen by the client and joined to the output directory: one that starts
  with a slash replaces it.
\<close>

lemma absolute_session_escapes:
  assumes "construct_phase X H cfg rpc (CHR ''/'' # i) addr b q w = (Inr (c, tx_path, proof_path), w')"
  shows "tx_path = CHR ''/'' # i @ ''_tx.json'' \<and> proof_path = CHR ''/'' # i @ ''.proof''"
  using assms
  by (auto simp: construct_phase_def result_simps path_join_def Let_def split: prod.splits)

section \<open>A sample server\<close>

definition sample_env :: environment where
  "sample_env = [''STARKNET_RPC_URL'' \<mapsto> ''http://node'', ''STARKNET_ACCOUNT_ADDRESS'' \<mapsto> ''0x1'', ''STARKNET_PRIVATE_KEY'' \<mapsto> ''0x2'']"

definition sample_host :: host where
  "sample_host = \<lparr>h_env = sample_env, h_exists = (\<lambda>p. True), h_current_dir = Some ''/srv'',
     h_dotenv_from_path = (\<lambda>p e. e), h_dotenv = (\<lambda>e. e)\<rparr>"

definition start_world :: world where
  "start_world = \<lparr>clk = 0, tick = 0, effs = []\<rparr>"

lemma sample_main: "\<exists>l w. playground_main sample_host (\<lambda>a. Inr ()) ref_host start_world = Serving l w"
  by (simp add: playground_main_def from_env_def load_env_def sample_host_def sample_env_def Let_def)

definition get_request :: "string \<Rightarrow> api_call \<Rightarrow> api_call http_request" where
  "get_request path c = \<lparr>rq_method = GET, rq_path = path, rq_rest = c\<rparr>"

definition post_request :: "string \<Rightarrow> api_call \<Rightarrow> api_call http_request" where
  "post_request path c = \<lparr>rq_method = POST, rq_path = path, rq_rest = c\<rparr>"

definition sample_http :: "api_call http_request list" where
  "sample_http =
     [get_request ''/api/health'' CHealth, post_request ''/api/health'' CHealth,
      post_request ''/api/coinflip/commit'' (CCommit sample_commit),
      get_request ''/api/prove/s1'' (CProve ''s1''), get_request ''/api/unknown'' CHealth]"

lemma sample_http_calls: "calls_of ref_axum sample_http = [CHealth, CCommit sample_commit, CProve ''s1'']"
  by (simp add: calls_of_def sample_http_def get_request_def post_request_def map_filter_simps call_of_def
      dispatch_def ref_axum_def api_router_def segment_after_def)

theorem server_run_keeps_configuration_witness:
  "\<exists>l w answers w'. playground_main sample_host (\<lambda>a. Inr ()) ref_host start_world = Serving l w \<and>
     serve_requests ref_axum ref_ext (ls_host l) sample_http w = (answers, w') \<and> length answers = 5 \<and>
     dom (as_sessions (aw_state w')) \<subseteq> {''s1''}"
proof -
  obtain l w where m: "playground_main sample_host (\<lambda>a. Inr ()) ref_host start_world = Serving l w"
    using sample_main by blast
  obtain answers w' where r: "serve_requests ref_axum ref_ext (ls_host l) sample_http w = (answers, w')" by force
  have "length sample_http = 5" by (simp add: sample_http_def)
  moreover have "{i. Some i \<in> session_named ` set (calls_of ref_axum sample_http)} = {''s1''}"
    unfolding sample_http_calls by auto
  ultimately show ?thesis using server_run_keeps_configuration [OF m r] m r by (metis (no_types, lifting))
qed

theorem server_run_implements_ledger_witness:
  "\<exists>l w hist led. playground_main sample_host (\<lambda>a. Inr ()) ref_host start_world = Serving l w \<and>
     coin_history ref_ext (ls_host l) (calls_of ref_axum sample_http) w = hist \<and>
     ledger_run ref_ext hist Map.empty = Some led \<and> starts ''u1'' hist \<le> commits ''u1'' hist"
proof -
  obtain l w where m: "playground_main sample_host (\<lambda>a. Inr ()) ref_host start_world = Serving l w"
    using sample_main by blast
  obtain answers w' where r: "serve_requests ref_axum ref_ext (ls_host l) sample_http w = (answers, w')" by force
  from server_run_implements_ledger [OF m r, of "''u1''"] show ?thesis using m unfolding Let_def by blast
qed

end
