(* ===== verification/Server_Overlap.thy ===== *)
theory Server_Overlap
  imports Server_App
begin

text \<open>
  Requests of the playground server that overlap. Tokio runs the handlers of
  \<open>crates/snip36-server/src/routes\<close> at the same time; they share \<open>AppState\<close> and touch it only in
  atomic accesses (theory \<open>Server_State\<close>). A schedule is a sequence of accesses, each of one request:
  it starts in a state, each access finds the state the one before left, and the accesses of one
  request, in order, are those its handler makes. Every schedule implements the ledger of
  commitments, keeps a deployed game, and changes only the sessions its requests name.
\<close>

section \<open>Schedules\<close>

type_synonym schedule = "(nat \<times> access) list"

fun coherent :: "app_state \<Rightarrow> schedule \<Rightarrow> app_state \<Rightarrow> bool" where
  "coherent st [] st' \<longleftrightarrow> st' = st"
| "coherent st ((j, (p, q)) # sch) st' \<longleftrightarrow> p = st \<and> coherent q sch st'"

definition own :: "nat \<Rightarrow> schedule \<Rightarrow> access list" where
  "own j sch = map snd (filter (\<lambda>e. fst e = j) sch)"

lemma own_simps [simp]: "own j [] = []" "own j ((k, a) # sch) = (if k = j then a # own j sch else own j sch)"
  by (simp_all add: own_def)

lemma own_Nil: "own j sch = [] \<longleftrightarrow> j \<notin> fst ` set sch"
  by (auto simp: own_def filter_empty_conv)

text \<open>A request in flight: its call, the host as it sees it and its world, in which the others are those of the schedule.\<close>

record in_flight =
  fl_host :: host_sys
  fl_call :: api_call
  fl_world :: app_world

definition flight_accesses :: "('f, 'x) ext_scheme \<Rightarrow> in_flight \<Rightarrow> access list" where
  "flight_accesses X f = accesses (handle X (fl_host f) (fl_call f)) (fl_world f)"

definition overlap :: "('f, 'x) ext_scheme \<Rightarrow> in_flight list \<Rightarrow> app_state \<Rightarrow> schedule \<Rightarrow> app_state \<Rightarrow> bool" where
  "overlap X fs st sch st' \<longleftrightarrow>
     coherent st sch st' \<and> list_all (\<lambda>f. aw_state (fl_world f) = st) fs \<and>
     list_all (\<lambda>e. fst e < length fs) sch \<and>
     list_all (\<lambda>j. own j sch = flight_accesses X (fs ! j)) [0..<length fs]"

text \<open>The records of the requests, each at the last access of its request.\<close>

definition flight_records :: "('f, 'x) ext_scheme \<Rightarrow> in_flight \<Rightarrow> coin_record list" where
  "flight_records X f =
     (case coin_request_of (fl_call f) of None \<Rightarrow> [] | Some r \<Rightarrow> fst (serve X (fl_host f) r (fl_world f)))"

fun history :: "(nat \<Rightarrow> coin_record list) \<Rightarrow> schedule \<Rightarrow> coin_record list" where
  "history recs [] = []"
| "history recs ((j, a) # sch) = (if j \<in> fst ` set sch then [] else recs j) @ history recs sch"

definition coin_history_of :: "('f, 'x) ext_scheme \<Rightarrow> in_flight list \<Rightarrow> schedule \<Rightarrow> coin_record list" where
  "coin_history_of X fs sch = history (\<lambda>j. flight_records X (fs ! j)) sch"

section \<open>From the accesses to the whole\<close>

lemma history_ledger:
  "coherent st sch st' \<Longrightarrow> (\<And>j. ledger_fits X (recs j) (own j sch)) \<Longrightarrow>
     ledger_run X (history recs sch) (as_commitments st) = Some (as_commitments st')"
proof (induction sch arbitrary: st)
  case (Cons e sch)
  obtain j p q where e: "e = (j, (p, q))" by (metis prod.collapse)
  have rest: "coherent q sch st'" "p = st" using Cons.prems(1) by (simp_all add: e)
  have fits: "ledger_fits X (recs j) ((p, q) # own j sch)" using Cons.prems(2) [of j] by (simp add: e)
  have others: "ledger_fits X (recs k) (own k sch)" if "k \<noteq> j" for k using Cons.prems(2) [of k] that by (simp add: e)
  show ?case
  proof (cases "own j sch")
    case Nil
    then have "ledger_fits X (recs k) (own k sch)" for k using others by (cases "k = j") simp_all
    from Cons.IH [OF rest(1) this] fits Nil rest(2) show ?thesis by (simp add: e own_Nil ledger_run_append)
  next
    case (Cons a es)
    then have "ledger_fits X (recs k) (own k sch)" for k using others fits by (cases "k = j") simp_all
    from Cons.IH [OF rest(1) this] fits Cons rest(2) own_Nil [of j sch] show ?thesis by (simp add: e)
  qed
qed simp

lemma history_complete: "own j sch \<noteq> [] \<Longrightarrow> set (recs j) \<subseteq> set (history recs sch)"
proof (induction sch)
  case (Cons e sch)
  obtain k a where e: "e = (k, a)" by (metis prod.collapse)
  show ?case
  proof (cases "own j sch = []")
    case True
    then show ?thesis using Cons.prems by (auto simp: e own_Nil split: if_splits)
  next
    case False
    then show ?thesis using Cons.IH by (auto simp: e)
  qed
qed simp

lemma deployment_stays:
  "coherent st sch st' \<Longrightarrow> as_coinflip st \<noteq> None \<Longrightarrow> (\<And>j. deployment_firm (own j sch)) \<Longrightarrow>
     as_coinflip st' = as_coinflip st"
proof (induction sch arbitrary: st)
  case (Cons e sch)
  obtain j p q where e: "e = (j, (p, q))" by (metis prod.collapse)
  have rest: "coherent q sch st'" "p = st" using Cons.prems(1) by (simp_all add: e)
  have "deployment_firm ((p, q) # own j sch)" using Cons.prems(3) [of j] by (simp add: e)
  then have kept: "list_all (\<lambda>(a, b). as_coinflip b = as_coinflip a) ((p, q) # own j sch)"
    using Cons.prems(2) rest(2) by (auto simp: deployment_firm_def)
  have "deployment_firm (own k sch)" for k
  proof (cases "k = j")
    case True
    then show ?thesis using kept by (cases "own j sch") (auto simp: deployment_firm_def)
  next
    case False
    then show ?thesis using Cons.prems(3) [of k] by (simp add: e)
  qed
  from Cons.IH [OF rest(1) _ this] kept Cons.prems(2) rest(2) show ?case by simp
qed simp

lemma coherent_keeps:
  assumes "reflp R" "transp R"
  shows "coherent st sch st' \<Longrightarrow> list_all (\<lambda>e. R (fst (snd e)) (snd (snd e))) sch \<Longrightarrow> R st st'"
  using assms by (induction st sch st' rule: coherent.induct) (auto simp: reflp_def dest: transpD)

section \<open>The requests of a schedule\<close>

lemma flight_fits: "coin_fits X (flight_records X f) (flight_accesses X f)"
proof (cases "coin_request_of (fl_call f)")
  case None
  have "within coin_kept (handle X (fl_host f) (fl_call f)) (fl_world f)"
    using handle_other [OF None, of X "fl_host f"] by (simp add: keeps_def)
  then have "list_all (\<lambda>(st, st'). coin_kept st st') (flight_accesses X f)"
    by (simp add: within_def flight_accesses_def)
  then show ?thesis using coin_fits_kept None by (simp add: flight_records_def)
next
  case (Some r)
  then show ?thesis using serve_fits [of X "fl_host f" r "fl_world f"] handle_coin [OF Some, of X "fl_host f" "fl_world f"]
    by (simp add: flight_records_def flight_accesses_def)
qed

lemma overlap_own:
  assumes "overlap X fs st sch st'"
  shows "j < length fs \<Longrightarrow> own j sch = flight_accesses X (fs ! j)" and "\<not> j < length fs \<Longrightarrow> own j sch = []"
  using assms by (auto simp: overlap_def list_all_iff own_Nil)

lemma overlap_fits:
  assumes "overlap X fs st sch st'"
  shows "ledger_fits X (flight_records X (fs ! j)) (own j sch) \<and> deployment_firm (own j sch)"
  using overlap_own [OF assms, of j] flight_fits [of X "fs ! j"]
  by (cases "j < length fs") (auto simp: coin_fits_def deployment_firm_def)

text \<open>Every game started opens a commitment of the schedule or one that was there before.\<close>

definition game_opens :: "('f, 'x) ext_scheme \<Rightarrow> coin_record list \<Rightarrow> app_state \<Rightarrow> coin_record \<Rightarrow> bool" where
  "game_opens X hist st r =
     (case r of
        Started i q c \<Rightarrow> opens X q c \<and> (Committed i c \<in> set hist \<or> as_commitments st i = Some c)
      | _ \<Rightarrow> True)"

text \<open>C14. However the requests of the playground overlap, their accesses to the shared state implement the ledger of commitments: the history of what each request did, taken at its last access, is complete and is a run of the ledger from the commitments before to those after; no session starts more games than it has commitments, every game started opens a commitment, and a game that is deployed stays deployed.\<close>
theorem interleavings_implement_ledger:
  assumes "overlap X fs st sch st'"
  shows "let hist = coin_history_of X fs sch
     in ledger_run X hist (as_commitments st) = Some (as_commitments st') \<and>
        list_all (\<lambda>f. set (flight_records X f) \<subseteq> set hist) fs \<and>
        starts i hist \<le> commits i hist + (if as_commitments st i = None then 0 else 1) \<and>
        list_all (game_opens X hist st) hist \<and>
        (if as_coinflip st = None then True else as_coinflip st' = as_coinflip st)"
proof -
  let ?hist = "coin_history_of X fs sch"
  have coherent: "coherent st sch st'" using assms by (simp add: overlap_def)
  have run: "ledger_run X ?hist (as_commitments st) = Some (as_commitments st')"
    unfolding coin_history_of_def using overlap_fits [OF assms] by (intro history_ledger [OF coherent]) blast
  have all: "list_all (\<lambda>f. set (flight_records X f) \<subseteq> set ?hist) fs"
    unfolding list_all_length
  proof (intro allI impI)
    fix j assume j: "j < length fs"
    show "set (flight_records X (fs ! j)) \<subseteq> set ?hist"
      using history_complete [of j sch "\<lambda>j. flight_records X (fs ! j)"] flight_fits [of X "fs ! j"] overlap_own(1) [OF assms j]
      by (auto simp: coin_fits_def coin_history_of_def)
  qed
  have "list_all (game_opens X ?hist st) ?hist"
    using ledger_backed [OF run] by (auto simp: list_all_iff game_opens_def split: coin_record.split)
  moreover have "as_coinflip st' = as_coinflip st" if "as_coinflip st \<noteq> None"
    using deployment_stays [OF coherent that] overlap_fits [OF assms] by blast
  ultimately show ?thesis using run all ledger_single_use [OF run, of i] by (simp add: Let_def)
qed

section \<open>Sessions\<close>

text \<open>An access of a schedule keeps what the handler of its request keeps.\<close>

lemma overlap_access:
  assumes "overlap X fs st sch st'" and "e \<in> set sch" and "keeps R (handle X (fl_host (fs ! fst e)) (fl_call (fs ! fst e)))"
  shows "R (fst (snd e)) (snd (snd e))"
proof -
  have j: "fst e < length fs" using assms(1,2) by (auto simp: overlap_def list_all_iff)
  have "snd e \<in> set (own (fst e) sch)" using assms(2) by (force simp: own_def)
  then have "snd e \<in> set (flight_accesses X (fs ! fst e))" using overlap_own(1) [OF assms(1) j] by simp
  moreover have "list_all (\<lambda>(st, st'). R st st') (flight_accesses X (fs ! fst e))"
    using assms(3) by (simp add: keeps_def within_def flight_accesses_def)
  ultimately show ?thesis by (auto simp: list_all_iff split_beta)
qed

lemma coherent_append: "coherent st (sch @ sch') st' \<Longrightarrow> coherent st sch q \<Longrightarrow> coherent q sch' st'"
  by (induction st sch q rule: coherent.induct) auto

definition writes_field :: "string \<Rightarrow> session_field \<Rightarrow> api_call \<Rightarrow> bool" where
  "writes_field i fd c \<longleftrightarrow> session_named c = Some i \<and> fd \<in> set (fields_written c)"

lemma keeps_field:
  assumes "\<not> writes_field i fd c"
  shows "keeps (\<lambda>st st'. same_field fd (session_at i st) (session_at i st')) (handle X H c)"
proof -
  have other: "same_field fd (session_at i st) (session_at i st')" if "as_sessions st' i = as_sessions st i" for st st'
    using that by (simp add: session_at_def get_session_def same_field_refl Let_def)
  show ?thesis
  proof (cases "session_named c = Some i")
    case True
    from handle_fields [OF this, of X H] show ?thesis
      by (rule keeps_mono) (use assms True in \<open>auto simp: writes_field_def dest: touches_field\<close>)
  next
    case False
    from handle_base [of c X H] show ?thesis
      by (rule keeps_mono) (use False in \<open>auto simp: base_kept_def intro: other\<close>)
  qed
qed

text \<open>C23. No update of a session is lost while requests overlap: from any point of a schedule to its end, the fields of a session that no later access of a request writing them touches hold what they held, and the configuration and the RPC client stay.\<close>
theorem updates_are_not_lost:
  assumes "overlap X fs st (sch @ later) st'" and "coherent st sch q"
    and "list_all (\<lambda>e. \<not> writes_field i fd (fl_call (fs ! fst e))) later"
  shows "same_field fd (session_at i q) (session_at i st') \<and> as_config st' = as_config q \<and> as_rpc st' = as_rpc q"
proof -
  define R :: "app_state \<Rightarrow> app_state \<Rightarrow> bool" where
    "R = (\<lambda>st st'. same_field fd (session_at i st) (session_at i st') \<and> as_config st' = as_config st \<and> as_rpc st' = as_rpc st)"
  have R: "reflp R" "transp R"
    by (auto simp: R_def reflp_def transp_def same_field_refl dest: same_field_trans)
  have "R (fst (snd e)) (snd (snd e))" if "e \<in> set later" for e
  proof -
    have e: "e \<in> set (sch @ later)" using that by simp
    have "\<not> writes_field i fd (fl_call (fs ! fst e))" using assms(3) that by (simp add: list_all_iff)
    from overlap_access [OF assms(1) e keeps_field [OF this]] overlap_access [OF assms(1) e handle_base]
    show ?thesis by (simp add: R_def base_kept_def)
  qed
  moreover have "coherent q later st'" using assms(1,2) coherent_append by (auto simp: overlap_def)
  ultimately have "R q st'" using coherent_keeps [OF R] by (simp add: list_all_iff)
  then show ?thesis by (simp add: R_def)
qed

section \<open>Two first deployments\<close>

text \<open>A deployment that finds none and succeeds has read the state and then written it.\<close>

lemma deploy_writes:
  assumes "deploy_coinflip X H w = (Inr d, v)" and "as_coinflip (seen w) = None"
  shows "accesses (deploy_coinflip X H) w =
    [(seen w, seen w), (seen (after_read w), (seen (after_read w))\<lparr>as_coinflip := Some d\<rparr>)]"
proof -
  have awaited: "shared u = shared w" if "(await_declared X H rpc t :: (api_error, unit) handler) w = (r, u)" for rpc t w r u
  proof (rule untouched_shared)
    show "untouched (await_declared X H rpc t :: (api_error, unit) handler)" unfolding await_declared_def by (intro no_access)
  qed (rule that)
  have "shared v = shared (after_access (\<lambda>st. st\<lparr>as_coinflip := Some d\<rparr>) (after_read w))"
    using assms
    by (auto simp: deploy_coinflip_def declare_contract_def deploy_class_def handler_simps readW_def throwW_def do_output_def
        do_random_hex_def Let_def split: if_splits dest!: awaited wait_shared) (simp add: shared_parts seen_def)
  then show ?thesis by (simp add: accesses_def assms(1) shared_parts)
qed

text \<open>
  When both of two deployments at once find none, the second write replaces the first: the server
  plays on \<open>d2\<close>, and \<open>d1\<close> was returned to a client as the deployed game.
\<close>

lemma deployment_race:
  assumes "deploy_coinflip X H1 w1 = (Inr d1, v1)" and "deploy_coinflip X H2 w2 = (Inr d2, v2)"
    and "aw_state w1 = st" and "aw_state w2 = st" and "as_coinflip st = None"
    and "aw_others w1 = []" and "aw_others w2 = [\<lambda>st. st, \<lambda>st. st\<lparr>as_coinflip := Some d1\<rparr>]"
  shows "\<exists>sch. overlap X [\<lparr>fl_host = H1, fl_call = CDeployCoinflip, fl_world = w1\<rparr>,
                       \<lparr>fl_host = H2, fl_call = CDeployCoinflip, fl_world = w2\<rparr>] st sch (st\<lparr>as_coinflip := Some d2\<rparr>)"
proof -
  have 1: "accesses (deploy_coinflip X H1) w1 = [(st, st), (st, st\<lparr>as_coinflip := Some d1\<rparr>)]"
    using deploy_writes [OF assms(1)] assms(3,5,6) by simp
  have 2: "accesses (deploy_coinflip X H2) w2 = [(st, st), (st\<lparr>as_coinflip := Some d1\<rparr>, st\<lparr>as_coinflip := Some d2\<rparr>)]"
    using deploy_writes [OF assms(2)] assms(4,5,7) by (simp add: seen_def found_def)
  have "overlap X [\<lparr>fl_host = H1, fl_call = CDeployCoinflip, fl_world = w1\<rparr>, \<lparr>fl_host = H2, fl_call = CDeployCoinflip, fl_world = w2\<rparr>] st
      [(0, (st, st)), (1, (st, st)), (0, (st, st\<lparr>as_coinflip := Some d1\<rparr>)), (1, (st\<lparr>as_coinflip := Some d1\<rparr>, st\<lparr>as_coinflip := Some d2\<rparr>))]
      (st\<lparr>as_coinflip := Some d2\<rparr>)"
    by (simp add: overlap_def flight_accesses_def 1 2 assms(3,4) upt_rec)
  then show ?thesis by blast
qed

section \<open>A reveal that starts before its commitment\<close>

text \<open>The play of \<open>u1\<close> reads the deployment, then the commitment of \<open>u1\<close> comes in, then the play takes it.\<close>

abbreviation sample_start :: app_state where
  "sample_start \<equiv> aw_state coin_world"

definition sample_flights :: "in_flight list" where
  "sample_flights =
     [\<lparr>fl_host = ref_host, fl_call = CPlay ''u1'' ''0x1'' (Some 5) (Some ''0x7''),
       fl_world = coin_world\<lparr>aw_others :=
         [\<lambda>st. st, \<lambda>st. st\<lparr>as_commitments := (as_commitments st)(''u1'' \<mapsto> sample_commitment)\<rparr>]\<rparr>\<rparr>,
      \<lparr>fl_host = ref_host, fl_call = CCommit sample_commit, fl_world = coin_world\<rparr>]"

definition sample_committed_state :: app_state where
  "sample_committed_state = sample_start\<lparr>as_commitments := (as_commitments sample_start)(''u1'' \<mapsto> sample_commitment)\<rparr>"

definition sample_schedule :: schedule where
  "sample_schedule =
     [(0, (sample_start, sample_start)), (1, (sample_start, sample_committed_state)),
      (0, (sample_committed_state, snd (take_commitment ''u1'' sample_committed_state)))]"

lemma sample_commit_records:
  "fst (serve ref_ext ref_host (Commit sample_commit) coin_world) = [Committed ''u1'' sample_commitment] \<and>
   accesses (commit_bet ref_ext ref_host sample_commit) coin_world = [(sample_start, sample_committed_state)]"
proof -
  obtain w1 where w1: "serve ref_ext ref_host (Commit sample_commit) coin_world = ([Committed ''u1'' sample_commitment], w1)"
    using sample_committed by blast
  have alone: "seen coin_world = sample_start" by (simp add: coin_world_def sample_world_simps)
  show ?thesis
    using w1 commit_served [where X = ref_ext and H = ref_host and req = sample_commit and w = coin_world]
    by (auto simp: accesses_def shared_parts sample_committed_state_def alone split: prod.splits sum.splits)
qed

lemma sample_play_records:
  "let w = fl_world (sample_flights ! 0)
   in fst (serve ref_ext ref_host (Play ''u1'' sample_play) w) = [Started ''u1'' sample_play sample_commitment] \<and>
      accesses (play_route ref_ext ref_host ''u1'' sample_play) w =
        [(sample_start, sample_start), (sample_committed_state, snd (take_commitment ''u1'' sample_committed_state))]"
proof -
  define w where "w = fl_world (sample_flights ! 0)"
  have 1: "seen w = sample_start" "as_coinflip sample_start \<noteq> None"
    by (simp_all add: w_def sample_flights_def seen_def found_def coin_world_def)
  have 2: "seen (after_read w) = sample_committed_state"
    by (simp add: w_def sample_flights_def seen_def found_def sample_committed_state_def)
  then have c: "as_commitments (seen (after_read w)) ''u1'' = Some sample_commitment" by (simp add: sample_committed_state_def)
  have acc: "accesses (play_route ref_ext ref_host ''u1'' sample_play) w =
        [(sample_start, sample_start), (sample_committed_state, snd (take_commitment ''u1'' sample_committed_state))]"
    using 1 2 by (simp add: play_accesses)
  have "opens ref_ext sample_play sample_commitment" using sample_reveal by (simp add: check_reveal_opens [symmetric] is_ok_iff)
  with play_served [OF _ c, of ref_ext ref_host sample_play] 1
  have "is_ok (fst (play_route ref_ext ref_host ''u1'' sample_play w))" by simp
  then show ?thesis unfolding w_def [symmetric] Let_def
    using acc c 2 by (auto split: prod.split)
qed

lemma sample_overlap: "overlap ref_ext sample_flights sample_start sample_schedule (snd (take_commitment ''u1'' sample_committed_state))"
proof -
  have q: "play_query_of ''0x1'' (Some 5) (Some ''0x7'') = sample_play"
    by (simp add: play_query_of_def sample_play_def)
  show ?thesis
    using sample_play_records sample_commit_records
    by (simp add: overlap_def flight_accesses_def sample_schedule_def sample_flights_def upt_rec q Let_def)
qed

theorem interleavings_implement_ledger_witness:
  "overlap ref_ext sample_flights sample_start sample_schedule (snd (take_commitment ''u1'' sample_committed_state)) \<and>
   (let hist = coin_history_of ref_ext sample_flights sample_schedule
    in hist = [Committed ''u1'' sample_commitment, Started ''u1'' sample_play sample_commitment] \<and>
       starts ''u1'' hist \<le> commits ''u1'' hist \<and> list_all (game_opens ref_ext hist sample_start) hist)"
proof -
  have q: "play_query_of ''0x1'' (Some 5) (Some ''0x7'') = sample_play"
    by (simp add: play_query_of_def sample_play_def)
  have "coin_history_of ref_ext sample_flights sample_schedule =
      [Committed ''u1'' sample_commitment, Started ''u1'' sample_play sample_commitment]"
    using sample_play_records sample_commit_records
    by (simp add: coin_history_of_def sample_schedule_def flight_records_def sample_flights_def q Let_def del: serve.simps)
  moreover have "as_commitments sample_start ''u1'' = None"
    by (simp add: coin_world_def sample_world_def sample_state_def app_state_new_def)
  ultimately show ?thesis
    using interleavings_implement_ledger [OF sample_overlap, of "''u1''"] sample_overlap by (simp add: Let_def)
qed

section \<open>An invocation and a deployment of one session\<close>

text \<open>The session is read by an invocation, then its account is deployed, then the invocation records its hash and block.\<close>

definition sample_deploy :: deploy_account_request where
  "sample_deploy = \<lparr>da_session_id = ''s1'', da_public_key = ''0x5'', da_account_address = ''0x6''\<rparr>"

definition with_account :: "app_state \<Rightarrow> app_state" where
  "with_account = update_session_with ''s1'' (\<lambda>s. s\<lparr>ses_account_address := Some ''transaction_hash: 0xab'', ses_account_deployed := True\<rparr>)"

definition with_tx :: "app_state \<Rightarrow> app_state" where
  "with_tx = update_session_with ''s1'' (\<lambda>s. s\<lparr>ses_last_invoke_tx := Some ''0xab''\<rparr>)"

definition with_block :: "app_state \<Rightarrow> app_state" where
  "with_block = update_session_with ''s1'' (\<lambda>s. s\<lparr>ses_invoke_block := Some 7\<rparr>)"

definition session_flights :: "in_flight list" where
  "session_flights =
     [\<lparr>fl_host = ref_host, fl_call = CInvoke ''s1'' (Some 2) ''0x1'' ''0x2'' 3, fl_world = sample_world\<lparr>aw_others := [\<lambda>st. st, with_account]\<rparr>\<rparr>,
      \<lparr>fl_host = ref_host, fl_call = CDeployAccount sample_deploy, fl_world = sample_world\<rparr>]"

definition session_schedule :: schedule where
  "session_schedule =
     [(0, (sample_state, sample_state)), (1, (sample_state, with_account sample_state)),
      (0, (with_account sample_state, with_tx (with_account sample_state))),
      (0, (with_tx (with_account sample_state), with_block (with_tx (with_account sample_state))))]"

lemma sample_invoke_accesses:
  "accesses (invoke_increment ref_ext ref_host sample_invoke) (sample_world\<lparr>aw_others := [\<lambda>st. st, with_account]\<rparr>) =
     [(sample_state, sample_state), (with_account sample_state, with_tx (with_account sample_state)),
      (with_tx (with_account sample_state), with_block (with_tx (with_account sample_state)))]"
  by (simp add: accesses_def invoke_increment_def await_inclusion_def sample_invoke_def sample_world_simps stateW_def askW_def liftW_def bindW_def call_raw_def
      map_errW_def ref_host_http ref_node_def rpc_payload_def submitted_hash_def modifyW_def tryW_def wait_ref_host returnW_def Let_def
      jget_str_def receipt_block_number_def ref_receipt_def seen_def found_def with_tx_def with_block_def)

lemma sample_deploy_accesses:
  "accesses (deploy_account ref_ext ref_host sample_deploy) sample_world = [(sample_state, with_account sample_state)]"
proof -
  define po where "po = \<lparr>pr_success = True, pr_status = ''0'', pr_stdout = ''transaction_hash: 0xab'', pr_stderr = []\<rparr>"
  have out: "(do_output ref_host prog args cwd :: (string, process_output) handler) w = (Inr po, step_world [EExec prog args] w)"
    for prog args cwd w by (simp add: do_output_def ref_host_def po_def)
  have "\<exists>rest. str_lines (combined_output po) = ''transaction_hash: 0xab'' # rest"
    by (simp add: str_lines_def combined_output_def po_def newline_def)
  then have parsed: "parse_hex ref_host key (combined_output po) = Some ''transaction_hash: 0xab''" for key
    by (auto simp: parse_hex_def ref_host_def Let_def)
  have ok: "pr_success po" by (simp add: po_def)
  have block: "shared (snd (wait_for_block_after ref_host ref_ext rpc b t p w)) = shared w" for rpc b t p and w :: app_world
    by (simp add: wait_for_block_after_def shared_wait_block)
  show ?thesis
    using block [unfolded shared_parts]
    by (simp add: accesses_def deploy_account_def bindW_def askW_def map_errW_def out ok liftW_def parsed
        wait_ref_host wait_next_block_def ignoreW_def modifyW_def returnW_def receipt_block_number_def ref_receipt_def seen_def found_def
        step_world_def sample_world_simps sample_deploy_def with_account_def Let_def split: option.split)
qed

lemma session_overlap:
  "overlap ref_ext session_flights sample_state session_schedule (with_block (with_tx (with_account sample_state)))"
proof -
  have q: "invoke_request_of ''s1'' (Some 2) ''0x1'' ''0x2'' 3 = sample_invoke"
    by (simp add: invoke_request_of_def sample_invoke_def)
  show ?thesis
    by (simp add: overlap_def flight_accesses_def session_schedule_def session_flights_def upt_rec q sample_world_simps
        sample_invoke_accesses sample_deploy_accesses)
qed

theorem updates_are_not_lost_witness:
  "let q = with_account sample_state; st' = with_block (with_tx q)
   in overlap ref_ext session_flights sample_state (take 2 session_schedule @ drop 2 session_schedule) st' \<and>
      coherent sample_state (take 2 session_schedule) q \<and>
      same_field Account (session_at ''s1'' q) (session_at ''s1'' st') \<and>
      ses_account_deployed (session_at ''s1'' st') \<and> ses_last_invoke_tx (session_at ''s1'' st') = Some ''0xab''"
proof -
  let ?q = "with_account sample_state" and ?st = "with_block (with_tx (with_account sample_state))"
  have 1: "overlap ref_ext session_flights sample_state (take 2 session_schedule @ drop 2 session_schedule) ?st"
    using session_overlap by simp
  have 2: "coherent sample_state (take 2 session_schedule) ?q" by (simp add: session_schedule_def)
  have 3: "list_all (\<lambda>e. \<not> writes_field ''s1'' Account (fl_call (session_flights ! fst e))) (drop 2 session_schedule)"
    by (simp add: session_schedule_def session_flights_def writes_field_def)
  have "ses_account_deployed (session_at ''s1'' ?st) \<and> ses_last_invoke_tx (session_at ''s1'' ?st) = Some ''0xab''"
    by (simp add: with_account_def with_tx_def with_block_def)
  with updates_are_not_lost [OF 1 2 3] 1 2 show ?thesis by (simp only: Let_def)
qed

end
