(* ===== verification/Artifact_Export.thy ===== *)
theory Artifact_Export
  imports Rpc_Client Proof_Codec Pure_Builder Snos_Prover
begin

text \<open>
  Exporting an artifact and proving it into a bundle, \<open>crates/snip36-artifact/src/lib.rs\<close> and
  \<open>local_prover.rs\<close>. Programs, the file system and the HTTP client are the record \<open>tool_sys\<close>; an
  error report is the text it displays. The exporters of bundles share the locale
  \<open>bundle_exporter\<close>, interpreted on the response of a prover and on a recorded payload.
\<close>

section \<open>Programs and HTTP\<close>

record raw_output =
  ro_success :: bool
  ro_stdout :: string
  ro_stderr :: string

record tool_sys = sys +
  ts_host :: host
  ts_exists :: "nat \<Rightarrow> string \<Rightarrow> bool"
  ts_piped :: "nat \<Rightarrow> string \<Rightarrow> string list \<Rightarrow> string \<Rightarrow> string + (string + raw_output)"
  ts_spawn :: "nat \<Rightarrow> string \<Rightarrow> string list \<Rightarrow> string + unit"
  ts_get_ok :: "nat \<Rightarrow> string \<Rightarrow> bool"
  ts_try_wait :: "nat \<Rightarrow> string + string option"
  ts_post :: "nat \<Rightarrow> string \<Rightarrow> json \<Rightarrow> string + (string + json)"

type_synonym ('e, 'a, 'z) tool = "'z world_scheme \<Rightarrow> ('e + 'a) \<times> 'z world_scheme"

definition tick_world :: "effect list \<Rightarrow> 'z world_scheme \<Rightarrow> 'z world_scheme" where
  "tick_world es w = w\<lparr>tick := Suc (tick w), effs := effs w @ es\<rparr>"

definition file_exists :: "tool_sys \<Rightarrow> string \<Rightarrow> ('e, bool, 'z) tool" where
  "file_exists T path w = (Inr (ts_exists T (tick w) path), tick_world [] w)"

definition run_piped :: "tool_sys \<Rightarrow> string \<Rightarrow> string list \<Rightarrow> string \<Rightarrow> ('e, string + (string + raw_output), 'z) tool" where
  "run_piped T prog args input w = (Inr (ts_piped T (tick w) prog args input), tick_world [EExec prog args] w)"

text \<open>A child has been started exactly when the call succeeds.\<close>

definition spawn_child :: "tool_sys \<Rightarrow> string \<Rightarrow> string list \<Rightarrow> (string, unit, 'z) tool" where
  "spawn_child T prog args w =
     (case ts_spawn T (tick w) prog args of
        Inl e \<Rightarrow> (Inl e, tick_world [] w)
      | Inr u \<Rightarrow> (Inr u, tick_world [EExec prog args] w))"

definition kill_child :: "string \<Rightarrow> ('e, unit, 'z) tool" where
  "kill_child prog w = (Inr (), tick_world [EKill prog] w)"

definition try_wait_child :: "tool_sys \<Rightarrow> (string, string option, 'z) tool" where
  "try_wait_child T w = (ts_try_wait T (tick w), tick_world [] w)"

text \<open>A GET is an exchange with the body \<open>null\<close>.\<close>

definition probe :: "tool_sys \<Rightarrow> string \<Rightarrow> ('e, bool, 'z) tool" where
  "probe T url w = (Inr (ts_get_ok T (tick w) url), tick_world [EHttp url JNull] w)"

definition post_json :: "tool_sys \<Rightarrow> string \<Rightarrow> json \<Rightarrow> ('e, string + (string + json), 'z) tool" where
  "post_json T url body w = (Inr (ts_post T (tick w) url body), tick_world [EHttp url body] w)"

definition pause :: "tool_sys \<Rightarrow> nat \<Rightarrow> ('e, unit, 'z) tool" where
  "pause T secs w = (Inr (), do_sleep T secs w)"

section \<open>Exporting the artifact\<close>

record artifact_export_request =
  ax_block_number :: "u64 option"
  ax_rpc_url :: string
  ax_chain_id :: string
  ax_strk_fee_token_address :: string
  ax_tx_hash :: "string option"
  ax_tx_json :: "json option"

datatype artifact_error = MissingTransaction | ArtifactRpc rpc_error

fun artifact_error_display :: "artifact_error \<Rightarrow> string" where
  "artifact_error_display MissingTransaction = ''missing transaction input; provide tx_json or tx_hash''"
| "artifact_error_display (ArtifactRpc e) = ''rpc error: '' @ rpc_error_display e"

definition export_artifact ::
  "'y sys_scheme \<Rightarrow> ('f, 'x) ext_scheme \<Rightarrow> artifact_export_request \<Rightarrow> (artifact_error, snip36_proof_artifact, 'z) tool"
where
  "export_artifact S X req =
     (let rpc = rpc_new (ax_rpc_url req)
      in bindW (case (ax_tx_json req, ax_tx_hash req) of
                  (Some tx, _) \<Rightarrow> returnW tx
                | (None, Some h) \<Rightarrow> map_errW ArtifactRpc (get_transaction S X rpc h)
                | (None, None) \<Rightarrow> throwW MissingTransaction) (\<lambda>transaction.
         bindW (case ax_block_number req of
                  Some b \<Rightarrow> returnW b
                | None \<Rightarrow> map_errW ArtifactRpc (rpc_block_number S X rpc)) (\<lambda>block_number.
         returnW \<lparr>art_version = 1, art_block_number = block_number, art_rpc_url = ax_rpc_url req,
                  art_chain_id = ax_chain_id req, art_strk_fee_token_address = ax_strk_fee_token_address req,
                  art_tx_hash = ax_tx_hash req, art_transaction = transaction, art_execution_payload = None,
                  art_proof_facts_preimage = None, art_raw_messages = None\<rparr>)))"

section \<open>The bundle of a response\<close>

definition result_of_response :: "json \<Rightarrow> json option" where
  "result_of_response r = Option.bind (jget ''result'' r) (\<lambda>v. if is_null v then None else Some v)"

definition bundle_from_response ::
  "('f, 'x) ext_scheme \<Rightarrow> snip36_proof_artifact \<Rightarrow> json \<Rightarrow> string + snip36_proof_bundle"
where
  "bundle_from_response X artifact response =
     bindR (ok_or (''empty result from starknet_proveTransaction: '' @ x_json_text X response)
              (result_of_response response)) (\<lambda>result.
     bindR (case jget ''proof_facts'' result of
              Some v \<Rightarrow> map_err proof_error_display (parse_proof_facts_json X (x_json_text X v))
            | None \<Rightarrow> Inr []) (\<lambda>facts.
     Inr (bundle_of_result artifact (Some (x_json_text X result)) result facts)))"

section \<open>The vendored programs\<close>

definition SEQUENCER_DIR :: string where
  "SEQUENCER_DIR = ''/home/esdras/Documents/snip36-prover-web/deps/sequencer''"

definition vendored_input :: "snip36_proof_artifact \<Rightarrow> json" where
  "vendored_input a =
     JObj [(''config'', JObj [(''rpc_node_url'', JStr (art_rpc_url a)), (''chain_id'', JStr (art_chain_id a)),
                              (''validate_zero_fee_fields'', JBool True),
                              (''strk_fee_token_address'', JStr (art_strk_fee_token_address a))]),
           (''block_number'', ju64 (art_block_number a)), (''transaction'', art_transaction a)]"

definition vendored_command :: "string \<Rightarrow> string list" where
  "vendored_command bin =
     [''-lc'', ''source sequencer_venv/bin/activate && CC=clang CXX=clang++ cargo +nightly-2025-07-14 run -q '' @
               ''-p starknet_transaction_prover --features stwo_proving --bin '' @ bin]"

text \<open>Start the program, write the input, wait for its output.\<close>

definition run_vendored ::
  "tool_sys \<Rightarrow> ('f, 'x) ext_scheme \<Rightarrow> string \<Rightarrow> string \<Rightarrow> string \<Rightarrow> snip36_proof_artifact \<Rightarrow> (string, string, 'z) tool"
where
  "run_vendored T X bin start_error failure a =
     bindW (run_piped T ''bash'' (vendored_command bin) (x_json_text X (vendored_input a))) (\<lambda>r.
     case r of
       Inl e \<Rightarrow> throwW start_error
     | Inr (Inl e) \<Rightarrow> throwW e
     | Inr (Inr out) \<Rightarrow> if ro_success out then returnW (ro_stdout out) else throwW (failure @ ro_stderr out))"

text \<open>What \<open>String::from_utf8\<close> accepts; its error is shown without the position.\<close>

definition continuation :: "char \<Rightarrow> bool" where
  "continuation c = (let n = (of_char c :: nat) in 128 \<le> n \<and> n < 192)"

fun utf8_valid :: "string \<Rightarrow> bool" where
  "utf8_valid [] = True"
| "utf8_valid (a # cs) =
     (let n = (of_char a :: nat)
      in if n < 128 then utf8_valid cs
         else case cs of
           b # cs1 \<Rightarrow>
             if 194 \<le> n \<and> n < 224 then continuation b \<and> utf8_valid cs1
             else (case cs1 of
               c # cs2 \<Rightarrow>
                 if 224 \<le> n \<and> n < 240
                 then continuation b \<and> continuation c \<and> (n = 224 \<longrightarrow> 160 \<le> (of_char b :: nat)) \<and>
                      (n = 237 \<longrightarrow> (of_char b :: nat) < 160) \<and> utf8_valid cs2
                 else (case cs2 of
                   d # cs3 \<Rightarrow>
                     240 \<le> n \<and> n < 245 \<and> continuation b \<and> continuation c \<and> continuation d \<and>
                     (n = 240 \<longrightarrow> 144 \<le> (of_char b :: nat)) \<and> (n = 244 \<longrightarrow> (of_char b :: nat) < 144) \<and> utf8_valid cs3
                 | [] \<Rightarrow> False)
             | [] \<Rightarrow> False)
         | [] \<Rightarrow> False)"

definition export_execution_payload_via_vendored_direct ::
  "tool_sys \<Rightarrow> ('f, 'x) ext_scheme \<Rightarrow> snip36_proof_artifact \<Rightarrow> (string, string, 'z) tool"
where
  "export_execution_payload_via_vendored_direct T X artifact =
     bindW (run_vendored T X ''export_pie_json'' ''failed to start vendored pie exporter'' ''vendored pie exporter failed: '' artifact)
       (\<lambda>stdout. if utf8_valid stdout then returnW stdout else throwW ''invalid utf-8 sequence'')"

definition prove_artifact_via_vendored_direct ::
  "tool_sys \<Rightarrow> ('f, 'x) ext_scheme \<Rightarrow> snip36_proof_artifact \<Rightarrow> (string, json, 'z) tool"
where
  "prove_artifact_via_vendored_direct T X artifact =
     (let venv_activate = path_join SEQUENCER_DIR ''sequencer_venv/bin/activate''
      in bindW (file_exists T venv_activate) (\<lambda>present.
         if \<not> present then throwW (''sequencer venv missing at '' @ venv_activate)
         else
           bindW (run_vendored T X ''prove_json'' ''failed to start vendored direct prover''
                    ''vendored direct prover failed: '' artifact) (\<lambda>stdout.
           bindW (liftW (map_err (\<lambda>e. ''failed to decode vendored direct prover output'') (x_json_parse X stdout))) (\<lambda>result.
           returnW (JObj [(''result'', result)])))))"

section \<open>The native runner\<close>

definition runner_args :: "snip36_proof_artifact \<Rightarrow> 16 word \<Rightarrow> string list" where
  "runner_args a port =
     [''--rpc-url'', art_rpc_url a, ''--chain-id'', art_chain_id a, ''--port'', fmt_dec (unat port), ''--ip'', ''127.0.0.1'',
      ''--skip-fee-field-validation'', ''--strk-fee-token-address'', art_strk_fee_token_address a]"

text \<open>At most \<open>n\<close> more probes; a runner that has ended is an error.\<close>

fun wait_ready :: "tool_sys \<Rightarrow> string \<Rightarrow> nat \<Rightarrow> (string, unit, 'z) tool" where
  "wait_ready T url 0 = returnW ()"
| "wait_ready T url (Suc n) =
     bindW (probe T url) (\<lambda>ready.
     if ready then returnW ()
     else
       bindW (try_wait_child T) (\<lambda>status.
       case status of
         Some s \<Rightarrow> throwW (''starknet_os_runner exited prematurely with '' @ s)
       | None \<Rightarrow> bindW (pause T 1) (\<lambda>_. wait_ready T url n)))"

definition ready_url :: "16 word \<Rightarrow> string" where
  "ready_url port = ''http://127.0.0.1:'' @ fmt_dec (unat port) @ ''/''"

text \<open>The endpoint to ask and the runner started for it, if any.\<close>

definition start_runner ::
  "tool_sys \<Rightarrow> snip36_proof_artifact \<Rightarrow> 16 word \<Rightarrow> string option \<Rightarrow> (string, string \<times> string option, 'z) tool"
where
  "start_runner T artifact port env_file =
     bindW (liftW (map_err config_error_display (from_env (ts_host T) env_file))) (\<lambda>config.
     bindW (file_exists T (runner_bin config)) (\<lambda>present.
     if \<not> present
     then throwW (''starknet_os_runner not found at '' @ runner_bin config @ ''. Run `snip36 setup` or provide --prover-url.'')
     else
       bindW (map_errW (\<lambda>e. ''failed to start starknet_os_runner'') (spawn_child T (runner_bin config) (runner_args artifact port))) (\<lambda>_.
       bindW (wait_ready T (ready_url port) 30) (\<lambda>_.
       returnW (ready_url port, Some (runner_bin config))))))"

definition prove_request :: "snip36_proof_artifact \<Rightarrow> json" where
  "prove_request a =
     JObj [(''jsonrpc'', JStr ''2.0''), (''method'', JStr ''starknet_proveTransaction''),
           (''params'', JObj [(''block_id'', JObj [(''block_number'', ju64 (art_block_number a))]),
                              (''transaction'', art_transaction a)]),
           (''id'', JInt 1)]"

definition answer_of_post :: "string + (string + json) \<Rightarrow> string + json" where
  "answer_of_post r =
     (case r of Inl e \<Rightarrow> Inl ''starknet_proveTransaction request failed'' | Inr (Inl e) \<Rightarrow> Inl e | Inr (Inr j) \<Rightarrow> Inr j)"

definition stop_runner :: "string option \<Rightarrow> ('e, unit, 'z) tool" where
  "stop_runner child = (case child of Some prog \<Rightarrow> kill_child prog | None \<Rightarrow> returnW ())"

definition ask_endpoint ::
  "tool_sys \<Rightarrow> ('f, 'x) ext_scheme \<Rightarrow> snip36_proof_artifact \<Rightarrow> string \<times> string option \<Rightarrow> (string, json, 'z) tool"
where
  "ask_endpoint T X artifact = (\<lambda>(prove_endpoint, runner_child).
     bindW (post_json T prove_endpoint (prove_request artifact)) (\<lambda>r.
     bindW (liftW (answer_of_post r)) (\<lambda>response.
     bindW (stop_runner runner_child) (\<lambda>_.
     case jget ''error'' response of
       Some e \<Rightarrow> throwW (''starknet_proveTransaction failed: '' @ x_json_text X e)
     | None \<Rightarrow> returnW response))))"

definition prove_artifact_with_virtual_os ::
  "tool_sys \<Rightarrow> ('f, 'x) ext_scheme \<Rightarrow> snip36_proof_artifact \<Rightarrow> string option \<Rightarrow> 16 word \<Rightarrow> string option \<Rightarrow> (string, json, 'z) tool"
where
  "prove_artifact_with_virtual_os T X artifact prover_url port env_file =
     bindW (case prover_url of
              Some url \<Rightarrow> returnW (url, None)
            | None \<Rightarrow> start_runner T artifact port env_file) (ask_endpoint T X artifact)"

section \<open>The bundle of an artifact\<close>

datatype 'z prover_provider =
    NativeRunner "string option" "16 word" "string option"
  | VendoredDirect
  | Callback "snip36_proof_artifact \<Rightarrow> (string, snip36_proof_bundle, 'z) tool"

record 'z bundle_export_request =
  ber_artifact :: snip36_proof_artifact
  ber_provider :: "'z prover_provider"

definition export_proof_bundle ::
  "tool_sys \<Rightarrow> ('f, 'x) ext_scheme \<Rightarrow> 'z bundle_export_request \<Rightarrow> (string, snip36_proof_bundle, 'z) tool"
where
  "export_proof_bundle T X req =
     (case ber_provider req of
        NativeRunner prover_url port env_file \<Rightarrow>
          bindW (prove_artifact_with_virtual_os T X (ber_artifact req) prover_url port env_file) (\<lambda>prove_response.
          liftW (bundle_from_response X (ber_artifact req) prove_response))
      | VendoredDirect \<Rightarrow>
          bindW (prove_artifact_via_vendored_direct T X (ber_artifact req)) (\<lambda>prove_response.
          liftW (bundle_from_response X (ber_artifact req) prove_response))
      | Callback prove_bundle \<Rightarrow> prove_bundle (ber_artifact req))"

text \<open>A bundle prepared in advance.\<close>

definition precomputed_prover :: "snip36_proof_bundle \<Rightarrow> snip36_proof_artifact \<Rightarrow> (string, snip36_proof_bundle, 'z) tool" where
  "precomputed_prover bundle artifact = returnW bundle"

text \<open>Proving in this process; \<open>None\<close> is a panic of the prover.\<close>

definition prove_artifact_in_process ::
  "('f, 'o, 'x) prover_ext_scheme \<Rightarrow> ('g, 'y) ext_scheme \<Rightarrow> snip36_proof_artifact \<Rightarrow> bool \<Rightarrow> 'f proof_trace
   \<Rightarrow> (string + snip36_proof_bundle option) \<times> 'f proof_trace"
where
  "prove_artifact_in_process P X artifact validate_zero_fee_fields =
     bindW (prove_transaction_json P
              ((default_prover_config P)\<lparr>pc_rpc_node_url := art_rpc_url artifact, pc_chain_id := art_chain_id artifact,
                 pc_validate_zero_fee_fields := validate_zero_fee_fields\<rparr>)
              (art_block_number artifact) (art_transaction artifact)) (\<lambda>r.
     case r of
       None \<Rightarrow> returnW None
     | Some result \<Rightarrow> liftW (map_ok Some (bundle_from_response X artifact (JObj [(''result'', result)]))))"

section \<open>The interface of the bundle exporters\<close>

text \<open>What was asked for: the artifact without what proving adds to it.\<close>

definition asked :: "snip36_proof_artifact \<Rightarrow> snip36_proof_artifact" where
  "asked a = a\<lparr>art_execution_payload := None, art_proof_facts_preimage := None, art_raw_messages := None\<rparr>"

text \<open>The parts of a bundle that are stored twice agree.\<close>

definition consistent_bundle :: "snip36_proof_bundle \<Rightarrow> bool" where
  "consistent_bundle b \<longleftrightarrow>
     art_proof_facts_preimage (bun_artifact b) = (if bun_proof_facts b = [] then None else Some (bun_proof_facts b)) \<and>
     art_raw_messages (bun_artifact b) = bun_raw_messages b \<and>
     bun_proof_size b = map_option (\<lambda>p. word_of_nat (length p)) (bun_proof_base64 b) \<and>
     art_execution_payload (bun_artifact b) \<noteq> None"

locale bundle_exporter =
  fixes export :: "snip36_proof_artifact \<Rightarrow> 'r \<Rightarrow> string + snip36_proof_bundle"
  assumes keeps_asked: "export a r = Inr b \<Longrightarrow> asked (bun_artifact b) = asked a"
    and consistent: "export a r = Inr b \<Longrightarrow> consistent_bundle b"
begin

lemma exported: "export a r = Inr b \<Longrightarrow> asked (bun_artifact b) = asked a \<and> consistent_bundle b"
  using keeps_asked consistent by blast

text \<open>Exporting the artifact of a bundle again asks for the same thing.\<close>

lemma export_again: "export a r = Inr b \<Longrightarrow> export (bun_artifact b) r' = Inr b' \<Longrightarrow> asked (bun_artifact b') = asked a"
  using keeps_asked by metis

lemma exported_facts: "export a r = Inr b \<Longrightarrow> art_proof_facts_preimage (bun_artifact b) = None \<longleftrightarrow> bun_proof_facts b = []"
  using consistent by (simp add: consistent_bundle_def)

end

lemma bundle_of_result_laws:
  "asked (bun_artifact (bundle_of_result a payload result facts)) = asked a"
  "payload \<noteq> None \<Longrightarrow> consistent_bundle (bundle_of_result a payload result facts)"
  by (simp_all add: bundle_of_result_def asked_def consistent_bundle_def Let_def)

interpretation response_bundles: bundle_exporter "bundle_from_response X" for X
  by unfold_locales (auto simp: bundle_from_response_def bindR_Inr_iff bundle_of_result_laws)

interpretation payload_bundles: bundle_exporter "\<lambda>a (u :: unit). bundle_from_execution_payload X a" for X
  by unfold_locales (auto simp: bundle_from_execution_payload_def bindR_Inr_iff bundle_of_result_laws)

theorem proof_bundle_of_request:
  "case export_proof_bundle T X req w of
     (Inr b, w') \<Rightarrow>
       (case ber_provider req of
          Callback prove_bundle \<Rightarrow> prove_bundle (ber_artifact req) w = (Inr b, w')
        | _ \<Rightarrow> asked (bun_artifact b) = asked (ber_artifact req) \<and> consistent_bundle b)
   | (Inl e, w') \<Rightarrow> True"
  by (auto simp: export_proof_bundle_def bindW_Inr_iff liftW_eq response_bundles.exported
      split: prod.split sum.split prover_provider.split)

section \<open>A bundle rebuilt from its payload\<close>

definition json_reads_back :: "('f, 'x) ext_scheme \<Rightarrow> json \<Rightarrow> bool" where
  "json_reads_back X result \<longleftrightarrow>
     x_json_parse X (x_json_text X result) = Inr result \<and>
     (case jget ''proof_facts'' result of
        None \<Rightarrow> True
      | Some v \<Rightarrow> x_vec_string_parse X (x_json_text X v) = x_vec_string X v)"

text \<open>C21. The bundle built from the response of a prover is rebuilt exactly, by the builder of the other crate, from the execution payload recorded in its artifact.\<close>
theorem bundle_rebuilt_from_payload:
  assumes "result_of_response response = Some result" and "json_reads_back X result"
    and "bundle_from_response X artifact response = Inr b"
  shows "bundle_from_execution_payload X (bun_artifact b) = Inr b"
proof -
  from assms(3) assms(1) obtain facts where
    facts: "(case jget ''proof_facts'' result of
              Some v \<Rightarrow> map_err proof_error_display (parse_proof_facts_json X (x_json_text X v)) | None \<Rightarrow> Inr []) = Inr facts"
    and b: "b = bundle_of_result artifact (Some (x_json_text X result)) result facts"
    by (auto simp: bundle_from_response_def bindR_Inr_iff)
  have vec: "(case jget ''proof_facts'' result of
              Some v \<Rightarrow> map_err (\<lambda>e. ''invalid proof_facts: '' @ e) (x_vec_string X v) | None \<Rightarrow> Inr []) = Inr facts"
    using facts assms(2)
    by (auto simp: json_reads_back_def parse_proof_facts_json_def map_err_Inr_iff split: option.splits)
  have "art_execution_payload (bun_artifact b) = Some (x_json_text X result)"
    by (simp add: b bundle_of_result_def Let_def)
  moreover have "bundle_of_result (bun_artifact b) (Some (x_json_text X result)) result facts = b"
    by (simp add: b bundle_of_result_def Let_def)
  ultimately show ?thesis using assms(2) vec
    by (simp add: bundle_from_execution_payload_def json_reads_back_def)
qed

section \<open>The life of the native runner\<close>

fun started :: "effect list \<Rightarrow> string list" where
  "started [] = []"
| "started (EExec p args # es) = p # started es"
| "started (e # es) = started es"

fun killed :: "effect list \<Rightarrow> string list" where
  "killed [] = []"
| "killed (EKill p # es) = p # killed es"
| "killed (e # es) = killed es"

lemma started_append [simp]: "started (es @ fs) = started es @ started fs"
  by (induction es rule: started.induct) auto

lemma killed_append [simp]: "killed (es @ fs) = killed es @ killed fs"
  by (induction es rule: killed.induct) auto

lemma wait_ready_effects:
  "\<exists>es. effs (snd (wait_ready T url n w)) = effs w @ es \<and> started es = [] \<and> killed es = [] \<and> length (http_reqs es) \<le> n"
proof (induction n arbitrary: w)
  case (Suc n)
  let ?u = "do_sleep T 1 (tick_world [] (tick_world [EHttp url JNull] w))"
  obtain es where "effs (snd (wait_ready T url n ?u)) = effs ?u @ es" "started es = []" "killed es = []" "length (http_reqs es) \<le> n"
    using Suc by blast
  then show ?case
    by (auto simp: bindW_def probe_def try_wait_child_def pause_def returnW_def throwW_def tick_world_def do_sleep_def
        split: sum.split option.split)
qed (simp add: returnW_def)

lemma start_runner_effects:
  "\<exists>es. effs (snd (start_runner T a port env_file w)) = effs w @ es \<and> killed es = [] \<and> length (http_reqs es) \<le> 30 \<and>
     length (started es) \<le> 1 \<and>
     (case fst (start_runner T a port env_file w) of
        Inr (url, child) \<Rightarrow> (\<exists>p. child = Some p \<and> started es = [p]) | Inl e \<Rightarrow> True)"
proof (cases "from_env (ts_host T) env_file")
  case (Inr config)
  define u where "u = tick_world [] w"
  define v where "v = tick_world [EExec (runner_bin config) (runner_args a port)] u"
  have tu: "tick u = Suc (tick w)" by (simp add: u_def tick_world_def)
  have eu: "effs u = effs w" "effs v = effs w @ [EExec (runner_bin config) (runner_args a port)]"
    by (simp_all add: u_def v_def tick_world_def)
  obtain r x where loop: "wait_ready T (ready_url port) 30 v = (r, x)" by force
  then obtain es where es: "effs x = effs v @ es" "started es = []" "killed es = []" "length (http_reqs es) \<le> 30"
    using wait_ready_effects [of T "ready_url port" 30 v] by auto
  show ?thesis
  proof (cases "ts_exists T (tick w) (runner_bin config) \<and> ts_spawn T (Suc (tick w)) (runner_bin config) (runner_args a port) = Inr ()")
    case True
    then have "start_runner T a port env_file w = (map_ok (\<lambda>_. (ready_url port, Some (runner_bin config))) r, x)"
      using Inr loop by (cases r) (simp_all add: start_runner_def bindW_def liftW_def file_exists_def map_errW_def spawn_child_def
          u_def [symmetric] tu v_def [symmetric] returnW_def Let_def)
    then show ?thesis using es
      by (intro exI [of _ "EExec (runner_bin config) (runner_args a port) # es"]) (cases r; simp add: eu)
  next
    case False
    then have "\<exists>e. fst (start_runner T a port env_file w) = Inl e \<and> effs (snd (start_runner T a port env_file w)) = effs w"
      using Inr by (auto simp: start_runner_def bindW_def liftW_def file_exists_def map_errW_def spawn_child_def
          throwW_def tick_world_def split: sum.split)
    then show ?thesis by auto
  qed
qed (simp add: start_runner_def bindW_def liftW_def)

text \<open>What follows the choice of the endpoint.\<close>

lemma ask_endpoint_effects:
  "\<exists>es. effs (snd (ask_endpoint T X a (url, child) w)) = effs w @ es \<and> started es = [] \<and> length (http_reqs es) = 1 \<and>
     killed es \<in> {[], (case child of None \<Rightarrow> [] | Some p \<Rightarrow> [p])} \<and>
     (case fst (ask_endpoint T X a (url, child) w) of
        Inr response \<Rightarrow> killed es = (case child of None \<Rightarrow> [] | Some p \<Rightarrow> [p]) \<and> jget ''error'' response = None | Inl e \<Rightarrow> True)"
  by (cases child)
    (auto simp: ask_endpoint_def bindW_def post_json_def liftW_def answer_of_post_def stop_runner_def kill_child_def tick_world_def
      returnW_def throwW_def split: sum.split option.split)

text \<open>C20. Proving an artifact with the virtual OS starts at most one runner, and none when a prover URL is given; it ends after at most thirty probes and one proving request; a response it returns carries no error and comes after the runner it started was killed, and nothing else is ever killed.\<close>
theorem runner_lifecycle:
  "let (r, w') = prove_artifact_with_virtual_os T X a prover_url port env_file w
   in \<exists>es. effs w' = effs w @ es \<and> length (http_reqs es) \<le> 31 \<and>
        length (started es) \<le> (if prover_url = None then 1 else 0) \<and> killed es \<in> {[], started es} \<and>
        (case r of Inr response \<Rightarrow> killed es = started es \<and> jget ''error'' response = None | Inl e \<Rightarrow> True)"
proof -
  let ?m = "case prover_url of Some url \<Rightarrow> returnW (url, None) | None \<Rightarrow> start_runner T a port env_file"
  have run: "prove_artifact_with_virtual_os T X a prover_url port env_file w = bindW ?m (ask_endpoint T X a) w"
    by (simp add: prove_artifact_with_virtual_os_def)
  obtain r0 w0 where m: "?m w = (r0, w0)" by force
  have "\<exists>es. effs w0 = effs w @ es \<and> killed es = [] \<and> length (http_reqs es) \<le> 30 \<and>
      length (started es) \<le> (if prover_url = None then 1 else 0) \<and>
      (case r0 of Inr (url, child) \<Rightarrow> started es = (case child of None \<Rightarrow> [] | Some p \<Rightarrow> [p]) | Inl e \<Rightarrow> True)"
  proof (cases prover_url)
    case None
    with m have "start_runner T a port env_file w = (r0, w0)" by simp
    with start_runner_effects [of T a port env_file w] obtain es where
      es: "effs w0 = effs w @ es" "killed es = []" "length (http_reqs es) \<le> 30" "length (started es) \<le> 1"
      "case r0 of Inr (url, child) \<Rightarrow> (\<exists>p. child = Some p \<and> started es = [p]) | Inl e \<Rightarrow> True" by auto
    then show ?thesis using None by (intro exI [of _ es]) (cases r0; auto)
  next
    case (Some url)
    then show ?thesis using m by (intro exI [of _ "[]"]) (auto simp: returnW_def)
  qed
  then obtain es where es: "effs w0 = effs w @ es" "killed es = []" "length (http_reqs es) \<le> 30"
      "length (started es) \<le> (if prover_url = None then 1 else 0)"
      "case r0 of Inr (url, child) \<Rightarrow> started es = (case child of None \<Rightarrow> [] | Some p \<Rightarrow> [p]) | Inl e \<Rightarrow> True" by blast
  show ?thesis
  proof (cases r0)
    case (Inl e)
    then have "bindW ?m (ask_endpoint T X a) w = (Inl e, w0)" using m by (simp add: bindW_def)
    then show ?thesis using es unfolding run by auto
  next
    case (Inr uc)
    obtain url child where uc: "uc = (url, child)" by force
    obtain r w' where fin: "ask_endpoint T X a (url, child) w0 = (r, w')" by force
    have step: "bindW ?m (ask_endpoint T X a) w = (r, w')" using m Inr uc fin by (simp add: bindW_def)
    obtain fs where fs: "effs w' = effs w0 @ fs" "started fs = []" "length (http_reqs fs) = 1"
      "killed fs \<in> {[], (case child of None \<Rightarrow> [] | Some p \<Rightarrow> [p])}"
      "case r of Inr response \<Rightarrow> killed fs = (case child of None \<Rightarrow> [] | Some p \<Rightarrow> [p]) \<and> jget ''error'' response = None | Inl e \<Rightarrow> True"
      using ask_endpoint_effects [of T X a url child w0] unfolding fin fst_conv snd_conv by blast
    then show ?thesis unfolding run step Let_def prod.case using es Inr uc
      by (intro exI [of _ "es @ fs"]) (auto split: sum.splits)
  qed
qed

text \<open>A request that fails in transport leaves a runner running: the error is returned before it is killed.\<close>

lemma failed_request_leaves_runner:
  assumes "from_env (ts_host T) env_file = Inr c" and "\<And>n. ts_exists T n (runner_bin c)"
    and "\<And>n p args. ts_spawn T n p args = Inr ()" and "\<And>n url. ts_get_ok T n url" and "\<And>n url body. ts_post T n url body = Inl e"
  shows "killed (effs (snd (prove_artifact_with_virtual_os T X a None port env_file w))) = killed (effs w) \<and>
     started (effs (snd (prove_artifact_with_virtual_os T X a None port env_file w))) = started (effs w) @ [runner_bin c]"
proof -
  have ready: "wait_ready T url 30 w = (Inr (), tick_world [EHttp url JNull] w)" for url and w :: "'a world_scheme"
    using wait_ready.simps(2) [of T url 29] assms(4) by (simp add: bindW_def probe_def returnW_def eval_nat_numeral)
  show ?thesis
    by (simp add: prove_artifact_with_virtual_os_def start_runner_def assms bindW_def liftW_def file_exists_def map_errW_def spawn_child_def
        ready ask_endpoint_def post_json_def answer_of_post_def returnW_def tick_world_def)
qed

section \<open>Sample runs\<close>

definition sample_artifact :: snip36_proof_artifact where
  "sample_artifact =
     \<lparr>art_version = 1, art_block_number = 8, art_rpc_url = ''http://node'', art_chain_id = ''SN_MAIN'',
      art_strk_fee_token_address = ''0x1'', art_tx_hash = None, art_transaction = JObj [], art_execution_payload = None,
      art_proof_facts_preimage = None, art_raw_messages = None\<rparr>"

definition sample_result :: json where
  "sample_result = JObj [(''proof'', JStr ''cHJvb2Y=''), (''proof_facts'', jstrs [''0x1'', ''0x2''])]"

text \<open>A text conversion that reads back the sample.\<close>

definition sample_json_ext :: "nat ext" where
  "sample_json_ext = ref_ext
     \<lparr>x_json_text := (\<lambda>v. if v = sample_result then ''r'' else ''f''), x_json_parse := (\<lambda>s. Inr sample_result),
      x_vec_string_parse := (\<lambda>s. Inr [''0x1'', ''0x2''])\<rparr>"

theorem bundle_rebuilt_from_payload_witness:
  "\<exists>b. bundle_from_response sample_json_ext sample_artifact (JObj [(''result'', sample_result)]) = Inr b \<and>
     bundle_from_execution_payload sample_json_ext (bun_artifact b) = Inr b \<and> bun_proof_facts b = [''0x1'', ''0x2'']"
proof -
  have res: "result_of_response (JObj [(''result'', sample_result)]) = Some sample_result"
    by (simp add: result_of_response_def sample_result_def)
  have reads: "json_reads_back sample_json_ext sample_result"
    by (simp add: json_reads_back_def sample_json_ext_def sample_result_def ref_ext_def jstrs_def)
  have "\<exists>b. bundle_from_response sample_json_ext sample_artifact (JObj [(''result'', sample_result)]) = Inr b \<and> bun_proof_facts b = [''0x1'', ''0x2'']"
  proof -
    have "jget ''proof_facts'' sample_result = Some (jstrs [''0x1'', ''0x2''])" by (simp add: sample_result_def)
    moreover have "parse_proof_facts_json sample_json_ext s = Inr [''0x1'', ''0x2'']" for s
      by (simp add: parse_proof_facts_json_def sample_json_ext_def)
    ultimately show ?thesis using res by (simp add: bundle_from_response_def bundle_of_result_def Let_def)
  qed
  then obtain b where b: "bundle_from_response sample_json_ext sample_artifact (JObj [(''result'', sample_result)]) = Inr b"
    and facts: "bun_proof_facts b = [''0x1'', ''0x2'']" by blast
  from bundle_rebuilt_from_payload [OF res reads b] b facts show ?thesis by blast
qed

end
