(* ===== verification/Service_Cli.thy ===== *)
theory Service_Cli
  imports Service_Config "HOL-Library.Multiset"
begin

text \<open>
  The command line of the proving service: the options that the attributes of \<open>CliArgs\<close> in
  \<open>starknet_transaction_prover/src/server/config.rs\<close> declare. The parser is clap, a parameter, called
  in an environment: most options name a variable that is read when the option is not given.
  \<open>clap_reads\<close> is what it documents of a command line that gives each option at most once, with values
  of the types of the fields. The
  lemmas show that the order of the options does not matter and what the arguments of the native
  runner of \<open>snip36-artifact\<close> become.
\<close>

section \<open>Options\<close>

text \<open>An option with its value, named after its field.\<close>

datatype cli_setting =
    Set_config_file string
  | Set_rpc_url string
  | Set_chain_id string
  | Set_port u16
  | Set_ip string
  | Set_max_concurrent_requests nat
  | Set_max_connections u32
  | Set_tls_cert_file string
  | Set_tls_key_file string
  | Set_strk_fee_token_address string
  | Set_prefetch_state bool
  | Set_use_latest_versioned_constants bool
  | Set_skip_fee_field_validation
  | Set_no_cors
  | Set_cors_allow_origin string
  | Set_compiled_class_cache_size nat
  | Set_bouncer_config_override string

definition bool_text :: "bool \<Rightarrow> string" where
  "bool_text b = (if b then ''true'' else ''false'')"

fun cli_argv :: "cli_setting \<Rightarrow> string list" where
  "cli_argv (Set_config_file v) = [''--config-file'', v]"
| "cli_argv (Set_rpc_url v) = [''--rpc-url'', v]"
| "cli_argv (Set_chain_id v) = [''--chain-id'', v]"
| "cli_argv (Set_port v) = [''--port'', fmt_dec (unat v)]"
| "cli_argv (Set_ip v) = [''--ip'', v]"
| "cli_argv (Set_max_concurrent_requests n) = [''--max-concurrent-requests'', fmt_dec n]"
| "cli_argv (Set_max_connections v) = [''--max-connections'', fmt_dec (unat v)]"
| "cli_argv (Set_tls_cert_file v) = [''--tls-cert-file'', v]"
| "cli_argv (Set_tls_key_file v) = [''--tls-key-file'', v]"
| "cli_argv (Set_strk_fee_token_address v) = [''--strk-fee-token-address'', v]"
| "cli_argv (Set_prefetch_state b) = [''--prefetch-state'', bool_text b]"
| "cli_argv (Set_use_latest_versioned_constants b) = [''--use-latest-versioned-constants'', bool_text b]"
| "cli_argv Set_skip_fee_field_validation = [''--skip-fee-field-validation'']"
| "cli_argv Set_no_cors = [''--no-cors'']"
| "cli_argv (Set_cors_allow_origin v) = [''--cors-allow-origin'', v]"
| "cli_argv (Set_compiled_class_cache_size n) = [''--compiled-class-cache-size'', fmt_dec n]"
| "cli_argv (Set_bouncer_config_override v) = [''--bouncer-config-override'', v]"

text \<open>The values of one \<open>--cors-allow-origin\<close>, cut at the commas.\<close>

fun split_commas :: "string \<Rightarrow> string list" where
  "split_commas [] = [[]]"
| "split_commas (c # cs) =
     (if c = CHR '','' then [] # split_commas cs
      else case split_commas cs of [] \<Rightarrow> [[c]] | s # ss \<Rightarrow> (c # s) # ss)"

fun apply_setting :: "cli_setting \<Rightarrow> cli_args \<Rightarrow> cli_args" where
  "apply_setting (Set_config_file v) a = a\<lparr>cli_config_file := Some v\<rparr>"
| "apply_setting (Set_rpc_url v) a = a\<lparr>cli_rpc_url := Some v\<rparr>"
| "apply_setting (Set_chain_id v) a = a\<lparr>cli_chain_id := Some v\<rparr>"
| "apply_setting (Set_port v) a = a\<lparr>cli_port := Some v\<rparr>"
| "apply_setting (Set_ip v) a = a\<lparr>cli_ip := Some v\<rparr>"
| "apply_setting (Set_max_concurrent_requests n) a = a\<lparr>cli_max_concurrent_requests := Some n\<rparr>"
| "apply_setting (Set_max_connections v) a = a\<lparr>cli_max_connections := Some v\<rparr>"
| "apply_setting (Set_tls_cert_file v) a = a\<lparr>cli_tls_cert_file := Some v\<rparr>"
| "apply_setting (Set_tls_key_file v) a = a\<lparr>cli_tls_key_file := Some v\<rparr>"
| "apply_setting (Set_strk_fee_token_address v) a = a\<lparr>cli_strk_fee_token_address := Some v\<rparr>"
| "apply_setting (Set_prefetch_state b) a = a\<lparr>cli_prefetch_state := Some b\<rparr>"
| "apply_setting (Set_use_latest_versioned_constants b) a = a\<lparr>cli_use_latest_versioned_constants := Some b\<rparr>"
| "apply_setting Set_skip_fee_field_validation a = a\<lparr>cli_skip_fee_field_validation := True\<rparr>"
| "apply_setting Set_no_cors a = a\<lparr>cli_no_cors := True\<rparr>"
| "apply_setting (Set_cors_allow_origin v) a = a\<lparr>cli_cors_allow_origin := split_commas v\<rparr>"
| "apply_setting (Set_compiled_class_cache_size n) a = a\<lparr>cli_compiled_class_cache_size := Some n\<rparr>"
| "apply_setting (Set_bouncer_config_override v) a = a\<lparr>cli_bouncer_config_override := Some v\<rparr>"

definition setting_name :: "cli_setting \<Rightarrow> string" where
  "setting_name s = hd (cli_argv s)"

text \<open>Nothing given, on the command line or in the variables of the environment that the options name.\<close>

definition no_cli_args :: cli_args where
  "no_cli_args =
     \<lparr>cli_config_file = None, cli_rpc_url = None, cli_chain_id = None, cli_port = None, cli_ip = None,
      cli_max_concurrent_requests = None, cli_max_connections = None, cli_tls_cert_file = None,
      cli_tls_key_file = None, cli_strk_fee_token_address = None, cli_prefetch_state = None,
      cli_use_latest_versioned_constants = None, cli_skip_fee_field_validation = False, cli_no_cors = False,
      cli_cors_allow_origin = [], cli_compiled_class_cache_size = None, cli_bouncer_config_override = None\<rparr>"

text \<open>
  What clap documents. A value of an option does not look like an option, a path is not empty, a
  \<open>usize\<close> has 64 bits. Arguments that give each option at most once, and never \<open>--no-cors\<close> together with
  origins, are read as those of the environment (what no arguments at all give) with the given options
  set; the origins may come from the environment.
\<close>

fun fits_field :: "cli_setting \<Rightarrow> bool" where
  "fits_field (Set_config_file v) \<longleftrightarrow> v \<noteq> []"
| "fits_field (Set_tls_cert_file v) \<longleftrightarrow> v \<noteq> []"
| "fits_field (Set_tls_key_file v) \<longleftrightarrow> v \<noteq> []"
| "fits_field (Set_bouncer_config_override v) \<longleftrightarrow> v \<noteq> []"
| "fits_field (Set_max_concurrent_requests n) \<longleftrightarrow> n < 2 ^ 64"
| "fits_field (Set_compiled_class_cache_size n) \<longleftrightarrow> n < 2 ^ 64"
| "fits_field s \<longleftrightarrow> True"

definition valid_setting :: "cli_setting \<Rightarrow> bool" where
  "valid_setting s \<longleftrightarrow> fits_field s \<and> list_all (\<lambda>v. take 1 v \<noteq> ''-'') (tl (cli_argv s))"

definition conflicting :: "cli_args \<Rightarrow> bool" where
  "conflicting a \<longleftrightarrow> cli_no_cors a \<and> cli_cors_allow_origin a \<noteq> []"

definition clap_reads :: "(string list \<Rightarrow> string + cli_args) \<Rightarrow> bool" where
  "clap_reads parse \<longleftrightarrow>
     (\<forall>base ss. parse [] = Inr base \<and> distinct (map setting_name ss) \<and> list_all valid_setting ss \<and>
        \<not> conflicting (fold apply_setting ss base) \<longrightarrow>
        parse (concat (map cli_argv ss)) = Inr (fold apply_setting ss base))"

section \<open>The order of the options\<close>

lemma apply_setting_commute:
  "setting_name s \<noteq> setting_name t \<Longrightarrow> apply_setting s (apply_setting t a) = apply_setting t (apply_setting s a)"
  by (cases s; cases t) (simp_all add: setting_name_def)

lemma fold_setting_perm:
  assumes "mset ss = mset ts" and "distinct (map setting_name ss)"
  shows "fold apply_setting ss a = fold apply_setting ts a"
proof (rule fold_multiset_equiv [THEN fun_cong])
  fix s t assume "s \<in> set ss" "t \<in> set ss"
  then have "s = t \<or> setting_name s \<noteq> setting_name t" using assms(2) by (auto simp: distinct_map inj_on_def)
  then show "apply_setting s \<circ> apply_setting t = apply_setting t \<circ> apply_setting s"
    by (auto simp: fun_eq_iff apply_setting_commute)
qed (rule assms(1))

theorem option_order_irrelevant:
  assumes "clap_reads parse" and "parse [] = Inr base" and "mset ss = mset ts"
    and "distinct (map setting_name ss)" and "list_all valid_setting ss"
    and "\<not> conflicting (fold apply_setting ss base)"
  shows "parse (concat (map cli_argv ss)) = parse (concat (map cli_argv ts))"
proof -
  have same: "set ts = set ss" using assms(3) by (metis set_mset_mset)
  have "mset (map setting_name ts) = mset (map setting_name ss)" using assms(3) by simp
  then have "distinct (map setting_name ts)" using assms(4) by (metis mset_eq_imp_distinct_iff)
  moreover have "list_all valid_setting ts" using assms(5) same by (simp add: list_all_iff)
  ultimately show ?thesis
    using assms(1,2,4-6) same fold_setting_perm [OF assms(3,4), of base] by (simp add: clap_reads_def)
qed

section \<open>A parser of the options\<close>

definition dec_value :: "string \<Rightarrow> nat" where
  "dec_value s = foldl (\<lambda>n c. n * 10 + (of_char c - 48)) 0 s"

lemma dec_value_fmt_dec [simp]: "dec_value (fmt_dec n) = n"
proof (induction n rule: fmt_dec.induct)
  case (1 n)
  have digit: "(of_char (char_of (48 + d) :: char) :: nat) = 48 + d" if "d < 10" for d using that by simp
  show ?case
  proof (cases "n < 10")
    case True
    then show ?thesis by (subst fmt_dec.simps) (simp add: dec_value_def)
  next
    case False
    then have "dec_value (fmt_dec (n div 10)) = n div 10" using 1 by simp
    then show ?thesis using False digit [of "n mod 10"]
      by (subst fmt_dec.simps) (simp add: dec_value_def)
  qed
qed

definition valued_setting :: "string \<Rightarrow> string \<Rightarrow> cli_setting option" where
  "valued_setting name v =
     map_of [(''--config-file'', Set_config_file v), (''--rpc-url'', Set_rpc_url v), (''--chain-id'', Set_chain_id v),
       (''--port'', Set_port (word_of_nat (dec_value v))), (''--ip'', Set_ip v),
       (''--max-concurrent-requests'', Set_max_concurrent_requests (dec_value v)),
       (''--max-connections'', Set_max_connections (word_of_nat (dec_value v))), (''--tls-cert-file'', Set_tls_cert_file v),
       (''--tls-key-file'', Set_tls_key_file v), (''--strk-fee-token-address'', Set_strk_fee_token_address v),
       (''--prefetch-state'', Set_prefetch_state (v = ''true'')),
       (''--use-latest-versioned-constants'', Set_use_latest_versioned_constants (v = ''true'')),
       (''--cors-allow-origin'', Set_cors_allow_origin v), (''--compiled-class-cache-size'', Set_compiled_class_cache_size (dec_value v)),
       (''--bouncer-config-override'', Set_bouncer_config_override v)] name"

fun ref_clap :: "cli_args \<Rightarrow> string list \<Rightarrow> string + cli_args" where
  "ref_clap a [] = Inr a"
| "ref_clap a [n] =
     (if n = ''--skip-fee-field-validation'' then Inr (apply_setting Set_skip_fee_field_validation a)
      else if n = ''--no-cors'' then Inr (apply_setting Set_no_cors a) else Inl ''unexpected argument'')"
| "ref_clap a (n # v # rest) =
     (if n = ''--skip-fee-field-validation'' then ref_clap (apply_setting Set_skip_fee_field_validation a) (v # rest)
      else if n = ''--no-cors'' then ref_clap (apply_setting Set_no_cors a) (v # rest)
      else case valued_setting n v of
             Some s \<Rightarrow> ref_clap (apply_setting s a) rest
           | None \<Rightarrow> Inl ''unexpected argument'')"

lemma ref_clap_setting: "ref_clap a (cli_argv s @ rest) = ref_clap (apply_setting s a) rest"
  by (cases s; cases rest) (simp_all add: valued_setting_def bool_text_def)

lemma ref_clap_reads: "clap_reads (ref_clap base)"
proof -
  have "ref_clap a (concat (map cli_argv ss)) = Inr (fold apply_setting ss a)" for a ss
    by (induction ss arbitrary: a) (simp_all add: ref_clap_setting)
  then show ?thesis by (simp add: clap_reads_def)
qed

end
