(* ===== verification/Proof_Flow.thy ===== *)
theory Proof_Flow
  imports Artifact_Export Proving_Api Service_Cli
begin

text \<open>
  The path of an artifact through the proving service: \<open>crates/snip36-artifact/src/lib.rs\<close> posts the
  transaction of the artifact to an endpoint and builds a bundle from the answer,
  \<open>starknet_transaction_prover\<close> answers the call. Between them is a JSON-RPC server of another crate;
  \<open>serves_calls\<close> is what its specification says of a request it answers. The theorems follow a bundle
  back to the run of the OS that was proved, on the block and the transaction of the artifact, and the
  arguments of the native runner, in the environment it inherits, to the service they configure.
\<close>

section \<open>JSON-RPC\<close>

text \<open>
  A request of the proving method: the names of the method and of the parameters are those of the
  trait \<open>ProvingRpc\<close>, a block number is the object that the block identifiers of Starknet use.
\<close>

definition is_prove_call ::
  "('f, 'o, 'x) prover_ext_scheme \<Rightarrow> json \<Rightarrow> 'f block_id \<Rightarrow> ('f, 'o) rpc_transaction \<Rightarrow> bool"
where
  "is_prove_call P request b t \<longleftrightarrow>
     (\<exists>params n tx. jget_str ''jsonrpc'' request = Some ''2.0'' \<and>
        jget_str ''method'' request = Some (proving_method (Prove_transaction_call b t)) \<and>
        jget ''params'' request = Some params \<and>
        jget ''block_id'' params = Some (JObj [(''block_number'', ju64 n)]) \<and> b = BlockNumberId n \<and>
        jget ''transaction'' params = Some tx \<and> p_rpc_transaction_parse P tx = Inr t)"

text \<open>A response has an \<open>error\<close> member, or a \<open>result\<close> member and no \<open>error\<close>.\<close>

definition is_response ::
  "('f, 'o, 'x) prover_ext_scheme \<Rightarrow> error_obj + ('f, 'o) prove_transaction_result option \<Rightarrow> json \<Rightarrow> bool"
where
  "is_response P r response \<longleftrightarrow>
     (case r of
        Inr (Some result) \<Rightarrow>
          (case prove_transaction_result_json P result of
             Inr j \<Rightarrow> jget ''result'' response = Some j \<and> jget ''error'' response = None
           | Inl e \<Rightarrow> jget ''error'' response \<noteq> None)
      | _ \<Rightarrow> jget ''error'' response \<noteq> None)"

text \<open>
  A URL behind which the service answers: a request of the proving method that gets a response gets
  that of the handler, called at some moment of the server's life. A request may also be lost.
\<close>

definition serves_calls ::
  "tool_sys \<Rightarrow> ('f, 'o, 'x) prover_ext_scheme \<Rightarrow> ('s, 'y) semaphore_scheme \<Rightarrow> ('f, 'o, 's) proving_server \<Rightarrow> string \<Rightarrow> bool"
where
  "serves_calls T P S server url \<longleftrightarrow>
     (\<forall>n request b t response. is_prove_call P request b t \<and> ts_post T n url request = Inr (Inr response) \<longrightarrow>
        (\<exists>s r s' w w'. psi_prover s = psi_prover server \<and> rpc_prove_transaction P S s b t w = (r, s', w') \<and>
           is_response P r response))"

text \<open>The felts of the proof facts are written in the form both sides read.\<close>

definition facts_read_back :: "('f, 'o, 'x) prover_ext_scheme \<Rightarrow> ('f, 'y) ext_scheme \<Rightarrow> bool" where
  "facts_read_back P X \<longleftrightarrow>
     (\<forall>fs v. p_proof_facts_json P fs = Inr v \<longrightarrow> x_vec_string_parse X (x_json_text X v) = Inr (map (x_to_hex X) fs))"

section \<open>The two ends\<close>

lemma artifact_request_is_call:
  assumes "p_rpc_transaction_parse P (art_transaction a) = Inr t"
  shows "is_prove_call P (prove_request a) (BlockNumberId (art_block_number a)) t"
  using assms by (simp add: is_prove_call_def prove_request_def jget_str_def)

lemma response_of_proof:
  assumes "rpc_prove_transaction P S s b t w = (r, s', w')" and "is_response P r response" and "jget ''error'' response = None"
  shows "\<exists>res j. prove_transaction P (psi_prover s) b t w = (Inr (Some res), w') \<and>
     prove_transaction_result_json P res = Inr j \<and> jget ''result'' response = Some j"
proof -
  from assms(2,3) obtain res where r: "r = Inr (Some res)"
    by (auto simp: is_response_def split: sum.splits option.splits)
  from assms(2,3) obtain j where j: "prove_transaction_result_json P res = Inr j" "jget ''result'' response = Some j"
    by (cases "prove_transaction_result_json P res") (auto simp: is_response_def r)
  from assms(1) obtain s1 where "admit S s = Inr s1" "permitted P s1 b t w = (r, w')"
    by (auto simp: rpc_prove_transaction_def r split: sum.splits prod.splits)
  moreover from this(1) have "psi_prover s1 = psi_prover s" by (auto simp: admit_def split: option.splits)
  ultimately have "prove_transaction P (psi_prover s) b t w = (Inr (Some res), w')"
    by (simp add: permitted_def map_errW_Inr_iff r)
  then show ?thesis using j by blast
qed

text \<open>The endpoint that is asked: the one given, or the one of the runner started.\<close>

definition endpoint_url :: "string option \<Rightarrow> 16 word \<Rightarrow> string" where
  "endpoint_url prover_url port = (case prover_url of Some url \<Rightarrow> url | None \<Rightarrow> ready_url port)"

lemma endpoint_answer:
  assumes "prove_artifact_with_virtual_os T X a prover_url port env_file w = (Inr response, w')"
  shows "\<exists>n. ts_post T n (endpoint_url prover_url port) (prove_request a) = Inr (Inr response) \<and> jget ''error'' response = None"
proof -
  from assms obtain url child v where
    v: "(case prover_url of Some url \<Rightarrow> returnW (url, None) | None \<Rightarrow> start_runner T a port env_file) w = (Inr (url, child), v)"
    and ask: "ask_endpoint T X a (url, child) v = (Inr response, w')"
    by (auto simp: prove_artifact_with_virtual_os_def bindW_Inr_iff)
  have "url = endpoint_url prover_url port"
    using v by (auto simp: endpoint_url_def start_runner_def result_simps split: option.splits if_splits)
  moreover from ask obtain r where "ts_post T (tick v) url (prove_request a) = r" "answer_of_post r = Inr response"
      "jget ''error'' response = None"
    by (auto simp: ask_endpoint_def bindW_Inr_iff post_json_def liftW_eq returnW_eq split: option.splits)
  ultimately show ?thesis by (auto simp: answer_of_post_def split: sum.splits)
qed

lemma bundle_of_result_fields:
  assumes "prove_transaction_result_json P res = Inr j" and "facts_read_back P X"
    and "jget ''result'' response = Some j" and "bundle_from_response X a response = Inr b"
  shows "bun_proof_facts b = map (x_to_hex X) (ptr_proof_facts res) \<and>
     (\<exists>v. p_proof_json P (ptr_proof res) = Inr v \<and> bun_proof_base64 b = as_str v) \<and>
     (\<exists>ms. map (p_message_json P) (ptr_l2_to_l1_messages res) = map Inr ms \<and>
        bun_raw_messages b = Some (messages_json (JArr ms)))"
proof -
  from assms(1) obtain pr fs ms where
    f: "p_proof_json P (ptr_proof res) = Inr pr" "p_proof_facts_json P (ptr_proof_facts res) = Inr fs"
      "map (p_message_json P) (ptr_l2_to_l1_messages res) = map Inr ms"
      "j = JObj [(''proof'', pr), (''proof_facts'', fs), (''l2_to_l1_messages'', JArr ms)]"
    by (auto simp: prove_transaction_result_json_def bindR_Inr_iff collectR_Inr_iff)
  have "x_vec_string_parse X (x_json_text X fs) = Inr (map (x_to_hex X) (ptr_proof_facts res))"
    using assms(2) f(2) by (simp add: facts_read_back_def)
  moreover have "result_of_response response = Some j" using assms(3) f(4) by (simp add: result_of_response_def)
  ultimately show ?thesis using assms(4) f
    by (auto simp: bundle_from_response_def bindR_Inr_iff parse_proof_facts_json_def bundle_of_result_def Let_def jget_str_def)
qed

section \<open>A bundle holds the proof of its transaction\<close>

text \<open>The factory of the runs of a service is the one its configuration names.\<close>

definition configured_factory ::
  "('f, 'o, 'x) prover_ext_scheme \<Rightarrow> ('f, 'o) service_config \<Rightarrow> ('f, 'o) rpc_runner_factory \<Rightarrow> bool"
where
  "configured_factory P config f \<longleftrightarrow>
     p_url_parse P (pc_rpc_node_url (svc_prover_config config)) = Inr (rf_node_url f) \<and>
     rf_chain_info f = p_get_chain_info P (pc_chain_id (svc_prover_config config))
       (pc_strk_fee_token_address (svc_prover_config config)) \<and>
     rf_contract_class_manager f = p_class_manager_start P (pc_contract_class_manager_config (svc_prover_config config)) \<and>
     rf_runner_config f = pc_runner_config (svc_prover_config config)"

lemma server_configured:
  assumes "server_from_config P S config = Some server"
  shows "\<exists>f. vsp_runner (psi_prover server) = factory_run_virtual_os P f \<and> configured_factory P config f"
  using assms
  by (auto simp: server_from_config_def server_new_def snos_prover_new_def configured_factory_def Let_def split: Option.bind_splits)

text \<open>C6. If the endpoint answers proving calls as the service of a configuration does, a bundle the artifact crate exports from it comes from one run of the virtual OS: the request it posts is a call of the service for the block number and the transaction of the artifact, a response to exactly that request was got and the bundle built from it, and its result is the serialised outcome of a run on that transaction and that block, read from the node and for the chain, the classes and the runner configuration of the service; the proof, the facts and the messages of the bundle are those of the run, and the request recorded in it is that of the artifact. The assumptions on the blockifier are those of C5; the felts of the facts are written in the form both sides read.\<close>
theorem exported_bundle_is_proved:
  assumes "server_from_config P S config = Some server" and "executed_classes_distinct P" and "results_bounded P"
    and "serves_calls T P S server (endpoint_url prover_url port)" and "facts_read_back P X"
    and "p_rpc_transaction_parse P (art_transaction a) = Inr t"
    and "export_proof_bundle T X \<lparr>ber_artifact = a, ber_provider = NativeRunner prover_url port env_file\<rparr> w = (Inr b, w')"
  shows "asked (bun_artifact b) = asked a \<and> consistent_bundle b \<and>
     is_prove_call P (prove_request a) (BlockNumberId (art_block_number a)) t \<and>
     (\<exists>f n response j res u u'. configured_factory P config f \<and>
        ts_post T n (endpoint_url prover_url port) (prove_request a) = Inr (Inr response) \<and>
        bundle_from_response X a response = Inr b \<and>
        jget ''result'' response = Some j \<and> prove_transaction_result_json P res = Inr j \<and>
        run_behind P (psi_prover server) f (BlockNumberId (art_block_number a)) t u res u' \<and>
        bun_proof_facts b = map (x_to_hex X) (ptr_proof_facts res) \<and>
        (\<exists>v. p_proof_json P (ptr_proof res) = Inr v \<and> bun_proof_base64 b = as_str v) \<and>
        (\<exists>ms. map (p_message_json P) (ptr_l2_to_l1_messages res) = map Inr ms \<and>
           bun_raw_messages b = Some (messages_json (JArr ms))))"
proof -
  from assms(7) obtain response v where
    asked: "prove_artifact_with_virtual_os T X a prover_url port env_file w = (Inr response, v)"
    and built: "bundle_from_response X a response = Inr b"
    by (auto simp: export_proof_bundle_def bindW_Inr_iff liftW_eq)
  from endpoint_answer [OF asked] obtain n where
    n: "ts_post T n (endpoint_url prover_url port) (prove_request a) = Inr (Inr response)" "jget ''error'' response = None"
    by blast
  let ?b = "BlockNumberId (art_block_number a)"
  note call = artifact_request_is_call [OF assms(6)]
  from assms(4) n(1) call obtain s r s' u u' where
    s: "psi_prover s = psi_prover server" "rpc_prove_transaction P S s ?b t u = (r, s', u')" "is_response P r response"
    unfolding serves_calls_def by blast
  from response_of_proof [OF s(2,3) n(2)] obtain res j where
    res: "prove_transaction P (psi_prover server) ?b t u = (Inr (Some res), u')"
      "prove_transaction_result_json P res = Inr j" "jget ''result'' response = Some j"
    unfolding s(1) by blast
  from server_configured [OF assms(1)] obtain f where
    f: "vsp_runner (psi_prover server) = factory_run_virtual_os P f" "configured_factory P config f"
    by blast
  note fields = bundle_of_result_fields [OF res(2) assms(5) res(3) built]
  have "\<exists>f n response j res u u'. configured_factory P config f \<and>
        ts_post T n (endpoint_url prover_url port) (prove_request a) = Inr (Inr response) \<and>
        bundle_from_response X a response = Inr b \<and>
        jget ''result'' response = Some j \<and> prove_transaction_result_json P res = Inr j \<and>
        run_behind P (psi_prover server) f ?b t u res u' \<and>
        bun_proof_facts b = map (x_to_hex X) (ptr_proof_facts res) \<and>
        (\<exists>v. p_proof_json P (ptr_proof res) = Inr v \<and> bun_proof_base64 b = as_str v) \<and>
        (\<exists>ms. map (p_message_json P) (ptr_l2_to_l1_messages res) = map Inr ms \<and>
           bun_raw_messages b = Some (messages_json (JArr ms)))"
    using f(2) n(1) built res(2,3) result_has_run [OF f(1) assms(2,3) res(1)]
      fields [THEN conjunct1] fields [THEN conjunct2, THEN conjunct1] fields [THEN conjunct2, THEN conjunct2]
    by - (rule exI [of _ f], rule exI [of _ n], rule exI [of _ response], rule exI [of _ j], rule exI [of _ res],
        rule exI [of _ u], rule exI [of _ u'], intro conjI, assumption+)
  then show ?thesis using call response_bundles.exported [OF built] by blast
qed

section \<open>The native runner is a service for the artifact\<close>

definition runner_settings :: "snip36_proof_artifact \<Rightarrow> 16 word \<Rightarrow> cli_setting list" where
  "runner_settings a port =
     [Set_rpc_url (art_rpc_url a), Set_chain_id (art_chain_id a), Set_port port, Set_ip ''127.0.0.1'',
      Set_skip_fee_field_validation, Set_strk_fee_token_address (art_strk_fee_token_address a)]"

lemma runner_args_settings: "runner_args a port = concat (map cli_argv (runner_settings a port))"
  by (simp add: runner_args_def runner_settings_def)

lemma runner_args_read:
  assumes "clap_reads parse" and "parse [] = Inr env" and "cli_cors_allow_origin env = []"
    and "list_all (\<lambda>v. take 1 v \<noteq> ''-'') [art_rpc_url a, art_chain_id a, art_strk_fee_token_address a]"
  shows "parse (runner_args a port) = Inr (fold apply_setting (runner_settings a port) env)"
proof -
  have "\<exists>c cs. fmt_dec n = c # cs \<and> c \<noteq> CHR ''-''" for n
  proof (induction n rule: fmt_dec.induct)
    case (1 n)
    have "char_of (48 + n) \<noteq> CHR ''-''" if "n < 10"
    proof
      assume "char_of (48 + n) = CHR ''-''"
      from arg_cong [OF this, of "of_char :: char \<Rightarrow> nat"] have "(48 + n) mod 256 = 45" by simp
      then show False using that by simp
    qed
    with 1 show ?case by (subst (1) fmt_dec.simps) auto
  qed
  then have digit: "take 1 (fmt_dec n) \<noteq> ''-''" for n by (metis One_nat_def list.inject take_Suc_Cons)
  have "distinct (map setting_name (runner_settings a port))" by (simp add: runner_settings_def setting_name_def)
  moreover have "list_all valid_setting (runner_settings a port)"
    using assms(4) digit [of "unat port"] by (simp add: runner_settings_def valid_setting_def)
  moreover have "\<not> conflicting (fold apply_setting (runner_settings a port) env)"
    by (simp add: runner_settings_def conflicting_def assms(3))
  ultimately show ?thesis using assms(1,2) by (simp add: clap_reads_def runner_args_settings)
qed

text \<open>C19. In an environment that sets no configuration file, no TLS file and no CORS origins for the runner, the arguments the artifact exporter starts the native runner with configure a service for the artifact: it listens on the loopback address and the port the exporter asks, over HTTP without CORS, runs on the node, the chain and the fee token of the artifact, and does not check fee fields; its limits and its prefetching are those of the environment or the defaults. Assumed: the parser reads arguments as clap documents, the values of the artifact do not start with a dash, and the configuration is accepted.\<close>
theorem native_runner_serves_artifact:
  assumes "clap_reads parse" and "parse [] = Inr env"
    and "cli_config_file env = None" and "cli_tls_cert_file env = None" and "cli_tls_key_file env = None"
    and "cli_cors_allow_origin env = []"
    and "list_all (\<lambda>v. take 1 v \<noteq> ''-'') [art_rpc_url a, art_chain_id a, art_strk_fee_token_address a]"
    and "parse (runner_args a port) = Inr args" and "from_args C args = Inr (Some config)"
    and "server_from_config P S config = Some server"
  shows "svc_port config = port \<and> c_ip_parse C ''127.0.0.1'' = Inr (svc_ip config) \<and> svc_transport config = TransportHttp \<and>
     svc_cors_allow_origin config = [] \<and> \<not> vsp_validate_zero_fee_fields (psi_prover server) \<and>
     prefers (cli_max_concurrent_requests env) DEFAULT_MAX_CONCURRENT_REQUESTS (svc_max_concurrent_requests config) \<and>
     prefers (cli_max_connections env) DEFAULT_MAX_CONNECTIONS (svc_max_connections config) \<and>
     (\<exists>f token. vsp_runner (psi_prover server) = factory_run_virtual_os P f \<and>
        p_url_parse P (art_rpc_url a) = Inr (rf_node_url f) \<and> c_address_from_str C (art_strk_fee_token_address a) = Inr token \<and>
        rf_chain_info f = p_get_chain_info P (c_chain_id_from C (art_chain_id a)) (Some token) \<and>
        prefers (cli_prefetch_state env) False (exc_prefetch_state (rc_executor_config (rf_runner_config f))))"
proof -
  have args: "args = fold apply_setting (runner_settings a port) env"
    using runner_args_read [OF assms(1,2,6,7), of port] assms(8) by simp
  have given: "cli_config_file args = None" "cli_rpc_url args = Some (art_rpc_url a)" "cli_chain_id args = Some (art_chain_id a)"
    "cli_port args = Some port" "cli_ip args = Some ''127.0.0.1''" "cli_skip_fee_field_validation args"
    "cli_strk_fee_token_address args = Some (art_strk_fee_token_address a)" "cli_tls_cert_file args = None"
    "cli_tls_key_file args = None" "cli_cors_allow_origin args = []"
    "cli_max_concurrent_requests args = cli_max_concurrent_requests env" "cli_max_connections args = cli_max_connections env"
    "cli_prefetch_state args = cli_prefetch_state env"
    by (simp_all add: args runner_settings_def assms(3-6))
  obtain r config1 cors transport bouncer where
    r: "load_raw_config C args = Inr r" and over: "apply_overrides C args r = Inr config1"
    and t: "transport_mode_new (raw_tls_cert_file config1) (raw_tls_key_file config1) = Inr transport"
    and n: "normalize_cors_allow_origins C (raw_cors_allow_origin config1) = Inr cors"
    and config: "config = build_service_config C config1 bouncer cors transport"
    using assms(9) by (elim from_args_steps)
  have r: "r = default_raw_config C" using r by (simp add: load_raw_config_def given(1))
  note p = apply_overrides_prefers [OF over] and q = apply_overrides_parsed [OF over]
  have fields: "raw_rpc_node_url config1 = art_rpc_url a" "raw_chain_id config1 = c_chain_id_from C (art_chain_id a)"
    "raw_port config1 = port" "\<not> raw_validate_zero_fee_fields config1" "raw_cors_allow_origin config1 = []"
    "raw_tls_cert_file config1 = None" "raw_tls_key_file config1 = None"
    using p(1-3,6-9) by (simp_all add: default_raw_config_def prefers_def given r)
  have env: "prefers (cli_max_concurrent_requests env) DEFAULT_MAX_CONCURRENT_REQUESTS (raw_max_concurrent_requests config1)"
    "prefers (cli_max_connections env) DEFAULT_MAX_CONNECTIONS (raw_max_connections config1)"
    "prefers (cli_prefetch_state env) False (raw_prefetch_state config1)"
    using p(4,5,10) by (simp_all add: default_raw_config_def given r)
  from q(2) obtain token where token: "c_address_from_str C (art_strk_fee_token_address a) = Inr token"
    "raw_strk_fee_token_address config1 = Some token"
    by (auto simp: parsed_option_def given map_ok_Inr_iff)
  have ip: "c_ip_parse C ''127.0.0.1'' = Inr (raw_ip config1)" using q(1) by (simp add: parsed_option_def given)
  have "cors = []" using n by (simp add: fields normalize_cors_allow_origins_def)
  moreover have "transport = TransportHttp" using t by (simp add: fields transport_mode_new_Inr)
  moreover have "\<exists>f. vsp_runner (psi_prover server) = factory_run_virtual_os P f \<and>
      p_url_parse P (art_rpc_url a) = Inr (rf_node_url f) \<and>
      rf_chain_info f = p_get_chain_info P (c_chain_id_from C (art_chain_id a)) (Some token) \<and>
      exc_prefetch_state (rc_executor_config (rf_runner_config f)) = raw_prefetch_state config1"
    "\<not> vsp_validate_zero_fee_fields (psi_prover server)"
    using assms(10)
    by (auto simp: server_from_config_def server_new_def snos_prover_new_def config build_service_config_def fields token Let_def
        split: Option.bind_splits)
  ultimately show ?thesis using token(1) ip env fields by (auto simp: config build_service_config_def)
qed

section \<open>A sample flow\<close>

text \<open>A text of string lists that reads back when no string has a comma.\<close>

fun comma_text :: "json \<Rightarrow> string" where
  "comma_text (JArr vs) = concat (map (\<lambda>v. (case v of JStr s \<Rightarrow> s | _ \<Rightarrow> []) @ '','') vs)"
| "comma_text v = []"

fun comma_split :: "string \<Rightarrow> string \<Rightarrow> string list" where
  "comma_split acc [] = []"
| "comma_split acc (c # cs) = (if c = CHR '','' then acc # comma_split [] cs else comma_split (acc @ [c]) cs)"

lemma comma_split_item: "CHR '','' \<notin> set s \<Longrightarrow> comma_split acc (s @ CHR '','' # cs) = (acc @ s) # comma_split [] cs"
  by (induction s arbitrary: acc) auto

lemma comma_text_reads: "list_all (\<lambda>s. CHR '','' \<notin> set s) ss \<Longrightarrow> comma_split [] (comma_text (jstrs ss)) = ss"
  by (induction ss) (simp_all add: jstrs_def comma_split_item)

definition flow_ext :: "nat ext" where
  "flow_ext = ref_ext\<lparr>x_json_text := comma_text, x_vec_string_parse := (\<lambda>s. Inr (comma_split [] s))\<rparr>"

lemma flow_facts: "facts_read_back ref_prover_ext flow_ext"
proof -
  have "hex_val CHR '','' = None" by code_simp
  then have "CHR '','' \<notin> set (fmt_hex n)" for n
    by (auto simp: fmt_hex_def dest!: set_hex_digits) (metis hex_val_hex_digit option.distinct(1))
  then have "comma_split [] (comma_text (jstrs (map fmt_hex fs))) = map fmt_hex fs" for fs
    by (intro comma_text_reads) (simp add: list_all_iff)
  then show ?thesis by (simp add: facts_read_back_def flow_ext_def) (simp add: ref_ext_def)
qed

text \<open>A service with one permit, and a host where it answers the request of the sample artifact.\<close>

definition flow_config :: "(nat, unit) service_config" where
  "flow_config =
     \<lparr>svc_prover_config =
        \<lparr>pc_contract_class_manager_config = (), pc_chain_id = ''SN_SEPOLIA'', pc_rpc_node_url = ''http://node'',
         pc_runner_config = rf_runner_config sample_factory, pc_strk_fee_token_address = None, pc_validate_zero_fee_fields = True\<rparr>,
      svc_ip = (), svc_port = 3000, svc_max_concurrent_requests = 1, svc_max_connections = 10, svc_cors_allow_origin = [],
      svc_transport = TransportHttp\<rparr>"

lemma flow_server: "server_from_config ref_prover_ext ref_semaphore flow_config = Some (sample_server 1)"
  by (simp add: server_from_config_def snos_prover_new_def flow_config_def server_new_def ref_semaphore_def sample_server_def
      sample_prover_def sample_factory_def Let_def)
    (simp add: ref_prover_ext_def ref_runner_ext_def ref_exec_ext_def exec_ext.defs runner_ext.defs classes_ext.defs
      storage_ext.defs facts_ext.defs prover_ext.defs)

definition flow_sys :: "json \<Rightarrow> tool_sys" where
  "flow_sys response =
     \<lparr>sys_http = (\<lambda>n url body. Inl ''no node''), sys_lat = (\<lambda>n. 5),
      ts_host = \<lparr>h_env = Map.empty, h_exists = (\<lambda>p. False), h_current_dir = None, h_dotenv_from_path = (\<lambda>p e. e), h_dotenv = (\<lambda>e. e)\<rparr>,
      ts_exists = (\<lambda>n p. False), ts_piped = (\<lambda>n p a i. Inl ''not found''), ts_spawn = (\<lambda>n p a. Inl ''not found''),
      ts_get_ok = (\<lambda>n url. True), ts_try_wait = (\<lambda>n. Inr None),
      ts_post = (\<lambda>n url body. if body = prove_request sample_artifact then Inr (Inr response) else Inl ''refused'')\<rparr>"

lemma flow_call:
  assumes "is_prove_call ref_prover_ext (prove_request sample_artifact) b t"
  shows "b = BlockNumberId 8 \<and> t = RpcInvokeTx sample_rpc_tx"
proof -
  have "n = 8" if "uint n = 8" for n :: u64 using that by (simp add: word_uint_eq_iff)
  then show ?thesis using assms by (auto simp: is_prove_call_def prove_request_def sample_artifact_def ju64_def)
qed

lemma flow_answer:
  "\<exists>r j. rpc_prove_transaction ref_prover_ext ref_semaphore (sample_server 1) (BlockNumberId 8) (RpcInvokeTx sample_rpc_tx) [] = r \<and>
     is_response ref_prover_ext (fst r) (JObj [(''result'', j)]) \<and> jget ''proof_facts'' j = Some (jstrs [fmt_hex 5])"
proof -
  obtain res w' where res:
    "prove_transaction ref_prover_ext sample_prover (BlockNumberId 8) (RpcInvokeTx sample_rpc_tx) [] = (Inr (Some res), w')"
    "ptr_proof_facts res = [5]"
    using sample_proved [of "BlockNumberId 8"] by auto
  have "map (p_message_json ref_prover_ext) ms = map Inr (map (\<lambda>m. JNull) ms)" for ms by simp
  then have ms: "collectR (map (p_message_json ref_prover_ext) ms) = Inr (map (\<lambda>m. JNull) ms)" for ms
    by (simp only: collectR_map_Inr)
  let ?r = "rpc_prove_transaction ref_prover_ext ref_semaphore (sample_server 1) (BlockNumberId 8) (RpcInvokeTx sample_rpc_tx) []"
  let ?j = "JObj [(''proof'', JStr ''cHJvb2Y=''), (''proof_facts'', jstrs [fmt_hex 5]),
     (''l2_to_l1_messages'', JArr (map (\<lambda>m. JNull) (ptr_l2_to_l1_messages res)))]"
  have "fst ?r = Inr (Some res)"
    by (simp add: rpc_prove_transaction_def admit_def ref_semaphore_def sample_server_def permitted_def map_errW_def res(1))
  moreover have "prove_transaction_result_json ref_prover_ext res = Inr ?j"
    by (simp add: prove_transaction_result_json_def res(2) ms)
  ultimately show ?thesis by (intro exI [of _ ?r] exI [of _ ?j]) (simp add: is_response_def)
qed

lemma flow_serves:
  assumes "rpc_prove_transaction ref_prover_ext ref_semaphore (sample_server 1) (BlockNumberId 8) (RpcInvokeTx sample_rpc_tx) [] = r"
    and "is_response ref_prover_ext (fst r) response"
  shows "serves_calls (flow_sys response) ref_prover_ext ref_semaphore (sample_server 1) url"
  unfolding serves_calls_def
proof (intro allI impI, elim conjE)
  fix n request b t answer
  assume call: "is_prove_call ref_prover_ext request b t" and post: "ts_post (flow_sys response) n url request = Inr (Inr answer)"
  from post have "request = prove_request sample_artifact" "answer = response"
    by (auto simp: flow_sys_def split: if_splits)
  moreover from this call have "b = BlockNumberId 8" "t = RpcInvokeTx sample_rpc_tx" using flow_call by auto
  moreover obtain x s' w' where "r = (x, s', w')" by (metis prod_cases3)
  ultimately show "\<exists>s r s' w w'. psi_prover s = psi_prover (sample_server 1) \<and>
      rpc_prove_transaction ref_prover_ext ref_semaphore s b t w = (r, s', w') \<and> is_response ref_prover_ext r answer"
    using assms by (intro exI [of _ "sample_server 1"] exI [of _ x] exI [of _ s'] exI [of _ "[]"] exI [of _ w']) simp
qed

theorem exported_bundle_is_proved_witness:
  "\<exists>response b w'. export_proof_bundle (flow_sys response) flow_ext
       \<lparr>ber_artifact = sample_artifact, ber_provider = NativeRunner (Some ''http://prover'') 9900 None\<rparr>
       \<lparr>clk = 0, tick = 0, effs = []\<rparr> = (Inr b, w') \<and>
     (\<exists>f res u u'. configured_factory ref_prover_ext flow_config f \<and>
        run_behind ref_prover_ext sample_prover f (BlockNumberId 8) (RpcInvokeTx sample_rpc_tx) u res u' \<and>
        bun_proof_facts b = map fmt_hex (ptr_proof_facts res))"
proof -
  obtain r j where r: "rpc_prove_transaction ref_prover_ext ref_semaphore (sample_server 1) (BlockNumberId 8) (RpcInvokeTx sample_rpc_tx) [] = r"
    "is_response ref_prover_ext (fst r) (JObj [(''result'', j)])" and j: "jget ''proof_facts'' j = Some (jstrs [fmt_hex 5])"
    using flow_answer by blast
  let ?response = "JObj [(''result'', j)]"
  let ?req = "\<lparr>ber_artifact = sample_artifact, ber_provider = NativeRunner (Some ''http://prover'') 9900 None\<rparr> :: unit bundle_export_request"
  have "j \<noteq> JNull" using j by auto
  then have res: "result_of_response ?response = Some j" by (simp add: result_of_response_def) (cases j; simp)
  have "x_vec_string_parse flow_ext s = Inr (comma_split [] s)" for s by (simp add: flow_ext_def)
  then have "\<exists>b. bundle_from_response flow_ext sample_artifact ?response = Inr b"
    by (simp add: bundle_from_response_def res j parse_proof_facts_json_def)
  then obtain b where b: "bundle_from_response flow_ext sample_artifact ?response = Inr b" ..
  then have "\<exists>w'. export_proof_bundle (flow_sys ?response) flow_ext ?req \<lparr>clk = 0, tick = 0, effs = []\<rparr> = (Inr b, w')"
    by (simp add: export_proof_bundle_def prove_artifact_with_virtual_os_def ask_endpoint_def bindW_def returnW_def liftW_def
        post_json_def answer_of_post_def stop_runner_def tick_world_def flow_sys_def)
  then obtain w' where w': "export_proof_bundle (flow_sys ?response) flow_ext ?req \<lparr>clk = 0, tick = 0, effs = []\<rparr> = (Inr b, w')" ..
  have parse: "p_rpc_transaction_parse ref_prover_ext (art_transaction sample_artifact) = Inr (RpcInvokeTx sample_rpc_tx)"
    by (simp add: sample_artifact_def)
  note laws = ref_prover_laws
  from exported_bundle_is_proved [OF flow_server laws flow_serves [OF r] flow_facts parse w']
  obtain f res u u' where "configured_factory ref_prover_ext flow_config f"
    "run_behind ref_prover_ext (psi_prover (sample_server 1)) f (BlockNumberId (art_block_number sample_artifact))
       (RpcInvokeTx sample_rpc_tx) u res u'"
    "bun_proof_facts b = map (x_to_hex flow_ext) (ptr_proof_facts res)"
    by (elim exE conjE) (rule that)
  moreover have "x_to_hex flow_ext = fmt_hex" by (simp add: flow_ext_def ref_ext_def)
  moreover have "psi_prover (sample_server 1) = sample_prover" "art_block_number sample_artifact = 8"
    by (simp_all add: sample_server_def sample_artifact_def)
  ultimately have "\<exists>f res u u'. configured_factory ref_prover_ext flow_config f \<and>
      run_behind ref_prover_ext sample_prover f (BlockNumberId 8) (RpcInvokeTx sample_rpc_tx) u res u' \<and>
      bun_proof_facts b = map fmt_hex (ptr_proof_facts res)"
    by (intro exI [of _ f] exI [of _ res] exI [of _ u] exI [of _ u']) simp
  with w' show ?thesis by (intro exI [of _ ?response] exI [of _ b] exI [of _ w']) (rule conjI)
qed

lemma sample_runner_config:
  "\<exists>config. from_args ref_config_ext (fold apply_setting (runner_settings sample_artifact 9900) no_cli_args) = Inr (Some config)"
proof -
  have sel: "c_ip_parse ref_config_ext s = Inr ()" "c_address_from_str ref_config_ext s = Inr 7"
    "c_bouncer_parse ref_config_ext s = Inr ()" for s by (simp_all add: ref_config_ext_def)
  have over: "override (Some v) old = v" "override None old = old" for v old :: 'a by (simp_all add: override_def)
  show ?thesis
    by (simp add: runner_settings_def no_cli_args_def from_args_def load_raw_config_def apply_overrides_def default_raw_config_def
        over sel load_bouncer_config_def normalize_cors_allow_origins_def DEFAULT_MAX_CONCURRENT_REQUESTS_def
        DEFAULT_MAX_CONNECTIONS_def sample_artifact_def)
qed

theorem native_runner_serves_artifact_witness:
  "\<exists>args config server. ref_clap no_cli_args (runner_args sample_artifact 9900) = Inr args \<and>
     from_args ref_config_ext args = Inr (Some config) \<and>
     server_from_config ref_prover_ext ref_semaphore config = Some server \<and>
     svc_port config = 9900 \<and> svc_transport config = TransportHttp \<and> \<not> vsp_validate_zero_fee_fields (psi_prover server)"
proof -
  have plain: "list_all (\<lambda>v. take 1 v \<noteq> ''-'')
      [art_rpc_url sample_artifact, art_chain_id sample_artifact, art_strk_fee_token_address sample_artifact]"
    by (simp add: sample_artifact_def)
  have env: "ref_clap no_cli_args [] = Inr no_cli_args" by simp
  have unset: "cli_config_file no_cli_args = None" "cli_tls_cert_file no_cli_args = None" "cli_tls_key_file no_cli_args = None"
    "cli_cors_allow_origin no_cli_args = []" by (simp_all add: no_cli_args_def)
  note args = runner_args_read [OF ref_clap_reads env unset(4) plain, of 9900]
  obtain config where config: "from_args ref_config_ext (fold apply_setting (runner_settings sample_artifact 9900) no_cli_args) = Inr (Some config)"
    using sample_runner_config ..
  obtain server where server: "server_from_config ref_prover_ext ref_semaphore config = Some server"
    using sample_from_config by blast
  from native_runner_serves_artifact [OF ref_clap_reads env unset plain args config server] args config server show ?thesis by blast
qed

end
