(* ===== verification/Rpc_Replay.thy ===== *)
theory Rpc_Replay
  imports Externals "HOL-Library.Char_ord" "HOL-Library.List_Lexorder" "HOL-Library.Multiset"
begin

text \<open>
  Recording and replaying RPC traffic, \<open>starknet_transaction_prover/src/running/rpc_records.rs\<close>:
  the normal form of parameters, the recording proxy and the mock server that answers from its
  records. A panic is \<open>None\<close>; strings are compared by bytes. A record file is read in the object form
  the code writes. The servers around the handlers are in theory \<open>Rpc_Test_Modes\<close>. The lemmas say that the normal form does not depend on the
  order of arrays, and that a replay answers with what was recorded.
\<close>

section \<open>Records\<close>

record rpc_interaction =
  ri_method :: string
  ri_sorted_params :: json
  ri_response :: json

record rpc_records =
  rr_interactions :: "rpc_interaction list"

text \<open>The text of a record file, and back; a field that is missing or of another type is refused.\<close>

definition interaction_json :: "rpc_interaction \<Rightarrow> json" where
  "interaction_json i =
     JObj [(''method'', JStr (ri_method i)), (''sorted_params'', ri_sorted_params i), (''response'', ri_response i)]"

definition records_json :: "rpc_records \<Rightarrow> json" where
  "records_json r = JObj [(''interactions'', JArr (map interaction_json (rr_interactions r)))]"

definition interaction_of_json :: "json \<Rightarrow> rpc_interaction option" where
  "interaction_of_json j =
     Option.bind (jget_str ''method'' j) (\<lambda>m.
     Option.bind (jget ''sorted_params'' j) (\<lambda>p.
     Option.bind (jget ''response'' j) (\<lambda>r.
     Some \<lparr>ri_method = m, ri_sorted_params = p, ri_response = r\<rparr>)))"

definition records_of_json :: "json \<Rightarrow> rpc_records option" where
  "records_of_json j =
     Option.bind (Option.bind (jget ''interactions'' j) as_array) (\<lambda>vs.
     map_option (\<lambda>is. \<lparr>rr_interactions = is\<rparr>) (those (map interaction_of_json vs)))"

record file_sys =
  fs_read :: "string \<Rightarrow> string + string"
  fs_write :: "string \<Rightarrow> string \<Rightarrow> string + unit"
  fs_mkdir :: "string \<Rightarrow> string + unit"

text \<open>\<open>Path::parent\<close> of a path without a final slash.\<close>

definition path_parent :: "string \<Rightarrow> string option" where
  "path_parent path =
     (if path = [] \<or> path = ''/'' then None
      else if CHR ''/'' \<notin> set path then Some []
      else let dir = rev (tl (dropWhile (\<lambda>c. c \<noteq> CHR ''/'') (rev path))) in Some (if dir = [] then ''/'' else dir))"

definition load_records :: "('f, 'x) ext_scheme \<Rightarrow> 'z file_sys_scheme \<Rightarrow> string \<Rightarrow> rpc_records option" where
  "load_records X F path = Option.bind (ok_opt (bindR (fs_read F path) (x_json_parse X))) records_of_json"

definition save_records :: "('f, 'x) ext_scheme \<Rightarrow> 'z file_sys_scheme \<Rightarrow> rpc_records \<Rightarrow> string \<Rightarrow> effect list option" where
  "save_records X F records path =
     Option.bind (path_parent path) (\<lambda>dir.
     Option.bind (ok_opt (fs_mkdir F dir)) (\<lambda>_.
     let content = x_json_pretty X (records_json records)
     in map_option (\<lambda>_. [EWrite path content]) (ok_opt (fs_write F path content))))"

lemma records_json_roundtrip: "records_of_json (records_json r) = Some r"
proof -
  have "those (map interaction_of_json (map interaction_json is)) = Some is" for "is"
    by (induction "is") (simp_all add: interaction_of_json_def interaction_json_def jget_str_def)
  then show ?thesis by (simp add: records_of_json_def records_json_def)
qed

section \<open>Normal form\<close>

fun normalize_json :: "('f, 'x) ext_scheme \<Rightarrow> json \<Rightarrow> json" where
  "normalize_json X (JArr arr) = JArr (sort_key (x_json_text X) (map (normalize_json X) arr))"
| "normalize_json X (JObj obj) = JObj (map (\<lambda>(k, v). (k, normalize_json X v)) obj)"
| "normalize_json X other = other"

definition make_lookup_key :: "('f, 'x) ext_scheme \<Rightarrow> string \<Rightarrow> json \<Rightarrow> string" where
  "make_lookup_key X meth params = meth @ '':'' @ x_json_text X (normalize_json X params)"

section \<open>The mock server\<close>

type_synonym lookup = "string \<Rightarrow> json option"

definition mock_new :: "('f, 'x) ext_scheme \<Rightarrow> rpc_records \<Rightarrow> lookup" where
  "mock_new X records =
     fold (\<lambda>i m. m(make_lookup_key X (ri_method i) (ri_sorted_params i) \<mapsto> ri_response i)) (rr_interactions records) Map.empty"

datatype reply = Answer nat json | Failure nat string

definition request_method :: "json \<Rightarrow> string" where
  "request_method request = (case jget_str ''method'' request of Some m \<Rightarrow> m | None \<Rightarrow> ''unknown'')"

definition request_params :: "json \<Rightarrow> json" where
  "request_params request = (case jget ''params'' request of Some p \<Rightarrow> p | None \<Rightarrow> JNull)"

definition mock_handler :: "('f, 'x) ext_scheme \<Rightarrow> lookup \<Rightarrow> string \<Rightarrow> reply option" where
  "mock_handler X lookup body =
     (case x_json_parse X body of
        Inl e \<Rightarrow> None
      | Inr request \<Rightarrow>
          (case lookup (make_lookup_key X (request_method request) (request_params request)) of
             Some response \<Rightarrow> Some (Answer 200 response)
           | None \<Rightarrow> Some (Failure 404 ''No matching recorded interaction'')))"

section \<open>The recording proxy\<close>

text \<open>The node: a transport error, or a status and a body that may not be JSON.\<close>

type_synonym rpc_node = "nat \<Rightarrow> string \<Rightarrow> string + nat \<times> (string + json)"

definition proxy_handler ::
  "('f, 'x) ext_scheme \<Rightarrow> rpc_node \<Rightarrow> string \<Rightarrow> rpc_interaction list \<Rightarrow> (reply \<times> rpc_interaction list) option"
where
  "proxy_handler X node body interactions =
     (case x_json_parse X body of
        Inl e \<Rightarrow> None
      | Inr request \<Rightarrow>
          (case node (length interactions) body of
             Inr (status, Inr response_body) \<Rightarrow>
               Some (Answer status response_body, interactions @
                 [\<lparr>ri_method = request_method request, ri_sorted_params = normalize_json X (request_params request),
                   ri_response = response_body\<rparr>])
           | _ \<Rightarrow> None))"

definition into_records :: "rpc_interaction list \<Rightarrow> rpc_records" where
  "into_records interactions = \<lparr>rr_interactions = interactions\<rparr>"

text \<open>A test that sends its requests through the proxy.\<close>

fun record_run ::
  "('f, 'x) ext_scheme \<Rightarrow> rpc_node \<Rightarrow> string list \<Rightarrow> rpc_interaction list \<Rightarrow> (reply list \<times> rpc_interaction list) option"
where
  "record_run X node [] interactions = Some ([], interactions)"
| "record_run X node (body # bodies) interactions =
     Option.bind (proxy_handler X node body interactions) (\<lambda>(r, interactions').
     map_option (\<lambda>(rs, final). (r # rs, final)) (record_run X node bodies interactions'))"

section \<open>The normal form\<close>

lemma sort_key_sorted: "sorted (map f xs) \<Longrightarrow> sort_key f xs = xs"
proof (induction xs)
  case (Cons x xs)
  then have "insort_key f x xs = x # xs" by (intro insort_is_Cons) auto
  with Cons show ?case by simp
qed simp

lemma map_sort_key: "map f (sort_key f xs) = sort (map f xs)"
  by (rule properties_for_sort [symmetric]) simp_all

lemma normalize_json_idempotent: "normalize_json X (normalize_json X v) = normalize_json X v"
proof (induction X v rule: normalize_json.induct)
  case (1 X arr)
  have "map (normalize_json X) (sort_key (x_json_text X) (map (normalize_json X) arr)) = sort_key (x_json_text X) (map (normalize_json X) arr)"
    using 1 by (intro map_idI) auto
  then show ?case by (simp add: sort_key_sorted)
next
  case (2 X obj)
  then show ?case by (auto simp: case_prod_beta)
qed simp_all

lemma key_of_normalized: "make_lookup_key X m (normalize_json X p) = make_lookup_key X m p"
  by (simp add: make_lookup_key_def normalize_json_idempotent)

text \<open>Values that differ in the order of their arrays, at any depth.\<close>

inductive reordered :: "json \<Rightarrow> json \<Rightarrow> bool" where
  reordered_refl: "reordered v v"
| reordered_array: "list_all2 reordered xs ys \<Longrightarrow> mset ys = mset zs \<Longrightarrow> reordered (JArr xs) (JArr zs)"
| reordered_object: "list_all2 (\<lambda>a b. fst a = fst b \<and> reordered (snd a) (snd b)) as bs \<Longrightarrow> reordered (JObj as) (JObj bs)"

text \<open>The compact text of a value: the texts of the elements, separated.\<close>

fun separated :: "string list \<Rightarrow> string" where
  "separated [] = []"
| "separated [s] = s"
| "separated (s # t # ss) = s @ '','' @ separated (t # ss)"

definition compact_text :: "('f, 'x) ext_scheme \<Rightarrow> bool" where
  "compact_text X \<longleftrightarrow>
     (\<forall>vs. x_json_text X (JArr vs) = ''['' @ separated (map (x_json_text X) vs) @ '']'') \<and>
     (\<forall>kvs. x_json_text X (JObj kvs) =
        ''{'' @ separated (map (\<lambda>(k, v). x_json_text X (JStr k) @ '':'' @ x_json_text X v) kvs) @ ''}'')"

lemma reordered_text:
  assumes "compact_text X"
  shows "reordered v v' \<Longrightarrow> x_json_text X (normalize_json X v) = x_json_text X (normalize_json X v')"
proof (induction rule: reordered.induct)
  case (reordered_array xs ys zs)
  let ?t = "\<lambda>v. x_json_text X (normalize_json X v)"
  have "map ?t xs = map ?t ys" using reordered_array(1) by (auto simp: list_all2_conv_all_nth list_eq_iff_nth_eq)
  moreover have "mset (map ?t ys) = mset (map ?t zs)" using reordered_array(2) by simp
  ultimately have "sort (map ?t xs) = sort (map ?t zs)" by (metis mset_sort properties_for_sort sorted_sort)
  then show ?case using assms by (simp add: compact_text_def map_sort_key o_def)
next
  case (reordered_object as bs)
  have "map (\<lambda>x. x_json_text X (JStr (fst x)) @ '':'' @ x_json_text X (normalize_json X (snd x))) as =
      map (\<lambda>x. x_json_text X (JStr (fst x)) @ '':'' @ x_json_text X (normalize_json X (snd x))) bs"
    using reordered_object by (induction rule: list_all2_induct) auto
  then show ?case using assms by (simp add: compact_text_def o_def case_prod_beta)
qed simp

theorem key_ignores_array_order:
  assumes "compact_text X" and "reordered p p'"
  shows "make_lookup_key X m p = make_lookup_key X m p'"
  using reordered_text [OF assms] by (simp add: make_lookup_key_def)

section \<open>Replaying what was recorded\<close>

text \<open>The key of a request and its last recorded response.\<close>

definition body_key :: "('f, 'x) ext_scheme \<Rightarrow> string \<Rightarrow> string" where
  "body_key X body = (case x_json_parse X body of
      Inr request \<Rightarrow> make_lookup_key X (request_method request) (request_params request) | Inl e \<Rightarrow> [])"

definition later :: "('f, 'x) ext_scheme \<Rightarrow> string \<Rightarrow> string \<times> reply \<Rightarrow> json option \<Rightarrow> json option" where
  "later X key = (\<lambda>(body, r) acc. case r of Answer s j \<Rightarrow> if body_key X body = key then Some j else acc | Failure s t \<Rightarrow> acc)"

definition last_answer :: "('f, 'x) ext_scheme \<Rightarrow> string \<Rightarrow> (string \<times> reply) list \<Rightarrow> json option" where
  "last_answer X key log = fold (later X key) log None"

lemma mock_new_snoc: "mock_new X (into_records (is @ [i])) =
    (mock_new X (into_records is))(make_lookup_key X (ri_method i) (ri_sorted_params i) \<mapsto> ri_response i)"
  by (simp add: mock_new_def into_records_def)

lemma proxy_step:
  assumes "proxy_handler X node body is = Some (r, is')"
  shows "\<exists>s j. r = Answer s j \<and> mock_new X (into_records is') = (mock_new X (into_records is))(body_key X body \<mapsto> j)"
  using assms
  by (auto simp: proxy_handler_def mock_new_snoc body_key_def key_of_normalized split: sum.splits prod.splits)

lemma record_run_answers:
  "record_run X node bodies is = Some (replies, final) \<Longrightarrow>
     length replies = length bodies \<and> list_all (\<lambda>r. \<exists>s j. r = Answer s j) replies \<and>
     mock_new X (into_records final) key = fold (later X key) (zip bodies replies) (mock_new X (into_records is) key)"
proof (induction bodies arbitrary: "is" replies)
  case (Cons body bodies)
  then obtain r is1 rs where 1: "proxy_handler X node body is = Some (r, is1)" and 2: "record_run X node bodies is1 = Some (rs, final)"
    and replies: "replies = r # rs" by (auto simp: bind_eq_Some_conv)
  from proxy_step [OF 1] Cons.IH [OF 2] replies show ?case by (auto simp: later_def)
qed simp

lemma mock_of_records:
  assumes "record_run X node bodies [] = Some (replies, final)" and "x_json_parse X body = Inr request"
  shows "mock_handler X (mock_new X (into_records final)) body =
     Some (case last_answer X (body_key X body) (zip bodies replies) of
             Some j \<Rightarrow> Answer 200 j | None \<Rightarrow> Failure 404 ''No matching recorded interaction'')"
  using record_run_answers [OF assms(1), of "body_key X body"] assms(2)
  by (simp add: mock_handler_def body_key_def last_answer_def mock_new_def into_records_def split: option.split)

lemma last_answer_stable:
  assumes "\<forall>p \<in> set log. body_key X (fst p) = key \<longrightarrow> snd p = Answer s j"
  shows "fold (later X key) log acc = (if \<exists>p \<in> set log. body_key X (fst p) = key then Some j else acc)"
  using assms by (induction log arbitrary: acc) (auto simp: later_def split: reply.split)

text \<open>Requests with one key have one answer.\<close>

definition stable_answers :: "('f, 'x) ext_scheme \<Rightarrow> (string \<times> reply) list \<Rightarrow> bool" where
  "stable_answers X log \<longleftrightarrow> (\<forall>p \<in> set log. \<forall>p' \<in> set log. body_key X (fst p) = body_key X (fst p') \<longrightarrow> snd p = snd p')"

lemma recorded_parse: "record_run X node bodies is = Some x \<Longrightarrow> list_all (\<lambda>b. \<exists>request. x_json_parse X b = Inr request) bodies"
  by (induction bodies arbitrary: "is" x) (auto simp: bind_eq_Some_conv proxy_handler_def split: sum.splits)

theorem replay_answers_recorded:
  assumes "record_run X node bodies [] = Some (replies, final)" and "stable_answers X (zip bodies replies)"
  shows "list_all2 (\<lambda>body r. \<exists>status j. r = Answer status j \<and>
           mock_handler X (mock_new X (into_records final)) body = Some (Answer 200 j)) bodies replies"
proof -
  have len: "length replies = length bodies" and ans: "list_all (\<lambda>r. \<exists>s j. r = Answer s j) replies"
    using record_run_answers [OF assms(1)] by auto
  have "\<exists>status j. replies ! n = Answer status j \<and>
      mock_handler X (mock_new X (into_records final)) (bodies ! n) = Some (Answer 200 j)" if n: "n < length bodies" for n
  proof -
    obtain s j where r: "replies ! n = Answer s j" using ans len n by (auto simp: list_all_length)
    obtain request where p: "x_json_parse X (bodies ! n) = Inr request"
      using recorded_parse [OF assms(1)] n by (auto simp: list_all_length)
    have mem: "(bodies ! n, Answer s j) \<in> set (zip bodies replies)" using n len r by (auto simp: set_zip)
    then have "\<forall>p \<in> set (zip bodies replies). body_key X (fst p) = body_key X (bodies ! n) \<longrightarrow> snd p = Answer s j"
      using assms(2) unfolding stable_answers_def by (metis fst_conv snd_conv)
    from last_answer_stable [OF this] have "last_answer X (body_key X (bodies ! n)) (zip bodies replies) = Some j"
      unfolding last_answer_def using mem by (metis fst_conv)
    then show ?thesis using mock_of_records [OF assms(1) p] r by simp
  qed
  then show ?thesis using len by (simp add: list_all2_conv_all_nth)
qed

section \<open>A sample recording\<close>

text \<open>A compact text: strings in quotes, numbers in decimal.\<close>

fun sample_text :: "json \<Rightarrow> string" where
  "sample_text (JArr vs) = ''['' @ separated (map sample_text vs) @ '']''"
| "sample_text (JObj kvs) = ''{'' @ separated (map (\<lambda>(k, v). (CHR 0x22 # k @ [CHR 0x22]) @ '':'' @ sample_text v) kvs) @ ''}''"
| "sample_text (JStr s) = CHR 0x22 # s @ [CHR 0x22]"
| "sample_text (JInt i) = (if i < 0 then ''-'' @ fmt_dec (nat (- i)) else fmt_dec (nat i))"
| "sample_text (JBool b) = (if b then ''true'' else ''false'')"
| "sample_text (JFloat t) = t"
| "sample_text JNull = ''null''"

definition sample_request :: "string list \<Rightarrow> json" where
  "sample_request keys = JObj [(''method'', JStr ''m''), (''params'', jstrs keys)]"

definition replay_ext :: "nat ext" where
  "replay_ext = ref_ext\<lparr>x_json_text := sample_text,
     x_json_parse := (\<lambda>s. Inr (sample_request (if s = ''ab'' then [''a'', ''b''] else [''b'', ''a''])))\<rparr>"

lemma replay_compact: "compact_text replay_ext"
  by (simp add: compact_text_def replay_ext_def)

theorem key_ignores_array_order_witness:
  "make_lookup_key replay_ext ''m'' (jstrs [''a'', ''b'']) = make_lookup_key replay_ext ''m'' (jstrs [''b'', ''a''])"
proof (rule key_ignores_array_order [OF replay_compact])
  have "list_all2 reordered [JStr ''a'', JStr ''b''] [JStr ''a'', JStr ''b'']" by (simp add: reordered_refl)
  from reordered_array [OF this, of "[JStr ''b'', JStr ''a'']"]
  show "reordered (jstrs [''a'', ''b'']) (jstrs [''b'', ''a''])" by (simp add: jstrs_def add_mset_commute)
qed

definition sample_rpc_node :: rpc_node where
  "sample_rpc_node = (\<lambda>n body. Inr (200, Inr (JObj [(''result'', JInt 7)])))"

theorem replay_answers_recorded_witness:
  "\<exists>final. record_run replay_ext sample_rpc_node [''ab'', ''ba''] [] =
       Some (replicate 2 (Answer 200 (JObj [(''result'', JInt 7)])), final) \<and>
     mock_handler replay_ext (mock_new replay_ext (into_records final)) ''ba'' = Some (Answer 200 (JObj [(''result'', JInt 7)]))"
proof -
  have "\<exists>final. record_run replay_ext sample_rpc_node [''ab'', ''ba''] [] =
       Some (replicate 2 (Answer 200 (JObj [(''result'', JInt 7)])), final)"
    by (simp add: proxy_handler_def sample_rpc_node_def replay_ext_def numeral_2_eq_2)
  then obtain final where run: "record_run replay_ext sample_rpc_node [''ab'', ''ba''] [] =
       Some (replicate 2 (Answer 200 (JObj [(''result'', JInt 7)])), final)" by blast
  have "stable_answers replay_ext (zip [''ab'', ''ba''] (replicate 2 (Answer 200 (JObj [(''result'', JInt 7)]))))"
    by (simp add: stable_answers_def numeral_2_eq_2)
  from replay_answers_recorded [OF run this] run show ?thesis by (simp add: numeral_2_eq_2)
qed

end
