(* ===== verification/Rpc_Test_Modes.thy ===== *)
theory Rpc_Test_Modes
  imports Rpc_Replay Core_Config
begin

text \<open>
  The servers around the records of theory \<open>Rpc_Replay\<close> and the choice between them: record paths,
  \<open>MockRpcServer\<close> and \<open>RecordingProxy\<close> of \<open>starknet_transaction_prover/src/running/rpc_records.rs\<close>,
  \<open>TestRpcSetup\<close> of \<open>src/test_utils.rs\<close>. A panic is \<open>None\<close>; binding a listener gives its local
  address. The theorem follows a recording through the file: what is recorded and saved by one run
  is what the next run replays, without a node.
\<close>

section \<open>Paths and the host\<close>

record test_host = file_sys +
  th_env :: environment
  th_exists :: "string \<Rightarrow> bool"
  th_bind :: "string \<Rightarrow> string option"
  th_manifest :: string

definition SERVER_BIND_ADDRESS :: string where
  "SERVER_BIND_ADDRESS = ''127.0.0.1:0''"

definition records_dir :: "'z test_host_scheme \<Rightarrow> string" where
  "records_dir T = path_join (path_join (th_manifest T) ''resources'') ''rpc_records''"

definition record_path :: "'z test_host_scheme \<Rightarrow> string \<Rightarrow> string" where
  "record_path T test_name = path_join (records_dir T) (test_name @ ''.json'')"

definition records_exist :: "'z test_host_scheme \<Rightarrow> string \<Rightarrow> bool" where
  "records_exist T test_name = th_exists T (record_path T test_name)"

definition get_rpc_url :: "'z test_host_scheme \<Rightarrow> string" where
  "get_rpc_url T = unwrap_or (th_env T ''NODE_URL'') ''http://localhost:9545/rpc/v0_10''"

section \<open>The servers\<close>

record mock_rpc_server =
  ms_url :: string
  ms_lookup :: lookup

definition mock_server_new ::
  "('f, 'x) ext_scheme \<Rightarrow> 'z test_host_scheme \<Rightarrow> rpc_records \<Rightarrow> mock_rpc_server option"
where
  "mock_server_new X T records =
     (let lookup = mock_new X records
      in map_option (\<lambda>addr. \<lparr>ms_url = ''http://'' @ addr, ms_lookup = lookup\<rparr>) (th_bind T SERVER_BIND_ADDRESS))"

record recording_proxy_state =
  rps_target_url :: string
  rps_interactions :: "rpc_interaction list"

record recording_proxy =
  rp_url :: string
  rp_state :: recording_proxy_state

definition recording_proxy_new :: "'z test_host_scheme \<Rightarrow> string \<Rightarrow> recording_proxy option" where
  "recording_proxy_new T target_url =
     (let state = \<lparr>rps_target_url = target_url, rps_interactions = []\<rparr>
      in map_option (\<lambda>addr. \<lparr>rp_url = ''http://'' @ addr, rp_state = state\<rparr>) (th_bind T SERVER_BIND_ADDRESS))"

text \<open>The nodes, by URL; the proxy asks the one at its target.\<close>

type_synonym rpc_net = "string \<Rightarrow> rpc_node"

definition proxy_requests ::
  "('f, 'x) ext_scheme \<Rightarrow> rpc_net \<Rightarrow> string list \<Rightarrow> recording_proxy \<Rightarrow> (reply list \<times> recording_proxy) option"
where
  "proxy_requests X net bodies p =
     map_option (\<lambda>(replies, interactions). (replies, p\<lparr>rp_state := (rp_state p)\<lparr>rps_interactions := interactions\<rparr>\<rparr>))
       (record_run X (net (rps_target_url (rp_state p))) bodies (rps_interactions (rp_state p)))"

definition proxy_into_records :: "recording_proxy \<Rightarrow> rpc_records" where
  "proxy_into_records p = into_records (rps_interactions (rp_state p))"

section \<open>Test modes\<close>

datatype test_rpc_setup =
    Live string
  | Recording recording_proxy string
  | Offline mock_rpc_server

fun setup_rpc_url :: "test_rpc_setup \<Rightarrow> string" where
  "setup_rpc_url (Live url) = url"
| "setup_rpc_url (Recording proxy test_name) = rp_url proxy"
| "setup_rpc_url (Offline server) = ms_url server"

fun finalize :: "('f, 'x) ext_scheme \<Rightarrow> 'z test_host_scheme \<Rightarrow> test_rpc_setup \<Rightarrow> effect list option" where
  "finalize X T (Recording proxy test_name) =
     save_records X T (proxy_into_records proxy) (record_path T test_name)"
| "finalize X T _ = Some []"

definition resolve_test_mode ::
  "('f, 'x) ext_scheme \<Rightarrow> 'z test_host_scheme \<Rightarrow> string \<Rightarrow> test_rpc_setup option"
where
  "resolve_test_mode X T test_name =
     (if th_env T ''RECORD_RPC_RECORDS'' \<noteq> None
      then map_option (\<lambda>proxy. Recording proxy test_name) (recording_proxy_new T (get_rpc_url T))
      else if records_exist T test_name
      then Option.bind (load_records X T (record_path T test_name)) (\<lambda>records.
           map_option Offline (mock_server_new X T records))
      else Some (Live (get_rpc_url T)))"

section \<open>A recording replays\<close>

text \<open>A host on which the files written are there.\<close>

definition holds_files :: "'z test_host_scheme \<Rightarrow> effect list \<Rightarrow> bool" where
  "holds_files T es \<longleftrightarrow>
     list_all (\<lambda>e. case e of EWrite p c \<Rightarrow> fs_read T p = Inr c \<and> th_exists T p | _ \<Rightarrow> True) es"

lemma save_records_writes:
  assumes "save_records X F records path = Some es"
  shows "es = [EWrite path (x_json_pretty X (records_json records))]"
  using assms by (auto simp: save_records_def bind_eq_Some_conv Let_def)

lemma saved_records_load:
  assumes "save_records X F records path = Some es" and "holds_files T es"
    and "x_json_parse X (x_json_pretty X (records_json records)) = Inr (records_json records)"
  shows "load_records X T path = Some records \<and> th_exists T path"
  using assms(2,3) records_json_roundtrip [of records]
  by (simp add: save_records_writes [OF assms(1)] holds_files_def load_records_def)

lemma recording_starts_empty:
  assumes "resolve_test_mode X T test_name = Some (Recording proxy n)"
  shows "n = test_name \<and> rps_interactions (rp_state proxy) = [] \<and> rps_target_url (rp_state proxy) = get_rpc_url T"
  using assms by (auto simp: resolve_test_mode_def recording_proxy_new_def bind_eq_Some_conv split: if_splits)

text \<open>C22. What a test run in recording mode records and saves is what the next run replays offline: without the recording variable it finds the file, starts the mock server, and every request of the recorded run is answered with the recorded response, when requests with the same key had the same answer.\<close>
theorem recording_replays:
  assumes recording: "resolve_test_mode X T test_name = Some (Recording proxy n)"
    and run: "proxy_requests X net bodies proxy = Some (replies, proxy')"
    and stable: "stable_answers X (zip bodies replies)"
    and saved: "finalize X T (Recording proxy' n) = Some es"
    and readable: "x_json_parse X (x_json_pretty X (records_json (proxy_into_records proxy'))) =
                 Inr (records_json (proxy_into_records proxy'))"
    and later: "holds_files T' es" "th_manifest T' = th_manifest T" "th_env T' ''RECORD_RPC_RECORDS'' = None"
      "th_bind T' SERVER_BIND_ADDRESS = Some addr"
  shows "\<exists>server. resolve_test_mode X T' test_name = Some (Offline server) \<and> ms_url server = ''http://'' @ addr \<and>
     list_all2 (\<lambda>body r. \<exists>status j. r = Answer status j \<and>
       mock_handler X (ms_lookup server) body = Some (Answer 200 j)) bodies replies"
proof -
  have start: "n = test_name" "rps_interactions (rp_state proxy) = []" using recording_starts_empty [OF recording] by auto
  obtain final where final: "record_run X (net (rps_target_url (rp_state proxy))) bodies [] = Some (replies, final)"
    and records: "proxy_into_records proxy' = into_records final"
    using run by (auto simp: proxy_requests_def start(2) proxy_into_records_def)
  have path: "record_path T' test_name = record_path T test_name" using later(2) by (simp add: record_path_def records_dir_def)
  have "save_records X T (into_records final) (record_path T test_name) = Some es"
    using saved by (simp add: start(1) records)
  from saved_records_load [OF this later(1)] readable
  have "load_records X T' (record_path T' test_name) = Some (into_records final)" "records_exist T' test_name"
    by (simp_all add: path records_exist_def records)
  then have "resolve_test_mode X T' test_name =
      Some (Offline \<lparr>ms_url = ''http://'' @ addr, ms_lookup = mock_new X (into_records final)\<rparr>)"
    using later(3,4) by (simp add: resolve_test_mode_def mock_server_new_def)
  then show ?thesis using replay_answers_recorded [OF final stable] by auto
qed

section \<open>A sample recording and its replay\<close>

definition sample_records :: rpc_records where
  "sample_records = into_records (replicate 2
     \<lparr>ri_method = ''m'', ri_sorted_params = jstrs [''a'', ''b''], ri_response = JObj [(''result'', JInt 7)]\<rparr>)"

definition file_ext :: "nat ext" where
  "file_ext = replay_ext\<lparr>x_json_pretty := (\<lambda>v. ''file''),
     x_json_parse := (\<lambda>s. if s = ''file'' then Inr (records_json sample_records) else x_json_parse replay_ext s)\<rparr>"

definition recording_host :: test_host where
  "recording_host = \<lparr>fs_read = (\<lambda>p. Inl ''none''), fs_write = (\<lambda>p c. Inr ()), fs_mkdir = (\<lambda>p. Inr ()),
     th_env = [''RECORD_RPC_RECORDS'' \<mapsto> ''1''], th_exists = (\<lambda>p. False), th_bind = (\<lambda>a. Some ''127.0.0.1:4000''),
     th_manifest = ''/crate''\<rparr>"

definition replaying_host :: test_host where
  "replaying_host = \<lparr>fs_read = (\<lambda>p. Inr ''file''), fs_write = (\<lambda>p c. Inr ()), fs_mkdir = (\<lambda>p. Inr ()),
     th_env = Map.empty, th_exists = (\<lambda>p. True), th_bind = (\<lambda>a. Some ''127.0.0.1:4001''), th_manifest = ''/crate''\<rparr>"

theorem recording_replays_witness:
  "\<exists>server. resolve_test_mode file_ext replaying_host ''t'' = Some (Offline server) \<and> ms_url server = ''http://127.0.0.1:4001'' \<and>
     mock_handler file_ext (ms_lookup server) ''ba'' = Some (Answer 200 (JObj [(''result'', JInt 7)]))"
proof -
  let ?answers = "replicate 2 (Answer 200 (JObj [(''result'', JInt 7)]))"
  let ?proxy = "\<lambda>is. \<lparr>rp_url = ''http://127.0.0.1:4000'',
     rp_state = \<lparr>rps_target_url = ''http://localhost:9545/rpc/v0_10'', rps_interactions = is\<rparr>\<rparr>"
  have recording: "resolve_test_mode file_ext recording_host ''t'' = Some (Recording (?proxy []) ''t'')"
    by (simp add: resolve_test_mode_def recording_host_def recording_proxy_new_def get_rpc_url_def)
  have run: "proxy_requests file_ext (\<lambda>url. sample_rpc_node) [''ab'', ''ba''] (?proxy []) =
      Some (?answers, ?proxy (rr_interactions sample_records))"
    by (simp add: proxy_requests_def proxy_handler_def sample_rpc_node_def file_ext_def replay_ext_def sample_records_def
        into_records_def sample_request_def request_method_def request_params_def jget_str_def jstrs_def numeral_2_eq_2)
  have stable: "stable_answers file_ext (zip [''ab'', ''ba''] ?answers)"
    by (simp add: stable_answers_def numeral_2_eq_2)
  have saved: "\<exists>es. finalize file_ext recording_host (Recording (?proxy (rr_interactions sample_records)) ''t'') = Some es \<and>
      holds_files replaying_host es"
    by (simp add: save_records_def recording_host_def record_path_def records_dir_def path_join_def path_parent_def
        file_ext_def holds_files_def replaying_host_def Let_def)
  then obtain es where es: "finalize file_ext recording_host (Recording (?proxy (rr_interactions sample_records)) ''t'') = Some es"
    "holds_files replaying_host es" by blast
  have "\<exists>server. resolve_test_mode file_ext replaying_host ''t'' = Some (Offline server) \<and> ms_url server = ''http://'' @ ''127.0.0.1:4001'' \<and>
     list_all2 (\<lambda>body r. \<exists>status j. r = Answer status j \<and>
       mock_handler file_ext (ms_lookup server) body = Some (Answer 200 j)) [''ab'', ''ba''] ?answers"
    by (rule recording_replays [OF recording run stable es(1) _ es(2)])
      (simp_all add: proxy_into_records_def into_records_def sample_records_def file_ext_def replaying_host_def recording_host_def)
  then show ?thesis by (auto simp: numeral_2_eq_2)
qed

end
