(* ===== verification/Extractor.thy ===== *)
theory Extractor
  imports Externals
begin

text \<open>
  The program extractor, \<open>extractor/src/main.rs\<close>: it writes the bytes of the virtual OS program, a
  constant of a third-party crate and an argument here, to the file named on the command line. The
  state is what the process has done so far; \<open>process::exit\<close> ends it with its status.
\<close>

record extractor_host =
  xh_parent :: "string \<Rightarrow> string option"
  xh_exists :: "string \<Rightarrow> bool"
  xh_create_dir_all :: "string \<Rightarrow> string + unit"
  xh_write :: "string \<Rightarrow> string \<Rightarrow> string + unit"
  xh_display :: "string \<Rightarrow> string"

datatype extractor_action = Eprint string | Print string | Made_dir string | Wrote string string

datatype 'a exit_or = Exit nat | Go 'a

definition extractor_output_path :: "string list \<Rightarrow> extractor_action list \<times> string exit_or" where
  "extractor_output_path args =
     (case args of
        _ # path # _ \<Rightarrow> ([], Go path)
      | _ \<Rightarrow> ([Eprint ''Usage: virtual-os-extractor <output-path>'',
               Eprint ''  Extracts VIRTUAL_OS_PROGRAM_BYTES to a JSON file.''], Exit 1))"

definition extractor_make_parent :: "extractor_host \<Rightarrow> string \<Rightarrow> extractor_action list \<times> unit exit_or" where
  "extractor_make_parent H output_path =
     (case xh_parent H output_path of
        None \<Rightarrow> ([], Go ())
      | Some parent \<Rightarrow>
          if xh_exists H parent then ([], Go ())
          else case xh_create_dir_all H parent of
                 Inr _ \<Rightarrow> ([Made_dir parent], Go ())
               | Inl e \<Rightarrow> ([Eprint (''Error: failed to create output directory: '' @ e)], Exit 1))"

definition extractor_main :: "extractor_host \<Rightarrow> string \<Rightarrow> string list \<Rightarrow> extractor_action list \<times> nat" where
  "extractor_main H program args =
     (case extractor_output_path args of
        (acts, Exit n) \<Rightarrow> (acts, n)
      | (acts, Go output_path) \<Rightarrow>
          (case extractor_make_parent H output_path of
             (made, Exit n) \<Rightarrow> (acts @ made, n)
           | (made, Go _) \<Rightarrow>
               (case xh_write H output_path program of
                  Inl e \<Rightarrow> (acts @ made @ [Eprint (''Error: failed to write output file: '' @ e)], 1)
                | Inr _ \<Rightarrow>
                    (acts @ made @ [Wrote output_path program,
                       Print (''Virtual OS program written to: '' @ xh_display H output_path),
                       Print (''Size: '' @ fmt_dec (length program) @ '' bytes'')], 0))))"

text \<open>The exit status tells whether the file was written, with the whole program, and to nowhere else.\<close>

theorem extractor_exit_status:
  "case extractor_main H program args of
     (acts, status) \<Rightarrow>
       (status = 0 \<and> (\<exists>path. take 1 (drop 1 args) = [path] \<and>
          {(p, c). Wrote p c \<in> set acts} = {(path, program)} \<and> (\<forall>t. Eprint t \<notin> set acts))) \<or>
       (status = 1 \<and> {(p, c). Wrote p c \<in> set acts} = {} \<and> (\<exists>t. last acts = Eprint t))"
  by (auto simp: extractor_main_def extractor_output_path_def extractor_make_parent_def
      split: list.splits option.splits sum.splits if_splits)

end
