(* ===== verification/Spec2Isabelle.thy ===== *)
theory Spec2Isabelle
  imports Rpc_Client Core_Config Proof_Codec Proving_Api Pure_Builder Server_Overlap Artifact_Export
    Proof_Flow Rpc_Test_Modes Extractor
begin

text \<open>
  \<^bold>\<open>The SNIP-36 prover: model and properties.\<close>

  The repository proves Starknet transactions off-chain (SNIP-36): a transaction is run by a
  virtual OS on the state of a block, the run is proved, and the proof and its facts are put into a
  new transaction, signed and submitted. This library models the Rust sources, in dependency order.

  \<^bold>\<open>Foundations.\<close>
  \<^item> \<open>Snip_Prelude\<close>: results as sums (\<open>bindR\<close>, \<open>map_err\<close>, \<open>collectR\<close>), the same over a world
    (\<open>bindW\<close>, \<open>liftW\<close>, \<open>map_errW\<close>), text and number conversions of the Rust standard library
    (\<open>trim\<close>, \<open>{:#x}\<close>, \<open>from_str_radix\<close>), and the insertion-ordered map; the collection
    \<open>result_simps\<close> inverts the combinators.
  \<^item> \<open>Json_Value\<close>: \<open>serde_json::Value\<close>. \<open>Externals\<close>: the third-party functions as the record
    \<open>ext\<close>, the laws a property may assume of them, an instance of the laws (\<open>ref_ext\<close>), and the
    \<open>world\<close> of a run: a clock, a counter of interactions and the list of effects. What the outside
    answers is an arbitrary function of that counter and the request.

  \<^bold>\<open>crates/snip36-core and snip36-pure.\<close>
  \<^item> \<open>Chain_Types\<close> (\<open>types.rs\<close>), \<open>Rpc_Client\<close> (\<open>rpc.rs\<close>), \<open>Tx_Signing\<close> (\<open>signing.rs\<close>: hash, signature,
    payload), \<open>Core_Config\<close> (\<open>config.rs\<close>), \<open>Proof_Codec\<close> (\<open>proof.rs\<close>).
  \<^item> \<open>Pure_Signing\<close> (\<open>snip36-pure\<close>, \<open>types.rs\<close> and the first part of \<open>signing.rs\<close>): the hash, the
    signature and the payload again, for a build without network; \<open>crates_agree\<close> shows that both crates
    compute the same. \<open>Pure_Builder\<close>: the JSON builders and the bundle of the pure crate, and the
    bindings of the two wasm crates (\<open>snip36-wasm\<close>, \<open>snip36-browser-prover-wasm\<close>).
  \<open>wait_for_tx\<close> and \<open>wait_for_block_after\<close> are total: an exchange advances the clock, so the distance to the deadline is a measure.
  The lemmas show what the hash binds, that a payload is the signed transaction it says it is, and
  when polling ends and on which answer of the node: \<open>answer_at\<close> is the answer to a request at one moment,
  \<open>receipt_answered\<close> a receipt the node gave between two moments, and the properties of the handlers
  name the answers their results come from with them.

  \<^bold>\<open>portable-core/starknet_transaction_prover.\<close>
  \<^item> \<open>Portable_Types\<close>: shared data, error types and their texts (\<open>errors.rs\<close>).
  \<^item> \<open>Storage_Query\<close> and \<open>Storage_Provider\<close> (\<open>running/storage_proofs.rs\<close>): splitting a query, merging
    the answers, commitment infos. \<open>Facts_Db\<close> (\<open>running/committer_utils.rs\<close>): the database of facts.
  \<^item> \<open>Classes_Provider\<close>, \<open>Block_Executor\<close> (with \<open>serde_utils.rs\<close>), \<open>Os_Runner\<close>: the files of the same
    names under \<open>running\<close>. \<open>Snos_Prover\<close>: \<open>proving/\<close>, \<open>config.rs\<close> and \<open>lib.rs\<close>.
  \<^item> \<open>Service_Config\<close> (\<open>server/config.rs\<close>, \<open>server/cors.rs\<close>), \<open>Service_Cli\<close> (its command line) and \<open>Proving_Server\<close> (\<open>server/errors.rs\<close>,
    \<open>rpc_impl.rs\<close>, \<open>server.rs\<close>, \<open>tls.rs\<close>, \<open>main.rs\<close>). Requests in flight are the step relation
    \<open>service_step\<close>; it refines a counter of live requests.
  \<^item> \<open>Proving_Api\<close> (\<open>server/rpc_api.rs\<close>, \<open>server/mock_rpc.rs\<close>): the trait of the service as the locale
    \<open>proving_rpc\<close>, interpreted on the service and on the canned server of the tests.
  \<^item> \<open>Rpc_Replay\<close> (\<open>running/rpc_records.rs\<close>): recording and replaying RPC traffic, and
    \<open>Rpc_Test_Modes\<close> (the servers of that file, \<open>test_utils.rs\<close>): live, recording and offline runs.
  The chain from the facts of a storage proof to the bundle of a proof goes through the locales
  \<open>classes_provider\<close>, \<open>storage_proof_provider\<close>, \<open>os_runner\<close>, \<open>virtual_block_executor\<close> and
  \<open>virtual_snos_runner\<close>, which are the traits of the sources, each interpreted on its provider.
  \<open>base_block_of\<close> is the block context an execution takes from a header, \<open>os_input_built\<close> the input of the OS
  built from an execution, and \<open>run_behind\<close> the run a result of the prover comes from. Two hypotheses state what the
  blockifier documents: \<open>results_bounded\<close> (a run of transactions has at most one result for each) and
  \<open>executed_classes_distinct\<close> (the executed classes are a set). \<open>keys_determine\<close> of \<open>Facts_Db\<close> says that
  leaves with one key are one leaf.

  \<^bold>\<open>crates/snip36-server and snip36-artifact.\<close>
  \<^item> \<open>Server_State\<close> (\<open>state.rs\<close>): the shared state, the world of a handler and what handlers ask of
    the host. A handler touches the state in atomic accesses (\<open>readW\<close>, \<open>stateW\<close>, \<open>modifyW\<close>), before each
    of which other requests may change it; \<open>keeps\<close> says what every access keeps, and \<open>keeps_rely\<close> and
    \<open>keeps_alone\<close> what then holds of the state; \<open>appends\<close> frames the effects and the time. Locale \<open>session_store\<close>.
  \<^item> \<open>Server_Routes\<close> (\<open>routes/read.rs\<close>, \<open>fund.rs\<close>, \<open>deploy.rs\<close>, \<open>invoke.rs\<close>, \<open>submit.rs\<close>, \<open>prove.rs\<close>),
    \<open>Prove_Block\<close> (\<open>routes/prove_block.rs\<close>) and \<open>Coinflip\<close> (\<open>routes/coinflip.rs\<close>), whose requests
    implement the ledger \<open>ledger_step\<close> of commitments. \<open>tx_written\<close>, \<open>files_proved\<close> and \<open>files_read\<close> say which file a
    cycle wrote, that the prover ran on it, and that the proof and the facts were read back from what
    the prover was told to write. Their statements hold while others
    change the shared state, as far as they say.
  \<^item> \<open>Server_App\<close> (\<open>routes/mod.rs\<close>, \<open>main.rs\<close>): the table of routes, the calls and replies of the
    handlers, start-up, and what a run of requests from start-up keeps. \<open>Server_Overlap\<close> puts requests in
    flight together: a schedule of their accesses, in any order, implements the ledger of commitments.
  \<^item> \<open>Artifact_Export\<close> (\<open>crates/snip36-artifact\<close>): exporting, proving and bundling an artifact; locale
    \<open>bundle_exporter\<close>, interpreted on both builders of bundles. \<open>Proof_Flow\<close> follows a bundle through the
    proving service back to the run of the OS that was proved, and the arguments of the native runner, with the
    environment it inherits, to the service they configure. \<open>Extractor\<close> (\<open>extractor/src/main.rs\<close>).

  \<^bold>\<open>Conventions.\<close> Errors are values of a sum; a panic is \<open>None\<close>, and in
  \<open>Server_App\<close> it also ends a release build of the playground server. Integers have the width of the
  code and wrap as in a release build. Hash maps and sets are functions, or lists when their order or
  their text is observable. Strings are byte strings. Code outside \<open>src\<close> is an argument (a record of
  functions); a property that needs its behaviour says so in a hypothesis, with an instance in its witness.
  Loops with a bound in the code have that bound: twenty submissions, thirty probes of a runner.
  Requests overlap in \<open>Server_Overlap\<close> (playground) and in \<open>service_step\<close> (proving service); a run of
  \<open>serve_requests\<close> is one after the other, each background task to its end. A property that is about one
  handler holds with others in between unless it says that the request is served alone.

  \<^bold>\<open>Not modelled.\<close> An exchange that never ends (every HTTP exchange, program and file access takes a finite
  time; the client of \<open>rpc.rs\<close> has no timeout of its own), an \<open>Instant\<close> that overflows, the answers of the CORS
  layers to OPTIONS requests, and memory that runs out, but for the argument \<open>room\<close> of \<open>serve_release\<close>. Log output and its set-up; axum, jsonrpsee, tokio and TLS beyond what the sources
  pass to them and take from them; the frames of server-sent events; the text conversions of
  third-party crates; the vendored JSON crate; the tests (the \<open>_test.rs\<close> files) and the fixtures of
  \<open>test_utils.rs\<close>; the TypeScript, Cairo and shell code.
\<close>

end
